(* ===== verification/Prelude.thy ===== *)
theory Prelude
  imports Main "HOL-Library.AList" "HOL-Library.Word"
begin

text \<open>
  Shared vocabulary of the development: the result type and the question-mark operator of Rust,
  poisonable mutexes, hash maps as association lists with distinct keys, the string and
  integer operations of the Rust standard library that the sources use, and generic
  reachability for the step relations. Strings are ASCII: one \<open>char\<close> is one byte and one
  Rust \<open>char\<close>.
\<close>

named_theorems result_simps \<open>evaluation of results, error mapping and locks\<close>
named_theorems registry_simps \<open>lookup, size and well-formedness of hash maps\<close>
named_theorems string_simps \<open>Rust string operations\<close>

subsection \<open>Types\<close>

type_synonym u8 = "8 word"
type_synonym i8 = "8 word"
type_synonym u32 = "32 word"
type_synonym i64 = "64 word"
type_synonym bytes = "u8 list"

text \<open>\<open>Result<A, E>\<close>: \<open>Inl\<close> is \<open>Err\<close>, \<open>Inr\<close> is \<open>Ok\<close>.\<close>

type_synonym ('e, 'a) result = "'e + 'a"

definition try_bind :: "('e, 'a) result \<Rightarrow> ('a \<Rightarrow> ('e, 'b) result) \<Rightarrow> ('e, 'b) result" where
  "try_bind r f = (case r of Inl e \<Rightarrow> Inl e | Inr a \<Rightarrow> f a)"

definition map_err :: "('e \<Rightarrow> 'f) \<Rightarrow> ('e, 'a) result \<Rightarrow> ('f, 'a) result" where
  "map_err g r = (case r of Inl e \<Rightarrow> Inl (g e) | Inr a \<Rightarrow> Inr a)"

definition ok_or :: "'e \<Rightarrow> 'a option \<Rightarrow> ('e, 'a) result" where
  "ok_or e x = (case x of None \<Rightarrow> Inl e | Some a \<Rightarrow> Inr a)"

lemma try_bind_simps [simp, result_simps]:
  "try_bind (Inl e) f = Inl e"
  "try_bind (Inr a) f = f a"
  by (simp_all add: try_bind_def)

lemma map_err_simps [simp, result_simps]:
  "map_err g (Inl e) = Inl (g e)"
  "map_err g (Inr a) = Inr a"
  by (simp_all add: map_err_def)

lemma ok_or_simps [simp, result_simps]:
  "ok_or e None = Inl e"
  "ok_or e (Some a) = Inr a"
  by (simp_all add: ok_or_def)

lemma try_bind_Inr_iff: "try_bind r f = Inr b \<longleftrightarrow> (\<exists>a. r = Inr a \<and> f a = Inr b)"
  by (cases r) auto

lemma try_bind_Inl_iff:
  "try_bind r f = Inl e \<longleftrightarrow> r = Inl e \<or> (\<exists>a. r = Inr a \<and> f a = Inl e)"
  by (cases r) auto

lemma map_err_Inr_iff: "map_err g r = Inr a \<longleftrightarrow> r = Inr a"
  by (cases r) auto

lemma ok_or_Inr_iff: "ok_or e x = Inr a \<longleftrightarrow> x = Some a"
  by (cases x) auto

lemmas result_iffs = try_bind_Inr_iff try_bind_Inl_iff map_err_Inr_iff ok_or_Inr_iff

text \<open>\<open>if c { return Err(e) }\<close> as a step of its own.\<close>

definition reject_if :: "bool \<Rightarrow> 'e \<Rightarrow> ('e, unit) result" where
  "reject_if c e = (if c then Inl e else Inr ())"

lemma reject_if_simps [simp, result_simps]:
  "reject_if True e = Inl e"
  "reject_if False e = Inr ()"
  by (simp_all add: reject_if_def)

lemma reject_if_Inr_iff: "reject_if c e = Inr u \<longleftrightarrow> \<not> c"
  by (simp add: reject_if_def)

text \<open>
  A loop over a list that stops at the first error, as a \<open>for\<close> loop whose body uses the
  question-mark operator.
\<close>

fun check_all :: "('a \<Rightarrow> ('e, unit) result) \<Rightarrow> 'a list \<Rightarrow> ('e, unit) result" where
  "check_all f [] = Inr ()"
| "check_all f (x # xs) = try_bind (f x) (\<lambda>_. check_all f xs)"

lemma check_all_cong [fundef_cong]:
  "xs = ys \<Longrightarrow> (\<And>x. x \<in> set ys \<Longrightarrow> f x = g x) \<Longrightarrow> check_all f xs = check_all g ys"
  by (induction ys arbitrary: xs) auto

lemma check_all_ok_iff: "check_all f xs = Inr u \<longleftrightarrow> (\<forall>x \<in> set xs. f x = Inr ())"
  by (induction xs) (auto simp: try_bind_Inr_iff)

text \<open>
  A loop that fills a \<open>HashSet\<close> of the keys it has seen: \<open>f seen x\<close> checks one element against
  them.
\<close>

fun check_fresh :: "('a set \<Rightarrow> 'a \<Rightarrow> ('e, unit) result) \<Rightarrow> 'a set \<Rightarrow> 'a list \<Rightarrow> ('e, unit) result"
  where
  "check_fresh f seen [] = Inr ()"
| "check_fresh f seen (x # xs) = try_bind (f seen x) (\<lambda>_. check_fresh f (insert x seen) xs)"

lemma check_fresh_ok_iff:
  assumes "\<And>S x. f S x = Inr () \<longleftrightarrow> x \<notin> S \<and> P x"
  shows "check_fresh f seen xs = Inr u \<longleftrightarrow>
    distinct xs \<and> set xs \<inter> seen = {} \<and> (\<forall>x \<in> set xs. P x)"
  by (induction xs arbitrary: seen) (auto simp: try_bind_Inr_iff assms)

text \<open>\<open>collect\<close> of an iterator of results into a result of a vector: the first error wins.\<close>

fun collect_results :: "('a \<Rightarrow> ('e, 'b) result) \<Rightarrow> 'a list \<Rightarrow> ('e, 'b list) result" where
  "collect_results f [] = Inr []"
| "collect_results f (x # xs) =
     try_bind (f x) (\<lambda>y. try_bind (collect_results f xs) (\<lambda>ys. Inr (y # ys)))"

lemma collect_results_ok:
  "(\<And>x. x \<in> set xs \<Longrightarrow> f x = Inr (g x)) \<Longrightarrow> collect_results f xs = Inr (map g xs)"
  by (induction xs) auto

lemma collect_results_length: "collect_results f xs = Inr ys \<Longrightarrow> length ys = length xs"
  by (induction xs arbitrary: ys) (auto simp: try_bind_Inr_iff)

subsection \<open>Mutexes\<close>

text \<open>
  \<open>Mutex<T>\<close>: locking a poisoned mutex fails, and every caller turns the failure into an
  error of its own. A lock is modelled at the moment it is held, so it carries no holder.
\<close>

datatype 'a mutex = Mutex (poisoned: bool) (inner: 'a)

definition lock :: "'e \<Rightarrow> 'a mutex \<Rightarrow> ('e, 'a) result" where
  "lock e m = (if poisoned m then Inl e else Inr (inner m))"

definition store :: "'a mutex \<Rightarrow> 'a \<Rightarrow> 'a mutex" where
  "store m x = Mutex (poisoned m) x"

abbreviation fresh_mutex :: "'a \<Rightarrow> 'a mutex" where
  "fresh_mutex x \<equiv> Mutex False x"

lemma store_simps [simp]:
  "inner (store m x) = x"
  "poisoned (store m x) = poisoned m"
  "store (Mutex p y) x = Mutex p x"
  "store (store m x) y = store m y"
  "store m (inner m) = m"
  by (simp_all add: store_def)

lemma lock_simps [simp, result_simps]:
  "lock e (Mutex False x) = Inr x"
  "lock e (Mutex True x) = Inl e"
  by (simp_all add: lock_def)

lemma lock_Inr_iff: "lock e m = Inr x \<longleftrightarrow> \<not> poisoned m \<and> x = inner m"
  by (auto simp: lock_def)

lemma lock_unpoisoned: "\<not> poisoned m \<Longrightarrow> lock e m = Inr (inner m)"
  by (simp add: lock_def)

lemma lock_poisoned: "poisoned m \<Longrightarrow> lock e m = Inl e"
  by (simp add: lock_def)

text \<open>
  Fallible code that threads a state: a step, its sequencing with the question-mark operator,
  and a step that runs while it holds the mutex \<open>get\<close> of the state.
\<close>

type_synonym ('s, 'e, 'a) step = "'s \<Rightarrow> ('e, 'a) result \<times> 's"

definition st_bind :: "('s, 'e, 'a) step \<Rightarrow> ('a \<Rightarrow> ('s, 'e, 'b) step) \<Rightarrow> ('s, 'e, 'b) step" where
  "st_bind m f s = (case m s of (Inl e, s') \<Rightarrow> (Inl e, s') | (Inr a, s') \<Rightarrow> f a s')"

definition locked ::
  "('s \<Rightarrow> 'm mutex) \<Rightarrow> ('m mutex \<Rightarrow> 's \<Rightarrow> 's) \<Rightarrow> 'e \<Rightarrow> ('m, 'e, 'a) step \<Rightarrow> ('s, 'e, 'a) step" where
  "locked get put e f s =
     (if poisoned (get s) then (Inl e, s)
      else (case f (inner (get s)) of (r, x) \<Rightarrow> (r, put (store (get s) x) s)))"

lemma st_bind_keeps:
  assumes "\<And>s. P s \<Longrightarrow> P (snd (m s))" and "\<And>a s. P s \<Longrightarrow> P (snd (f a s))" and "P s"
  shows "P (snd (st_bind m f s))"
proof -
  obtain r s' where m: "m s = (r, s')" by fastforce
  with assms(1) [OF assms(3)] have "P s'" by simp
  with m assms(2) show ?thesis by (cases r) (simp_all add: st_bind_def)
qed

lemma st_bind_Inr:
  assumes "st_bind m f s = (Inr b, s'')"
  obtains a s' where "m s = (Inr a, s')" "f a s' = (Inr b, s'')"
proof -
  obtain r s' where m: "m s = (r, s')" by fastforce
  with assms that show ?thesis by (cases r) (auto simp: st_bind_def)
qed

lemma locked_ok:
  "\<not> poisoned (get s) \<Longrightarrow>
   locked get put e f s = (case f (inner (get s)) of (r, x) \<Rightarrow> (r, put (store (get s) x) s))"
  by (simp add: locked_def)

lemma locked_Inr:
  assumes "locked get put e f s = (Inr a, s')"
  obtains x where "\<not> poisoned (get s)" "f (inner (get s)) = (Inr a, x)"
    "s' = put (store (get s) x) s"
  using assms by (auto simp: locked_def split: if_splits prod.splits)

lemma locked_keeps:
  assumes "\<And>m. Q m \<Longrightarrow> Q (snd (f m))"
    and "P s \<Longrightarrow> Q (inner (get s))"
    and "\<And>x. P s \<Longrightarrow> Q x \<Longrightarrow> P (put (store (get s) x) s)"
    and "P s"
  shows "P (snd (locked get put e f s))"
proof (cases "poisoned (get s)")
  case True
  with assms(4) show ?thesis by (simp add: locked_def)
next
  case False
  obtain r x where f: "f (inner (get s)) = (r, x)" by fastforce
  with assms have "Q x" by (metis snd_conv)
  with assms(3,4) False f show ?thesis by (simp add: locked_def)
qed


subsection \<open>Hash maps\<close>

text \<open>
  \<open>HashMap<K, V>\<close> is an association list with distinct keys. The list order stands for
  the unspecified iteration order of the map: a statement that holds for every well-formed
  list holds for every order.
\<close>

type_synonym ('k, 'v) hash_map = "('k \<times> 'v) list"

definition hm_wf :: "('k, 'v) hash_map \<Rightarrow> bool" where
  "hm_wf m \<longleftrightarrow> distinct (map fst m)"

abbreviation hm_get :: "('k, 'v) hash_map \<Rightarrow> 'k \<Rightarrow> 'v option" where
  "hm_get m k \<equiv> map_of m k"

abbreviation hm_insert :: "'k \<Rightarrow> 'v \<Rightarrow> ('k, 'v) hash_map \<Rightarrow> ('k, 'v) hash_map" where
  "hm_insert k v m \<equiv> AList.update k v m"

abbreviation hm_remove :: "'k \<Rightarrow> ('k, 'v) hash_map \<Rightarrow> ('k, 'v) hash_map" where
  "hm_remove k m \<equiv> AList.delete k m"

abbreviation hm_contains :: "('k, 'v) hash_map \<Rightarrow> 'k \<Rightarrow> bool" where
  "hm_contains m k \<equiv> k \<in> set (map fst m)"

abbreviation hm_keys :: "('k, 'v) hash_map \<Rightarrow> 'k list" where
  "hm_keys m \<equiv> map fst m"

abbreviation hm_values :: "('k, 'v) hash_map \<Rightarrow> 'v list" where
  "hm_values m \<equiv> map snd m"

text \<open>Iterating a list of pairs into a map: later entries win.\<close>

definition hm_from_list :: "('k \<times> 'v) list \<Rightarrow> ('k, 'v) hash_map" where
  "hm_from_list xs = fold (\<lambda>(k, v) m. hm_insert k v m) xs []"

lemma hm_wf_Nil [simp, registry_simps]: "hm_wf []"
  by (simp add: hm_wf_def)

lemma hm_wf_insert [simp, registry_simps]: "hm_wf m \<Longrightarrow> hm_wf (hm_insert k v m)"
  by (simp add: hm_wf_def distinct_update)

lemma hm_wf_remove [simp, registry_simps]: "hm_wf m \<Longrightarrow> hm_wf (hm_remove k m)"
  by (simp add: hm_wf_def distinct_delete)

lemma hm_wf_filter [simp, registry_simps]: "hm_wf m \<Longrightarrow> hm_wf (filter P m)"
  by (auto simp: hm_wf_def intro: distinct_map_filter)

lemma hm_get_insert [simp, registry_simps]:
  "hm_get (hm_insert k v m) k' = (if k' = k then Some v else hm_get m k')"
  by (simp add: update_conv')

lemma hm_get_remove [simp, registry_simps]:
  "hm_get (hm_remove k m) k' = (if k' = k then None else hm_get m k')"
  by (simp add: delete_conv')

lemma hm_get_None_iff: "hm_get m k = None \<longleftrightarrow> \<not> hm_contains m k"
  by (simp add: map_of_eq_None_iff)

lemma hm_get_all_None: "(\<And>k. hm_get m k = None) \<Longrightarrow> m = []"
proof (cases m)
  case (Cons kv m')
  moreover assume "\<And>k. hm_get m k = None"
  ultimately show ?thesis by (metis eq_fst_iff map_of_Cons_code(2) option.distinct(1))
qed

lemma hm_get_Some_contains: "hm_get m k = Some v \<Longrightarrow> hm_contains m k"
  by (metis hm_get_None_iff option.distinct(1))

lemma hm_insert_fresh: "\<not> hm_contains m k \<Longrightarrow> hm_insert k v m = m @ [(k, v)]"
  by (induction m) auto

lemma hm_len_insert:
  "length (hm_insert k v m) = (if hm_contains m k then length m else Suc (length m))"
  by (induction m) auto

lemma hm_remove_absent: "\<not> hm_contains m k \<Longrightarrow> hm_remove k m = m"
  by (induction m) (auto simp: AList.delete_eq)

lemma hm_len_remove:
  assumes "hm_wf m" and "hm_contains m k"
  shows "Suc (length (hm_remove k m)) = length m"
  using assms
proof (induction m)
  case Nil
  then show ?case by simp
next
  case (Cons kv m)
  show ?case
  proof (cases "fst kv = k")
    case True
    with Cons.prems(1) have "\<not> hm_contains m k"
      by (simp add: hm_wf_def)
    then have "hm_remove k m = m" by (rule hm_remove_absent)
    with True show ?thesis by (cases kv) (simp add: AList.delete_eq)
  next
    case False
    with Cons.prems have "Suc (length (hm_remove k m)) = length m"
      by (intro Cons.IH) (auto simp: hm_wf_def)
    with False show ?thesis by (cases kv) (simp add: AList.delete_eq)
  qed
qed

lemma hm_len_remove_le: "length (hm_remove k m) \<le> length m"
  by (rule length_delete_le)

lemma hm_get_filter:
  assumes "hm_wf m"
  shows "hm_get (filter P m) k =
    (case hm_get m k of None \<Rightarrow> None | Some v \<Rightarrow> if P (k, v) then Some v else None)"
  using assms
proof (induction m)
  case Nil
  then show ?case by simp
next
  case (Cons kv m)
  obtain a b where kv: "kv = (a, b)" by (cases kv)
  from Cons.prems kv have wf: "hm_wf m" and fresh: "a \<notin> fst ` set m"
    by (auto simp: hm_wf_def)
  have "hm_get (filter P m) a = None"
    using fresh by (auto simp: map_of_eq_None_iff)
  with Cons.IH [OF wf] kv fresh show ?case by auto
qed

lemma hm_wf_entry_iff: "hm_wf m \<Longrightarrow> (k, v) \<in> set m \<longleftrightarrow> hm_get m k = Some v"
  by (auto simp: hm_wf_def map_of_is_SomeI dest: map_of_SomeD)

text \<open>Counting the entries whose value satisfies a predicate.\<close>

definition hm_count :: "('v \<Rightarrow> bool) \<Rightarrow> ('k, 'v) hash_map \<Rightarrow> nat" where
  "hm_count P m = length (filter (\<lambda>kv. P (snd kv)) m)"

lemma hm_count_Nil [simp]: "hm_count P [] = 0"
  by (simp add: hm_count_def)

lemma hm_count_insert_fresh:
  "\<not> hm_contains m k \<Longrightarrow> hm_count P (hm_insert k v m) = hm_count P m + (if P v then 1 else 0)"
  by (simp add: hm_insert_fresh hm_count_def)

lemma hm_count_remove_le: "hm_count P (hm_remove k m) \<le> hm_count P m"
  by (induction m) (auto simp: AList.delete_eq hm_count_def)

lemma hm_count_filter_le: "hm_count P (filter Q m) \<le> hm_count P m"
  by (induction m) (auto simp: hm_count_def)

lemma hm_count_replace:
  assumes "hm_wf m" and "hm_get m k = Some v" and "P v' = P v"
  shows "hm_count P (hm_insert k v' m) = hm_count P m"
  using assms
proof (induction m)
  case Nil
  then show ?case by simp
next
  case (Cons kv m)
  show ?case
  proof (cases "fst kv = k")
    case True
    with Cons.prems show ?thesis by (cases kv) (simp add: hm_count_def)
  next
    case False
    with Cons.prems have "hm_count P (hm_insert k v' m) = hm_count P m"
      by (intro Cons.IH) (auto simp: hm_wf_def)
    with False show ?thesis by (cases kv) (simp add: hm_count_def)
  qed
qed

lemma fold_remove_get: "hm_get (fold hm_remove ks m) k = (if k \<in> set ks then None else hm_get m k)"
  by (induction ks arbitrary: m) auto

lemma fold_remove_wf: "hm_wf m \<Longrightarrow> hm_wf (fold hm_remove ks m)"
  by (induction ks arbitrary: m) auto

lemma fold_remove_length: "length (fold hm_remove ks m) \<le> length m"
proof (induction ks arbitrary: m)
  case (Cons k ks)
  show ?case using Cons.IH [of "hm_remove k m"] hm_len_remove_le [of k m] by simp
qed simp

lemma fold_remove_count: "hm_count P (fold hm_remove ks m) \<le> hm_count P m"
proof (induction ks arbitrary: m)
  case (Cons k ks)
  show ?case using Cons.IH [of "hm_remove k m"] hm_count_remove_le [of P k m] by simp
qed simp

lemma hm_count_le_length: "hm_count P m \<le> length m"
  by (simp add: hm_count_def)

text \<open>
  The contract every handle table of the server relies on: what a lookup returns after an
  insertion or a removal, and how the size moves. Quotas are bounds on that size.
\<close>

locale handle_table =
  fixes wf :: "'m \<Rightarrow> bool"
    and empty :: 'm
    and get :: "'m \<Rightarrow> 'k \<Rightarrow> 'v option"
    and ins :: "'k \<Rightarrow> 'v \<Rightarrow> 'm \<Rightarrow> 'm"
    and rem :: "'k \<Rightarrow> 'm \<Rightarrow> 'm"
    and len :: "'m \<Rightarrow> nat"
  assumes wf_empty: "wf empty"
    and wf_ins: "wf m \<Longrightarrow> wf (ins k v m)"
    and wf_rem: "wf m \<Longrightarrow> wf (rem k m)"
    and get_empty: "get empty k = None"
    and get_ins: "wf m \<Longrightarrow> get (ins k v m) k' = (if k' = k then Some v else get m k')"
    and get_rem: "wf m \<Longrightarrow> get (rem k m) k' = (if k' = k then None else get m k')"
    and len_empty: "len empty = 0"
    and len_ins: "wf m \<Longrightarrow> get m k = None \<Longrightarrow> len (ins k v m) = Suc (len m)"
    and len_rem: "wf m \<Longrightarrow> get m k \<noteq> None \<Longrightarrow> Suc (len (rem k m)) = len m"
begin

lemma ins_below_quota: "wf m \<Longrightarrow> get m k = None \<Longrightarrow> len m < q \<Longrightarrow> len (ins k v m) \<le> q"
  by (simp add: len_ins)

lemma rem_makes_room: "wf m \<Longrightarrow> get m k \<noteq> None \<Longrightarrow> len m \<le> q \<Longrightarrow> len (rem k m) < q"
  using len_rem [of m k] by simp

lemma ins_then_rem_size:
  assumes "wf m" and "get m k = None"
  shows "len (rem k (ins k v m)) = len m"
proof -
  have "Suc (len (rem k (ins k v m))) = len (ins k v m)"
    using assms by (intro len_rem) (simp_all add: wf_ins get_ins)
  with assms show ?thesis by (simp add: len_ins)
qed

lemma get_after_ins_rem:
  "wf m \<Longrightarrow> get m k = None \<Longrightarrow> get (rem k (ins k v m)) k' = get m k'"
  by (simp add: get_rem wf_ins get_ins)

end

interpretation hm: handle_table hm_wf "[]" map_of AList.update AList.delete length
proof unfold_locales
  fix m :: "('k \<times> 'v) list" and k v
  show "map_of m k = None \<Longrightarrow> length (AList.update k v m) = Suc (length m)"
    by (simp add: hm_len_insert map_of_eq_None_iff)
  show "hm_wf m \<Longrightarrow> map_of m k \<noteq> None \<Longrightarrow> Suc (length (AList.delete k m)) = length m"
    by (intro hm_len_remove) (auto simp: map_of_eq_None_iff)
qed simp_all

subsection \<open>Strings\<close>

text \<open>\<open>str::strip_prefix\<close>, \<open>str::starts_with\<close>, \<open>str::split_once\<close> and \<open>str::trim\<close>.\<close>

definition strip_prefix :: "string \<Rightarrow> string \<Rightarrow> string option" where
  "strip_prefix p s = (if take (length p) s = p then Some (drop (length p) s) else None)"

definition starts_with :: "string \<Rightarrow> string \<Rightarrow> bool" where
  "starts_with s p \<longleftrightarrow> take (length p) s = p"

definition split_once :: "char \<Rightarrow> string \<Rightarrow> (string \<times> string) option" where
  "split_once c s =
     (case dropWhile (\<lambda>x. x \<noteq> c) s of
        [] \<Rightarrow> None
      | _ # rest \<Rightarrow> Some (takeWhile (\<lambda>x. x \<noteq> c) s, rest))"

definition is_whitespace :: "char \<Rightarrow> bool" where
  "is_whitespace c \<longleftrightarrow>
     c \<in> {CHR 0x09, CHR 0x0A, CHR 0x0B, CHR 0x0C, CHR 0x0D, CHR '' ''}"

text \<open>\<open>s.trim().is_empty()\<close>: nothing but white space.\<close>

definition blank :: "string \<Rightarrow> bool" where
  "blank s \<longleftrightarrow> list_all is_whitespace s"

definition is_ascii_digit :: "char \<Rightarrow> bool" where
  "is_ascii_digit c \<longleftrightarrow> c \<in> set ''0123456789''"

definition is_lower_hex :: "char \<Rightarrow> bool" where
  "is_lower_hex c \<longleftrightarrow> is_ascii_digit c \<or> c \<in> set ''abcdef''"

abbreviation nul :: char where
  "nul \<equiv> CHR 0x00"

lemma strip_prefix_Some_iff: "strip_prefix p s = Some t \<longleftrightarrow> s = p @ t"
  by (auto simp: strip_prefix_def) (metis append_take_drop_id)

lemma starts_with_iff: "starts_with s p \<longleftrightarrow> (\<exists>t. s = p @ t)"
  by (auto simp: starts_with_def) (metis append_take_drop_id)

lemma split_once_append [string_simps]:
  assumes "c \<notin> set a"
  shows "split_once c (a @ c # b) = Some (a, b)"
proof -
  from assms have "dropWhile (\<lambda>x. x \<noteq> c) (a @ c # b) = c # b"
    and "takeWhile (\<lambda>x. x \<noteq> c) (a @ c # b) = a"
    by (induction a) auto
  then show ?thesis by (simp add: split_once_def)
qed

lemma split_once_None_iff: "split_once c s = None \<longleftrightarrow> c \<notin> set s"
proof -
  have "split_once c s = None \<longleftrightarrow> dropWhile (\<lambda>x. x \<noteq> c) s = []"
    unfolding split_once_def by (cases "dropWhile (\<lambda>x. x \<noteq> c) s") (simp_all only: list.case list.distinct option.distinct simp_thms)
  then show ?thesis by auto
qed

lemma split_once_absent [string_simps]: "c \<notin> set s \<Longrightarrow> split_once c s = None"
  by (simp add: split_once_None_iff)

subsection \<open>Integers\<close>

text \<open>
  \<open>usize\<close> on the 64-bit targets the service ships for: a \<open>nat\<close> below \<open>usize_limit\<close>.
  Saturating and checked operations are the only ones whose result depends on the width.
\<close>

definition usize_limit :: nat where
  "usize_limit = 2 ^ 64"

definition usize_max :: nat where
  "usize_max = 2 ^ 64 - 1"

definition i64_max :: nat where
  "i64_max = 2 ^ 63 - 1"

definition saturating_add :: "nat \<Rightarrow> nat \<Rightarrow> nat" where
  "saturating_add a b = min usize_max (a + b)"

abbreviation saturating_sub :: "nat \<Rightarrow> nat \<Rightarrow> nat" where
  "saturating_sub a b \<equiv> a - b"

definition checked_add :: "nat \<Rightarrow> nat \<Rightarrow> nat option" where
  "checked_add a b = (if a + b < usize_limit then Some (a + b) else None)"

definition checked_sub :: "nat \<Rightarrow> nat \<Rightarrow> nat option" where
  "checked_sub a b = (if b \<le> a then Some (a - b) else None)"

text \<open>\<open>i64::try_from\<close> of an unsigned value, and \<open>usize::try_from\<close> of an \<open>i64\<close>.\<close>

definition i64_try_from :: "nat \<Rightarrow> int option" where
  "i64_try_from n = (if n \<le> i64_max then Some (int n) else None)"

definition usize_try_from :: "int \<Rightarrow> nat option" where
  "usize_try_from i = (if 0 \<le> i then Some (nat i) else None)"

definition u32_try_from :: "int \<Rightarrow> nat option" where
  "u32_try_from i = (if 0 \<le> i \<and> i < 2 ^ 32 then Some (nat i) else None)"

definition i64_checked_add :: "int \<Rightarrow> int \<Rightarrow> int option" where
  "i64_checked_add a b =
     (if - (2 ^ 63) \<le> a + b \<and> a + b < 2 ^ 63 then Some (a + b) else None)"

lemma checked_add_Some_iff: "checked_add a b = Some c \<longleftrightarrow> c = a + b \<and> a + b < usize_limit"
  by (auto simp: checked_add_def)

lemma checked_sub_Some_iff: "checked_sub a b = Some c \<longleftrightarrow> b \<le> a \<and> c = a - b"
  by (auto simp: checked_sub_def)

lemma saturating_add_le: "saturating_add a b \<le> a + b"
  by (simp add: saturating_add_def)

lemma saturating_add_usize: "saturating_add a b < usize_limit"
  by (simp add: saturating_add_def usize_max_def usize_limit_def)

subsection \<open>Reachability\<close>

text \<open>
  The states a step relation reaches from its initial states, and the contract of an
  inductive invariant. Every state machine of the development interprets the locale on its
  own step relation.
\<close>

inductive reaches :: "('s \<Rightarrow> bool) \<Rightarrow> ('s \<Rightarrow> 's \<Rightarrow> bool) \<Rightarrow> 's \<Rightarrow> bool"
  for init :: "'s \<Rightarrow> bool" and step :: "'s \<Rightarrow> 's \<Rightarrow> bool" where
  reaches_init: "init s \<Longrightarrow> reaches init step s"
| reaches_step: "reaches init step s \<Longrightarrow> step s t \<Longrightarrow> reaches init step t"

lemma reaches_rtranclp: "reaches init step s \<Longrightarrow> step\<^sup>*\<^sup>* s t \<Longrightarrow> reaches init step t"
  by (rotate_tac, induction rule: rtranclp_induct) (auto intro: reaches_step)

locale inductive_invariant =
  fixes init :: "'s \<Rightarrow> bool"
    and step :: "'s \<Rightarrow> 's \<Rightarrow> bool"
    and inv :: "'s \<Rightarrow> bool"
  assumes inv_init: "init s \<Longrightarrow> inv s"
    and inv_step: "inv s \<Longrightarrow> step s t \<Longrightarrow> inv t"
begin

lemma inv_reaches: "reaches init step s \<Longrightarrow> inv s"
  by (induction rule: reaches.induct) (auto intro: inv_init inv_step)

lemma inv_run: "step\<^sup>*\<^sup>* s t \<Longrightarrow> inv s \<Longrightarrow> inv t"
  by (induction rule: rtranclp_induct) (auto intro: inv_step)

end

end
