(* ===== verification/Adbc.thy ===== *)
theory Adbc
  imports Prelude
begin

text \<open>
  The data the whole service speaks in: ADBC statuses, errors and option values, and the
  wire forms of errors and of operator-configured options
  (\<open>crates/grainlift-protocol/src/lib.rs\<close>). Base64 is a parameter: the encoder and the
  decoder are arguments of the definitions that use them.
\<close>

subsection \<open>Errors\<close>

text \<open>
  \<open>Status\<close>, with exactly the constructors the source matches on. \<open>Error\<close> of ADBC is a
  plain struct; the constructor the sources use fills in a zero vendor code, a zero SQLSTATE
  and no details.
\<close>

datatype status =
    Ok | Unknown | NotImplemented | NotFound | AlreadyExists | InvalidArguments
  | InvalidState | InvalidData | Integrity | Internal | IO | Cancelled | Timeout
  | Unauthenticated | Unauthorized

datatype protocol_error =
    MissingColumn string
  | WrongType string string
  | RowCount nat
  | Null string
  | OptionsJson string
  | Arrow string
  | InvalidSchemaMessage
  | InvalidWire string

text \<open>\<open>SocketAddr\<close>, and \<open>is_loopback\<close> of its address: \<open>127.0.0.0/8\<close> or \<open>::1\<close>.\<close>

datatype ip_addr = V4 u8 u8 u8 u8 | V6 "128 word"

datatype socket_addr = SocketAddr (ip: ip_addr) (port: "16 word")

fun is_loopback :: "ip_addr \<Rightarrow> bool" where
  "is_loopback (V4 a b c d) \<longleftrightarrow> a = 127"
| "is_loopback (V6 w) \<longleftrightarrow> w = 1"

text \<open>
  A message is kept as its format string with the interpolated arguments: literal text, a
  value shown with \<open>{}\<close>, a value shown with \<open>{:?}\<close>, a number, a duration, an address, or the
  rendered text of a protocol error.
\<close>

datatype frag =
    Lit string | Str string | Dbg string | Num int | Dur nat | Addr socket_addr
  | Proto protocol_error

type_synonym message = "frag list"

record adbc_error =
  message :: message
  status :: status
  vendor_code :: "32 word"
  sqlstate :: "i8 list"
  details :: "(string \<times> bytes) list option"

definition with_message_and_status :: "message \<Rightarrow> status \<Rightarrow> adbc_error" where
  "with_message_and_status m s =
     \<lparr>message = m, status = s, vendor_code = 0, sqlstate = replicate 5 0, details = None\<rparr>"

lemma with_message_and_status_simps [simp]:
  "status (with_message_and_status m s) = s"
  "message (with_message_and_status m s) = m"
  "sqlstate (with_message_and_status m s) = replicate 5 0"
  "details (with_message_and_status m s) = None"
  by (simp_all add: with_message_and_status_def)

text \<open>The status names of the wire.\<close>

fun status_name :: "status \<Rightarrow> string" where
  "status_name Ok = ''ok''"
| "status_name Unknown = ''unknown''"
| "status_name NotImplemented = ''not_implemented''"
| "status_name NotFound = ''not_found''"
| "status_name AlreadyExists = ''already_exists''"
| "status_name InvalidArguments = ''invalid_arguments''"
| "status_name InvalidState = ''invalid_state''"
| "status_name InvalidData = ''invalid_data''"
| "status_name Integrity = ''integrity''"
| "status_name Internal = ''internal''"
| "status_name IO = ''io''"
| "status_name Cancelled = ''cancelled''"
| "status_name Timeout = ''timeout''"
| "status_name Unauthenticated = ''unauthenticated''"
| "status_name Unauthorized = ''unauthorized''"

definition status_from_name :: "string \<Rightarrow> status" where
  "status_from_name name =
     (if name = ''ok'' then Ok
      else if name = ''not_implemented'' then NotImplemented
      else if name = ''not_found'' then NotFound
      else if name = ''already_exists'' then AlreadyExists
      else if name = ''invalid_arguments'' then InvalidArguments
      else if name = ''invalid_state'' then InvalidState
      else if name = ''invalid_data'' then InvalidData
      else if name = ''integrity'' then Integrity
      else if name = ''internal'' then Internal
      else if name = ''io'' then IO
      else if name = ''cancelled'' then Cancelled
      else if name = ''timeout'' then Timeout
      else if name = ''unauthenticated'' then Unauthenticated
      else if name = ''unauthorized'' then Unauthorized
      else Unknown)"

lemma status_from_name_name: "status_from_name (status_name s) = s"
  by (cases s) (simp_all add: status_from_name_def)

text \<open>A name is either the name of its status, or it is an unknown name.\<close>

lemma status_name_from_name:
  "status_from_name n \<noteq> Unknown \<Longrightarrow> status_name (status_from_name n) = n"
  by (auto simp: status_from_name_def split: if_splits)

subsection \<open>Errors on the wire\<close>

record wire_adbc_error =
  w_status :: string
  w_message :: message
  w_vendor_code :: "32 word"
  w_sqlstate :: "i8 list"
  w_details :: "(string \<times> string) list"

text \<open>
  \<open>From<&AdbcError> for WireAdbcError\<close>. Reinterpreting a C \<open>char\<close> as an \<open>i8\<close> keeps its
  bits, so it is the identity on the 8-bit word.
\<close>

definition wire_error_from :: "(bytes \<Rightarrow> string) \<Rightarrow> adbc_error \<Rightarrow> wire_adbc_error" where
  "wire_error_from b64_encode e =
     \<lparr>w_status = status_name (status e),
      w_message = message e,
      w_vendor_code = vendor_code e,
      w_sqlstate = sqlstate e,
      w_details =
        map (\<lambda>(key, value). (key, b64_encode value))
          (case details e of None \<Rightarrow> [] | Some ds \<Rightarrow> ds)\<rparr>"

definition try_into_adbc ::
  "(string \<Rightarrow> bytes option) \<Rightarrow> wire_adbc_error \<Rightarrow> (protocol_error, adbc_error) result" where
  "try_into_adbc b64_decode w =
     (if length (w_sqlstate w) \<noteq> 5
         \<or> list_ex (\<lambda>byte. sint byte < 0) (w_sqlstate w)
         \<or> (status_from_name (w_status w) = Unknown \<and> w_status w \<noteq> ''unknown'')
      then Inl (InvalidWire ''invalid ADBC error status or SQLSTATE'')
      else
        try_bind
          (collect_results
             (\<lambda>(key, value).
                try_bind
                  (ok_or (InvalidWire ''invalid ADBC error detail encoding'') (b64_decode value))
                  (\<lambda>v. Inr (key, v)))
             (w_details w))
          (\<lambda>ds. Inr
             \<lparr>message = w_message w,
              status = status_from_name (w_status w),
              vendor_code = w_vendor_code w,
              sqlstate = w_sqlstate w,
              details = (if ds \<noteq> [] then Some ds else None)\<rparr>))"

definition wire_error_into_adbc ::
  "(string \<Rightarrow> bytes option) \<Rightarrow> wire_adbc_error \<Rightarrow> adbc_error" where
  "wire_error_into_adbc b64_decode w =
     (case try_into_adbc b64_decode w of
        Inr e \<Rightarrow> e
      | Inl _ \<Rightarrow> with_message_and_status [Lit ''Malformed remote ADBC error''] InvalidData)"

text \<open>What the wire keeps of an error: an empty detail list and no detail list coincide.\<close>

definition normal_details :: "adbc_error \<Rightarrow> adbc_error" where
  "normal_details e = e\<lparr>details := (if details e = Some [] then None else details e)\<rparr>"

definition ascii_sqlstate :: "i8 list \<Rightarrow> bool" where
  "ascii_sqlstate st \<longleftrightarrow> length st = 5 \<and> list_all (\<lambda>byte. 0 \<le> sint byte) st"

lemma ascii_sqlstate_iff:
  "ascii_sqlstate st \<longleftrightarrow> \<not> (length st \<noteq> 5 \<or> list_ex (\<lambda>byte. sint byte < 0) st)"
  by (auto simp: ascii_sqlstate_def list_all_iff list_ex_iff not_less)

lemma ascii_sqlstate_zero: "ascii_sqlstate (replicate 5 0)"
  by (simp add: ascii_sqlstate_def list_all_iff)

lemma status_name_not_rejected:
  "\<not> (status_from_name (status_name s) = Unknown \<and> status_name s \<noteq> ''unknown'')"
  by (cases s) (simp_all add: status_from_name_def)

lemma details_round_trip:
  assumes "\<And>b. dec (enc b) = Some b"
  shows "collect_results
      (\<lambda>(key, value). try_bind (ok_or err (dec value)) (\<lambda>v. Inr (key, v)))
      (map (\<lambda>(key, value). (key, enc value)) ds) = Inr ds"
  by (induction ds) (auto simp: assms)

lemma try_into_adbc_from:
  assumes "\<And>b. dec (enc b) = Some b"
  shows "try_into_adbc dec (wire_error_from enc e) =
    (if ascii_sqlstate (sqlstate e) then Inr (normal_details e)
     else Inl (InvalidWire ''invalid ADBC error status or SQLSTATE''))"
proof (cases "ascii_sqlstate (sqlstate e)")
  case True
  then have "\<not> (length (sqlstate e) \<noteq> 5 \<or> list_ex (\<lambda>byte. sint byte < 0) (sqlstate e))"
    by (simp add: ascii_sqlstate_iff)
  with True show ?thesis
    using status_name_not_rejected [of "status e"]
    by (cases "details e")
      (auto simp: try_into_adbc_def wire_error_from_def normal_details_def
        status_from_name_name details_round_trip [of dec enc, OF assms])
next
  case False
  then show ?thesis
    by (auto simp: try_into_adbc_def wire_error_from_def ascii_sqlstate_iff)
qed

subsection \<open>Option values\<close>

text \<open>
  \<open>OptionValue\<close> of ADBC is marked non-exhaustive; \<open>OtherValue\<close> stands for every variant the
  sources do not name. A double is its 64 bits.
\<close>

datatype option_value =
    StringValue string
  | BytesValue bytes
  | IntValue int
  | DoubleValue "64 word"
  | OtherValue nat

text \<open>Operator-configured options: bytes are base64 text.\<close>

datatype json_option_value =
    JsonString string
  | JsonBytes string
  | JsonInt int
  | JsonDouble "64 word"

record wire_option =
  wo_key :: string
  wo_value :: json_option_value

fun json_into_adbc ::
  "(string \<Rightarrow> bytes option) \<Rightarrow> json_option_value \<Rightarrow> (protocol_error, option_value) result" where
  "json_into_adbc b64_decode (JsonString v) = Inr (StringValue v)"
| "json_into_adbc b64_decode (JsonBytes v) =
     try_bind (ok_or (OptionsJson ''invalid base64'') (b64_decode v)) (\<lambda>b. Inr (BytesValue b))"
| "json_into_adbc b64_decode (JsonInt v) = Inr (IntValue v)"
| "json_into_adbc b64_decode (JsonDouble v) = Inr (DoubleValue v)"

text \<open>\<open>From<&OptionValue> for JsonOptionValue\<close>: \<open>None\<close> is the \<open>unreachable!\<close> panic.\<close>

fun json_from_adbc :: "(bytes \<Rightarrow> string) \<Rightarrow> option_value \<Rightarrow> json_option_value option" where
  "json_from_adbc b64_encode (StringValue v) = Some (JsonString v)"
| "json_from_adbc b64_encode (BytesValue v) = Some (JsonBytes (b64_encode v))"
| "json_from_adbc b64_encode (IntValue v) = Some (JsonInt v)"
| "json_from_adbc b64_encode (DoubleValue v) = Some (JsonDouble v)"
| "json_from_adbc b64_encode (OtherValue n) = None"

lemma json_option_round_trip:
  assumes "\<And>b. dec (enc b) = Some b" and "json_from_adbc enc v = Some j"
  shows "json_into_adbc dec j = Inr v"
  using assms by (cases v) auto

subsection \<open>Properties\<close>

text \<open>
  C31: what becomes of a driver's error on its way to the client. If base64 decodes what it
  encoded, an error whose SQLSTATE is five ASCII octets arrives with its message, status, vendor
  code, SQLSTATE and details intact, an empty detail list counting as none; an error with any
  other SQLSTATE arrives as the generic malformed-error report, so its status and message are
  lost.
\<close>

theorem errors_cross_the_wire:
  assumes "\<And>b. dec (enc b) = Some b"
  shows "wire_error_into_adbc dec (wire_error_from enc e) =
    (if ascii_sqlstate (sqlstate e) then normal_details e
     else with_message_and_status [Lit ''Malformed remote ADBC error''] InvalidData)"
  by (simp add: wire_error_into_adbc_def try_into_adbc_from [OF assms])

theorem errors_cross_the_wire_witness:
  "let enc = map (\<lambda>b. char_of (unat b)); dec = (\<lambda>s. Some (map (\<lambda>c. of_nat (of_char c)) s));
       e = with_message_and_status [Lit ''busy''] Timeout
   in wire_error_into_adbc dec (wire_error_from enc e) = e
      \<and> status (wire_error_into_adbc dec (wire_error_from enc (e\<lparr>sqlstate := [255, 0, 0, 0, 0]\<rparr>)))
        = InvalidData"
proof -
  let ?enc = "map (\<lambda>b :: u8. char_of (unat b) :: char)"
  let ?dec = "\<lambda>s. Some (map (\<lambda>c :: char. of_nat (of_char c) :: u8) s)"
  let ?e = "with_message_and_status [Lit ''busy''] Timeout"
  have byte: "of_nat (unat b mod 256) = b" for b :: u8
  proof -
    have "unat b < 256"
      using unsigned_less [of b, where ?'a = nat] by simp
    then show ?thesis
      by simp
  qed
  have law: "?dec (?enc b) = Some b" for b
    by (induction b) (simp_all add: byte)
  have "\<not> ascii_sqlstate [255, 0, 0, 0, 0]"
    by (simp add: ascii_sqlstate_def)
  with errors_cross_the_wire [of ?dec ?enc ?e, OF law]
    errors_cross_the_wire [of ?dec ?enc "?e\<lparr>sqlstate := [255, 0, 0, 0, 0]\<rparr>", OF law]
  show ?thesis
    using ascii_sqlstate_zero by (simp add: Let_def normal_details_def)
qed

text \<open>The decoder takes the status name \<open>ok\<close>, which is not a status of an error.\<close>

lemma ok_status_decodes:
  "ascii_sqlstate (w_sqlstate w) \<Longrightarrow> w_status w = ''ok'' \<Longrightarrow> w_details w = [] \<Longrightarrow>
   \<exists>e. try_into_adbc dec w = Inr e \<and> status e = Ok"
  by (auto simp: try_into_adbc_def ascii_sqlstate_iff status_from_name_def)

end
