(* ===== verification/Config.thy ===== *)
theory Config
  imports Adbc
begin

text \<open>
  The configuration of the server (\<open>crates/grainlift-server/src/config.rs\<close>): its records, the
  validation that runs before anything is served, the client option policy of a target, and
  the quota and authorization settings it hands to the session manager
  (\<open>SessionLimits\<close> and \<open>TargetAuthorizer\<close> of \<open>session.rs\<close>).
\<close>

subsection \<open>Records\<close>

record session_limits =
  max_sessions :: nat
  max_sessions_per_principal :: nat
  max_statements_per_session :: nat
  max_results_per_session :: nat

record tcp_tls_config =
  server_certificate_chain :: string
  server_private_key :: string
  client_ca :: string
  trust_domains :: "string list"
  handshake_timeout_seconds :: nat

record tcp_config =
  tcp_listen :: socket_addr
  allow_insecure :: bool
  tls :: "tcp_tls_config option"

record iroh_config =
  iroh_issuer :: string
  secret_key_file :: string
  endpoint_info_file :: "string option"
  iroh_principals :: "(string, string) hash_map"
  disable_relays :: bool
  max_active_streams :: nat
  max_active_streams_per_connection :: nat

record server_config =
  listen :: socket_addr
  session_ttl_seconds :: nat
  session_reap_interval_seconds :: nat
  require_authentication :: bool
  allow_insecure_remote :: bool
  request_timeout_seconds :: nat
  driver_operation_timeout_seconds :: nat
  shutdown_grace_seconds :: nat
  max_request_body_bytes :: nat
  max_bind_bytes :: nat
  sc_max_sessions :: nat
  sc_max_sessions_per_principal :: nat
  sc_max_statements_per_session :: nat
  sc_max_results_per_session :: nat

record jwt_auth_config =
  jwt_issuer :: string
  audience :: string
  jwks_url :: string
  principal_claim :: string
  refresh_interval_seconds :: nat
  leeway_seconds :: nat

record auth_config =
  static_bearer_tokens :: "(string, string) hash_map"
  jwt :: "jwt_auth_config option"
  target_permissions :: "(string, string list) hash_map"

record target_config =
  driver :: string
  entrypoint :: "string option"
  database_options :: "wire_option list"
  connection_options :: "wire_option list"
  allow_client_database_options :: bool
  allow_client_connection_options :: bool
  allowed_client_database_options :: "string list"
  allowed_client_connection_options :: "string list"

record config =
  server :: server_config
  auth :: auth_config
  tcp :: "tcp_config option"
  iroh :: "iroh_config option"
  targets :: "(string, target_config) hash_map"

subsection \<open>Defaults and constants\<close>

definition max_bind_stream_bytes :: nat where
  "max_bind_stream_bytes = 64 * 1024 * 1024"

definition bind_envelope_headroom_bytes :: nat where
  "bind_envelope_headroom_bytes = 1024 * 1024"

definition max_configurable_bind_bytes :: nat where
  "max_configurable_bind_bytes = i64_max"

definition default_session_limits :: session_limits where
  "default_session_limits =
     \<lparr>max_sessions = 1024, max_sessions_per_principal = 32, max_statements_per_session = 64,
      max_results_per_session = 64\<rparr>"

definition default_server_config :: server_config where
  "default_server_config =
     \<lparr>listen = SocketAddr (V4 127 0 0 1) 8080, session_ttl_seconds = 3600,
      session_reap_interval_seconds = 30, require_authentication = True,
      allow_insecure_remote = False, request_timeout_seconds = 300,
      driver_operation_timeout_seconds = 270, shutdown_grace_seconds = 30,
      max_request_body_bytes = max_bind_stream_bytes + bind_envelope_headroom_bytes,
      max_bind_bytes = max_bind_stream_bytes, sc_max_sessions = 1024,
      sc_max_sessions_per_principal = 32, sc_max_statements_per_session = 64,
      sc_max_results_per_session = 64\<rparr>"

definition session_limits_of :: "server_config \<Rightarrow> session_limits" where
  "session_limits_of s =
     \<lparr>max_sessions = sc_max_sessions s,
      max_sessions_per_principal = sc_max_sessions_per_principal s,
      max_statements_per_session = sc_max_statements_per_session s,
      max_results_per_session = sc_max_results_per_session s\<rparr>"

definition limits_validate :: "session_limits \<Rightarrow> (message, unit) result" where
  "limits_validate l =
     (if max_sessions l = 0 \<or> max_sessions_per_principal l = 0
         \<or> max_statements_per_session l = 0 \<or> max_results_per_session l = 0
      then Inl [Lit ''all session, statement, and result limits must be positive'']
      else if max_sessions_per_principal l > max_sessions l
      then Inl [Lit ''max_sessions_per_principal must not exceed max_sessions'']
      else Inr ())"

subsection \<open>Client option policy\<close>

record client_option_policy =
  allow_all :: bool
  allowed :: "string set"
  protected :: "string set"

definition policy_new :: "bool \<Rightarrow> string list \<Rightarrow> wire_option list \<Rightarrow> client_option_policy" where
  "policy_new all allow configured =
     \<lparr>allow_all = all, allowed = set allow, protected = set (map wo_key configured)\<rparr>"

definition permits :: "client_option_policy \<Rightarrow> string \<Rightarrow> bool" where
  "permits p key \<longleftrightarrow> key \<notin> protected p \<and> (allow_all p \<or> key \<in> allowed p)"

definition is_protected :: "client_option_policy \<Rightarrow> string \<Rightarrow> bool" where
  "is_protected p key \<longleftrightarrow> key \<in> protected p"

definition database_option_policy :: "target_config \<Rightarrow> client_option_policy" where
  "database_option_policy t =
     policy_new (allow_client_database_options t) (allowed_client_database_options t)
       (database_options t)"

definition connection_option_policy :: "target_config \<Rightarrow> client_option_policy" where
  "connection_option_policy t =
     policy_new (allow_client_connection_options t) (allowed_client_connection_options t)
       (connection_options t)"

subsection \<open>Target authorizer\<close>

type_synonym target_authorizer = "(string, string set) hash_map option"

definition authorizer_new :: "(string, string list) hash_map \<Rightarrow> target_authorizer" where
  "authorizer_new permissions =
     (if permissions = [] then None
      else Some (hm_from_list (map (\<lambda>(p, ts). (p, set ts)) permissions)))"

definition authorizer_allows :: "target_authorizer \<Rightarrow> string \<Rightarrow> string \<Rightarrow> bool" where
  "authorizer_allows a who target =
     (case a of
        None \<Rightarrow> True
      | Some permissions \<Rightarrow>
          (let name = (case split_once nul who of None \<Rightarrow> who | Some (_, n) \<Rightarrow> n);
               entry = (case hm_get permissions name of
                          Some ts \<Rightarrow> Some ts
                        | None \<Rightarrow> hm_get permissions who)
           in case entry of None \<Rightarrow> False | Some ts \<Rightarrow> ''*'' \<in> ts \<or> target \<in> ts))"

definition target_authorizer_of :: "config \<Rightarrow> target_authorizer" where
  "target_authorizer_of c = authorizer_new (target_permissions (auth c))"

subsection \<open>Validation\<close>

definition validate_options :: "string \<Rightarrow> string \<Rightarrow> wire_option list \<Rightarrow> (message, unit) result" where
  "validate_options target kind options =
     check_fresh
       (\<lambda>keys key.
          try_bind
            (reject_if (blank key)
               [Lit ''target '', Dbg target, Lit '' has a blank '', Str kind, Lit '' option key''])
            (\<lambda>_. reject_if (key \<in> keys)
               [Lit ''target '', Dbg target, Lit '' repeats '', Str kind, Lit '' option '', Dbg key]))
       {} (map wo_key options)"

definition validate_option_policy ::
  "string \<Rightarrow> string \<Rightarrow> bool \<Rightarrow> string list \<Rightarrow> wire_option list \<Rightarrow> (message, unit) result" where
  "validate_option_policy target kind all allow configured =
     try_bind
       (reject_if (all \<and> allow \<noteq> [])
          [Lit ''target '', Dbg target, Lit '' enables all client '', Str kind,
           Lit '' options and also defines an allowlist''])
       (\<lambda>_. check_fresh
          (\<lambda>keys key.
             try_bind
               (reject_if (blank key)
                  [Lit ''target '', Dbg target, Lit '' has a blank allowed client '', Str kind,
                   Lit '' option''])
               (\<lambda>_. try_bind
                  (reject_if (key \<in> keys)
                     [Lit ''target '', Dbg target, Lit '' repeats allowed client '', Str kind,
                      Lit '' option '', Dbg key])
                  (\<lambda>_. reject_if (key \<in> set (map wo_key configured))
                     [Lit ''target '', Dbg target, Lit '' marks server-controlled '', Str kind,
                      Lit '' option '', Dbg key, Lit '' as client-settable''])))
          {} allow)"

text \<open>\<open>Config::validate\<close>, section by section in the order of the source.\<close>

definition validate_server :: "server_config \<Rightarrow> (message, unit) result" where
  "validate_server s =
     (if session_ttl_seconds s = 0
      then Inl [Lit ''server.session_ttl_seconds must be positive'']
      else if session_reap_interval_seconds s = 0
      then Inl [Lit ''server.session_reap_interval_seconds must be positive'']
      else if request_timeout_seconds s = 0
      then Inl [Lit ''server.request_timeout_seconds must be positive'']
      else if driver_operation_timeout_seconds s = 0
      then Inl [Lit ''server.driver_operation_timeout_seconds must be positive'']
      else if shutdown_grace_seconds s = 0
      then Inl [Lit ''server.shutdown_grace_seconds must be positive'']
      else if max_request_body_bytes s = 0
      then Inl [Lit ''server.max_request_body_bytes must be positive'']
      else if max_bind_bytes s = 0
      then Inl [Lit ''server.max_bind_bytes must be positive'']
      else if max_bind_bytes s > max_configurable_bind_bytes
      then Inl [Lit ''server.max_bind_bytes must not exceed '', Num (int max_configurable_bind_bytes)]
      else
        try_bind (limits_validate (session_limits_of s))
          (\<lambda>_. reject_if (\<not> is_loopback (ip (listen s)) \<and> \<not> allow_insecure_remote s)
             [Lit ''refusing plaintext HTTP listener '', Addr (listen s),
              Lit '' outside loopback; terminate TLS in front of a loopback listener or set server.allow_insecure_remote=true to acknowledge the risk'']))"

definition validate_tcp :: "bool \<Rightarrow> tcp_config \<Rightarrow> (message, unit) result" where
  "validate_tcp require_auth t =
     (if tls t = None \<and> \<not> is_loopback (ip (tcp_listen t)) \<and> \<not> allow_insecure t
      then Inl [Lit ''refusing plaintext TCP listener '', Addr (tcp_listen t),
        Lit '' outside loopback; configure tcp.tls or set tcp.allow_insecure=true to acknowledge the risk'']
      else if require_auth \<and> tls t = None
      then Inl [Lit ''authenticated raw TCP requires tcp.tls with mandatory client certificates'']
      else
        (case tls t of
           None \<Rightarrow> Inr ()
         | Some l \<Rightarrow>
             reject_if (trust_domains l = [] \<or> handshake_timeout_seconds l = 0)
               [Lit ''TCP mTLS requires at least one trust domain and a positive handshake timeout'']))"

definition endpoint_id_ok :: "string \<Rightarrow> bool" where
  "endpoint_id_ok endpoint \<longleftrightarrow> length endpoint = 64 \<and> list_all is_lower_hex endpoint"

definition validate_iroh :: "bool \<Rightarrow> iroh_config \<Rightarrow> (message, unit) result" where
  "validate_iroh require_auth i =
     (if blank (iroh_issuer i) then Inl [Lit ''Iroh issuer must not be blank'']
      else if require_auth \<and> iroh_principals i = []
      then Inl [Lit ''authenticated Iroh requires at least one endpoint-to-principal mapping'']
      else if max_active_streams i = 0 \<or> max_active_streams_per_connection i = 0
              \<or> max_active_streams_per_connection i > max_active_streams i
      then Inl [Lit ''Iroh stream limits must be positive and the per-connection limit must not exceed the global limit'']
      else
        check_all
          (\<lambda>(endpoint, principal).
             reject_if (\<not> endpoint_id_ok endpoint \<or> blank principal)
               [Lit ''Iroh principal keys must be 64 lowercase hex endpoint IDs and principals must not be blank''])
          (iroh_principals i))"

definition validate_jwt :: "jwt_auth_config \<Rightarrow> (message, unit) result" where
  "validate_jwt j =
     (if blank (jwt_issuer j) \<or> blank (audience j) \<or> blank (jwks_url j) \<or> blank (principal_claim j)
      then Inl [Lit ''JWT issuer, audience, JWKS URL, and principal claim must not be blank'']
      else if \<not> starts_with (jwt_issuer j) ''https://'' \<or> \<not> starts_with (jwks_url j) ''https://''
      then Inl [Lit ''JWT issuer and JWKS URL must use HTTPS'']
      else reject_if (refresh_interval_seconds j = 0)
        [Lit ''JWT refresh interval must be positive''])"

definition validate_auth :: "bool \<Rightarrow> auth_config \<Rightarrow> (message, unit) result" where
  "validate_auth require_auth a =
     (if static_bearer_tokens a \<noteq> [] \<and> jwt a \<noteq> None
      then Inl [Lit ''configure either static bearer tokens or JWT authentication, not both'']
      else if require_auth \<and> static_bearer_tokens a = [] \<and> jwt a = None
      then Inl [Lit ''authentication is required but no static bearer tokens or JWT provider are configured'']
      else
        try_bind
          (check_all
             (\<lambda>(token, principal).
                reject_if (blank token \<or> blank principal)
                  [Lit ''static bearer tokens and principals must not be blank''])
             (static_bearer_tokens a))
          (\<lambda>_. case jwt a of None \<Rightarrow> Inr () | Some j \<Rightarrow> validate_jwt j))"

definition validate_permissions ::
  "string set \<Rightarrow> (string, string list) hash_map \<Rightarrow> (message, unit) result" where
  "validate_permissions target_names permissions =
     check_all
       (\<lambda>(principal, ts).
          if blank principal then Inl [Lit ''target permission principals must not be blank'']
          else if ts = []
          then Inl [Lit ''target permission for '', Dbg principal, Lit '' must not be empty'']
          else
            check_all
              (\<lambda>target.
                 reject_if (target \<noteq> ''*'' \<and> target \<notin> target_names)
                   [Lit ''target permission for '', Dbg principal, Lit '' references unknown target '',
                    Dbg target])
              ts)
       permissions"

definition validate_target :: "string \<Rightarrow> target_config \<Rightarrow> (message, unit) result" where
  "validate_target name t =
     (if blank name \<or> blank (driver t)
      then Inl [Lit ''target names and driver names must not be blank'']
      else
        try_bind (validate_options name ''database'' (database_options t)) (\<lambda>_.
        try_bind (validate_options name ''connection'' (connection_options t)) (\<lambda>_.
        try_bind
          (validate_option_policy name ''database'' (allow_client_database_options t)
             (allowed_client_database_options t) (database_options t)) (\<lambda>_.
        validate_option_policy name ''connection'' (allow_client_connection_options t)
          (allowed_client_connection_options t) (connection_options t)))))"

definition config_validate :: "config \<Rightarrow> (message, unit) result" where
  "config_validate c =
     (let require_auth = require_authentication (server c) in
      try_bind
        (reject_if (targets c = []) [Lit ''configuration must define at least one target'']) (\<lambda>_.
      try_bind (validate_server (server c)) (\<lambda>_.
      try_bind (case tcp c of None \<Rightarrow> Inr () | Some t \<Rightarrow> validate_tcp require_auth t) (\<lambda>_.
      try_bind (case iroh c of None \<Rightarrow> Inr () | Some i \<Rightarrow> validate_iroh require_auth i) (\<lambda>_.
      try_bind (validate_auth require_auth (auth c)) (\<lambda>_.
      try_bind
        (validate_permissions (set (hm_keys (targets c))) (target_permissions (auth c))) (\<lambda>_.
      check_all (\<lambda>(name, t). validate_target name t) (targets c))))))))"

subsection \<open>What each section guarantees\<close>

lemma validate_options_ok_iff:
  "validate_options target kind options = Inr u \<longleftrightarrow>
     distinct (map wo_key options) \<and> (\<forall>o' \<in> set options. \<not> blank (wo_key o'))"
  unfolding validate_options_def
  by (subst check_fresh_ok_iff [where P = "\<lambda>k. \<not> blank k"])
    (auto simp: try_bind_Inr_iff reject_if_Inr_iff)

lemma validate_option_policy_ok_iff:
  "validate_option_policy target kind all allow configured = Inr u \<longleftrightarrow>
     (all \<longrightarrow> allow = []) \<and> distinct allow
     \<and> (\<forall>k \<in> set allow. \<not> blank k \<and> k \<notin> wo_key ` set configured)"
  unfolding validate_option_policy_def try_bind_Inr_iff reject_if_Inr_iff
  by (subst check_fresh_ok_iff [where P = "\<lambda>k. \<not> blank k \<and> k \<notin> wo_key ` set configured"])
    (auto simp: try_bind_Inr_iff reject_if_Inr_iff)

lemma limits_validate_ok_iff:
  "limits_validate l = Inr u \<longleftrightarrow>
     0 < max_sessions_per_principal l \<and> max_sessions_per_principal l \<le> max_sessions l
     \<and> 0 < max_statements_per_session l \<and> 0 < max_results_per_session l"
  by (auto simp: limits_validate_def)

lemma validate_server_ok:
  assumes "validate_server s = Inr u"
  shows "0 < session_ttl_seconds s" "0 < session_reap_interval_seconds s"
    "0 < driver_operation_timeout_seconds s"
    "0 < max_bind_bytes s" "max_bind_bytes s \<le> max_configurable_bind_bytes"
    "limits_validate (session_limits_of s) = Inr ()"
    "is_loopback (ip (listen s)) \<or> allow_insecure_remote s"
  using assms
  by (auto simp: validate_server_def try_bind_Inr_iff reject_if_Inr_iff split: if_splits)

lemma validate_tcp_ok:
  assumes "validate_tcp ra t = Inr u"
  shows "tls t = None \<Longrightarrow> \<not> ra \<and> (is_loopback (ip (tcp_listen t)) \<or> allow_insecure t)"
    and "tls t = Some l \<Longrightarrow> trust_domains l \<noteq> [] \<and> 0 < handshake_timeout_seconds l"
  using assms
  by (auto simp: validate_tcp_def reject_if_Inr_iff split: if_splits option.splits)

lemma validate_iroh_ok:
  assumes "validate_iroh ra i = Inr u"
  shows "ra \<Longrightarrow> iroh_principals i \<noteq> []"
    "\<forall>(e, p) \<in> set (iroh_principals i). endpoint_id_ok e \<and> \<not> blank p"
    "0 < max_active_streams_per_connection i"
    "max_active_streams_per_connection i \<le> max_active_streams i"
  using assms
  by (auto simp: validate_iroh_def check_all_ok_iff reject_if_Inr_iff split: if_splits)

lemma validate_auth_ok:
  assumes "validate_auth ra a = Inr u"
  shows "static_bearer_tokens a = [] \<or> jwt a = None"
    "ra \<Longrightarrow> static_bearer_tokens a \<noteq> [] \<or> jwt a \<noteq> None"
    "\<forall>(t, p) \<in> set (static_bearer_tokens a). \<not> blank t \<and> \<not> blank p"
  using assms
  by (auto simp: validate_auth_def check_all_ok_iff try_bind_Inr_iff reject_if_Inr_iff
      split: if_splits)

lemma validate_permissions_ok:
  assumes "validate_permissions names perms = Inr u" and "(p, ts) \<in> set perms" and "t \<in> set ts"
  shows "t = ''*'' \<or> t \<in> names"
  using assms
  by (fastforce simp: validate_permissions_def check_all_ok_iff reject_if_Inr_iff split: if_splits)

lemma validate_target_ok:
  assumes "validate_target name t = Inr u"
  shows "validate_options name ''database'' (database_options t) = Inr ()"
    "validate_options name ''connection'' (connection_options t) = Inr ()"
    "validate_option_policy name ''database'' (allow_client_database_options t)
       (allowed_client_database_options t) (database_options t) = Inr ()"
    "validate_option_policy name ''connection'' (allow_client_connection_options t)
       (allowed_client_connection_options t) (connection_options t) = Inr ()"
    "\<not> blank name" "\<not> blank (driver t)"
  using assms by (auto simp: validate_target_def try_bind_Inr_iff split: if_splits)

lemma config_validate_ok:
  assumes "config_validate c = Inr u"
  shows "targets c \<noteq> []" "validate_server (server c) = Inr ()"
    "\<And>t. tcp c = Some t \<Longrightarrow> validate_tcp (require_authentication (server c)) t = Inr ()"
    "\<And>i. iroh c = Some i \<Longrightarrow> validate_iroh (require_authentication (server c)) i = Inr ()"
    "validate_auth (require_authentication (server c)) (auth c) = Inr ()"
    "validate_permissions (set (hm_keys (targets c))) (target_permissions (auth c)) = Inr ()"
    "\<And>name t. (name, t) \<in> set (targets c) \<Longrightarrow> validate_target name t = Inr ()"
  using assms
  by (auto simp: config_validate_def Let_def try_bind_Inr_iff reject_if_Inr_iff check_all_ok_iff)

subsection \<open>The policy as an interface\<close>

text \<open>
  What the clients of a policy rely on: a key it lets through is not one the operator
  configured. \<open>merge_options\<close> and \<open>set_connection_option\<close> are such clients.
\<close>

locale guarded_options =
  fixes lets_through :: "'p \<Rightarrow> string \<Rightarrow> bool"
    and operator_key :: "'p \<Rightarrow> string \<Rightarrow> bool"
  assumes not_both: "lets_through p key \<Longrightarrow> \<not> operator_key p key"
begin

lemma accepted_avoid_operator:
  "list_all (lets_through p) keys \<Longrightarrow> operator_key p key \<Longrightarrow> key \<notin> set keys"
  using not_both by (auto simp: list_all_iff)

lemma accepted_lookup:
  assumes "list_all (lets_through p) (map fst client)" and "operator_key p key"
  shows "map_of client key = None"
  using accepted_avoid_operator [OF assms] by (simp add: map_of_eq_None_iff)

end

interpretation cop: guarded_options permits is_protected
  by unfold_locales (simp add: permits_def is_protected_def)

lemma policy_new_simps [simp]:
  "permits (policy_new all allow conf) k \<longleftrightarrow>
     k \<notin> wo_key ` set conf \<and> (all \<or> k \<in> set allow)"
  "is_protected (policy_new all allow conf) k \<longleftrightarrow> k \<in> wo_key ` set conf"
  by (auto simp: permits_def is_protected_def policy_new_def)

text \<open>Collecting a table with its values converted.\<close>

lemma hm_from_list_map:
  assumes "hm_wf tab"
  shows "hm_get (hm_from_list (map (\<lambda>(k, v). (k, f v)) tab)) k = map_option f (hm_get tab k)"
proof -
  have "hm_get (fold (\<lambda>(k, v) m. hm_insert k v m) (map (\<lambda>(k, v). (k, f v)) xs) m) k =
      (case hm_get xs k of None \<Rightarrow> hm_get m k | Some v \<Rightarrow> Some (f v))" if "hm_wf xs" for xs m
    using that
  proof (induction xs arbitrary: m)
    case Nil
    then show ?case by simp
  next
    case (Cons x xs)
    have "hm_get xs (fst x) = None"
      using Cons.prems by (auto simp: hm_wf_def map_of_eq_None_iff)
    with Cons show ?case
      by (cases x) (auto simp: hm_wf_def split: option.splits)
  qed
  from this [OF assms, of "[]"] show ?thesis
    by (simp add: hm_from_list_def split: option.split)
qed

subsection \<open>Properties\<close>


text \<open>A small deployment: one target with an injected credential and one client-settable key.\<close>

definition demo_target :: target_config where
  "demo_target =
     \<lparr>driver = ''duckdb'', entrypoint = None,
      database_options = [\<lparr>wo_key = ''path'', wo_value = JsonString '':memory:''\<rparr>],
      connection_options = [], allow_client_database_options = False,
      allow_client_connection_options = True, allowed_client_database_options = [''threads''],
      allowed_client_connection_options = []\<rparr>"

definition demo_config :: config where
  "demo_config =
     \<lparr>server = default_server_config,
      auth = \<lparr>static_bearer_tokens = [(''s3cret'', ''alice'')], jwt = None,
              target_permissions = [(''alice'', [''duck''])]\<rparr>,
      tcp = None, iroh = None, targets = [(''duck'', demo_target)]\<rparr>"

lemma demo_config_valid: "config_validate demo_config = Inr ()"
  by (simp add: config_validate_def demo_config_def demo_target_def default_server_config_def
      validate_server_def validate_auth_def validate_permissions_def validate_target_def
      validate_options_def validate_option_policy_def limits_validate_def session_limits_of_def
      max_bind_stream_bytes_def bind_envelope_headroom_bytes_def max_configurable_bind_bytes_def
      i64_max_def blank_def is_whitespace_def)


text \<open>
  What the permission table means. For a well-formed table and a principal made of an
  authentication domain and a name, no table lets every target through, and otherwise the
  principal reaches a target exactly when the entry for its name, or else the entry for the
  qualified principal, lists the target or the wildcard. A principal without an entry reaches
  nothing.
\<close>

lemma authorizer_follows_table:
  assumes "hm_wf perms" and "nul \<notin> set domain"
  shows "authorizer_allows (authorizer_new perms) (domain @ nul # name) target \<longleftrightarrow>
    perms = []
    \<or> (\<exists>ts. (target \<in> set ts \<or> ''*'' \<in> set ts)
         \<and> ((name, ts) \<in> set perms
            \<or> (\<not> hm_contains perms name \<and> (domain @ nul # name, ts) \<in> set perms)))"
proof (cases "perms = []")
  case True
  then show ?thesis by (simp add: authorizer_new_def authorizer_allows_def)
next
  case False
  have "authorizer_allows (authorizer_new perms) (domain @ nul # name) target \<longleftrightarrow>
    (case hm_get perms name of
       Some ts \<Rightarrow> ''*'' \<in> set ts \<or> target \<in> set ts
     | None \<Rightarrow> (case hm_get perms (domain @ nul # name) of
         None \<Rightarrow> False | Some ts \<Rightarrow> ''*'' \<in> set ts \<or> target \<in> set ts))"
    using False assms(2)
    by (auto simp: authorizer_new_def authorizer_allows_def Let_def split_once_append
        hm_from_list_map [OF assms(1)] split: option.splits)
  with False show ?thesis
    by (auto simp: hm_wf_entry_iff [OF assms(1)] hm_get_None_iff dest: hm_get_Some_contains
        split: option.splits)
qed

end
