(* ===== verification/Backend.thy ===== *)
theory Backend
  imports Config "HOL-Library.List_Lexorder" "HOL-Library.Char_ord"
begin

text \<open>
  Opening a downstream connection (\<open>crates/grainlift-server/src/backend.rs\<close>): the options a
  client sent are checked against the policy of the target and merged with the options the
  operator configured, then the driver manager loads the driver and opens the database and the
  connection. The driver manager is a parameter.
\<close>

subsection \<open>Merging options\<close>

definition invalid_argument_error :: "message \<Rightarrow> adbc_error" where
  "invalid_argument_error m = with_message_and_status m InvalidArguments"

definition rejected_keys :: "client_option_policy \<Rightarrow> (string \<times> option_value) list \<Rightarrow> string list"
  where
  "rejected_keys policy client =
     remdups_adj (sort (filter (\<lambda>key. \<not> permits policy key) (map fst client)))"

fun insert_configured ::
  "(string \<Rightarrow> bytes option) \<Rightarrow> wire_option list \<Rightarrow> (string, option_value) hash_map \<Rightarrow>
   (adbc_error, (string, option_value) hash_map) result" where
  "insert_configured dec [] merged = Inr merged"
| "insert_configured dec (c # cs) merged =
     try_bind
       (map_err (\<lambda>e. invalid_argument_error [Proto e]) (json_into_adbc dec (wo_value c)))
       (\<lambda>value. insert_configured dec cs (hm_insert (wo_key c) value merged))"

definition merge_options ::
  "(string \<Rightarrow> bytes option) \<Rightarrow> (string \<times> option_value) list \<Rightarrow> wire_option list \<Rightarrow>
   client_option_policy \<Rightarrow> string \<Rightarrow> (adbc_error, (string, option_value) hash_map) result" where
  "merge_options dec client configured policy kind =
     (case rejected_keys policy client of
        key # _ \<Rightarrow>
          Inl (invalid_argument_error
            [Lit ''client '', Str kind, Lit '' option '', Dbg key,
             Lit (if is_protected policy key then '' is controlled by the proxy server''
                  else '' is not allowed by the target policy'')])
      | [] \<Rightarrow> insert_configured dec configured (hm_from_list client))"

subsection \<open>Opening\<close>

record ('drv, 'db, 'c) driver_manager =
  load_from_name :: "string \<Rightarrow> string option \<Rightarrow> (adbc_error, 'drv) result"
  new_database_with_opts ::
    "'drv \<Rightarrow> (string, option_value) hash_map \<Rightarrow> (adbc_error, 'db) result"
  new_connection_with_opts ::
    "'db \<Rightarrow> (string, option_value) hash_map \<Rightarrow> (adbc_error, 'c) result"

definition backend_open ::
  "(string \<Rightarrow> bytes option) \<Rightarrow> ('drv, 'db, 'c) driver_manager \<Rightarrow> target_config \<Rightarrow>
   (string \<times> option_value) list \<Rightarrow> (string \<times> option_value) list \<Rightarrow> (adbc_error, 'c) result" where
  "backend_open dec dm target dbo co =
     try_bind (load_from_name dm (driver target) (entrypoint target)) (\<lambda>drv.
     try_bind
       (merge_options dec dbo (database_options target) (database_option_policy target)
          ''database'') (\<lambda>dbopts.
     try_bind
       (merge_options dec co (connection_options target) (connection_option_policy target)
          ''connection'') (\<lambda>copts.
     try_bind (new_database_with_opts dm drv dbopts) (\<lambda>db.
     new_connection_with_opts dm db copts))))"

subsection \<open>Lemmas\<close>

lemma rejected_keys_Nil_iff:
  "rejected_keys policy client = [] \<longleftrightarrow> list_all (permits policy) (map fst client)"
proof -
  have "rejected_keys policy client = [] \<longleftrightarrow>
      filter (\<lambda>key. \<not> permits policy key) (map fst client) = []"
    by (metis rejected_keys_def remdups_adj.simps(1) remdups_adj_set set_empty set_sort)
  then show ?thesis by (auto simp: filter_empty_conv list_all_iff)
qed

lemma rejected_keys_hd:
  assumes "rejected_keys policy client = key # rest"
  shows "key \<in> fst ` set client" "\<not> permits policy key"
    "k \<in> fst ` set client \<Longrightarrow> \<not> permits policy k \<Longrightarrow> key \<le> k"
proof -
  let ?xs = "sort (filter (\<lambda>key. \<not> permits policy key) (map fst client))"
  have set: "set (key # rest) = set ?xs"
    using assms by (metis rejected_keys_def remdups_adj_set)
  then have "key \<in> set ?xs" by auto
  then show "key \<in> fst ` set client" "\<not> permits policy key" by auto
  have "sorted (key # rest)"
    using assms by (metis rejected_keys_def sorted_remdups_adj sorted_sort)
  moreover assume "k \<in> fst ` set client" "\<not> permits policy k"
  then have "k \<in> set (key # rest)" using set by auto
  ultimately show "key \<le> k" by auto
qed

lemma hm_from_list_wf [simp]: "hm_wf (hm_from_list xs)"
proof -
  have "hm_wf m \<Longrightarrow> hm_wf (fold (\<lambda>(k, v) m. hm_insert k v m) xs m)" for m :: "('a, 'b) hash_map"
    by (induction xs arbitrary: m) auto
  then show ?thesis by (simp add: hm_from_list_def)
qed

lemma hm_from_list_get: "hm_get (hm_from_list xs) k = map_of (rev xs) k"
proof -
  have "hm_get (fold (\<lambda>(k, v) m. hm_insert k v m) xs m) k =
      (case map_of (rev xs) k of None \<Rightarrow> hm_get m k | Some v \<Rightarrow> Some v)" for m
    by (induction xs arbitrary: m) (auto simp: map_add_def split: option.splits)
  then show ?thesis by (simp add: hm_from_list_def split: option.split)
qed

lemma insert_configured_get:
  assumes "insert_configured dec cs m = Inr m'" and "distinct (map wo_key cs)" and "hm_wf m"
  shows "hm_wf m'
    \<and> (\<forall>c \<in> set cs. \<exists>v. json_into_adbc dec (wo_value c) = Inr v \<and> hm_get m' (wo_key c) = Some v)
    \<and> (\<forall>k. k \<notin> wo_key ` set cs \<longrightarrow> hm_get m' k = hm_get m k)"
  using assms
proof (induction cs arbitrary: m)
  case Nil
  then show ?case by simp
next
  case (Cons c cs)
  then obtain v where v: "json_into_adbc dec (wo_value c) = Inr v"
    and rest: "insert_configured dec cs (hm_insert (wo_key c) v m) = Inr m'"
    by (auto simp: result_iffs)
  have "distinct (map wo_key cs)" and "hm_wf (hm_insert (wo_key c) v m)"
    using Cons.prems by auto
  note IH = Cons.IH [OF rest this]
  moreover have "wo_key c \<notin> wo_key ` set cs" using Cons.prems(2) by simp
  ultimately show ?case using v by auto
qed

lemma merge_options_ok:
  assumes "merge_options dec client configured (policy_new all allow configured) kind = Inr m"
    and "distinct (map wo_key configured)"
  shows "hm_wf m
    \<and> (\<forall>c \<in> set configured.
         \<exists>v. json_into_adbc dec (wo_value c) = Inr v \<and> hm_get m (wo_key c) = Some v)
    \<and> (\<forall>key. key \<notin> wo_key ` set configured \<longrightarrow> hm_get m key = map_of (rev client) key)
    \<and> (\<forall>key \<in> fst ` set client. permits (policy_new all allow configured) key)"
proof -
  let ?p = "policy_new all allow configured"
  have none: "rejected_keys ?p client = []"
    using assms(1) by (auto simp: merge_options_def split: list.splits)
  with assms(1) have "insert_configured dec configured (hm_from_list client) = Inr m"
    by (simp add: merge_options_def)
  note got = insert_configured_get [OF this assms(2) hm_from_list_wf, unfolded hm_from_list_get]
  have ok: "list_all (permits ?p) (map fst client)"
    using none by (simp only: rejected_keys_Nil_iff)
  then have "\<forall>key \<in> fst ` set client. permits ?p key" by (auto simp: list_all_iff)
  with got show ?thesis by blast
qed

subsection \<open>Properties\<close>

text \<open>
  What an option set handed to a driver should be: for every key the operator configured, the
  operator's decoded value; for every other key, the client's last value for it, which the policy
  permits.
\<close>

definition as_configured ::
  "(string \<Rightarrow> bytes option) \<Rightarrow> wire_option list \<Rightarrow> client_option_policy \<Rightarrow> (string \<times> option_value) list \<Rightarrow>
   (string, option_value) hash_map \<Rightarrow> bool" where
  "as_configured dec configured policy client opts \<longleftrightarrow>
     (\<forall>c \<in> set configured. map_option Inr (hm_get opts (wo_key c)) = Some (json_into_adbc dec (wo_value c)))
     \<and> (\<forall>key. key \<notin> wo_key ` set configured \<longrightarrow>
          hm_get opts key = map_of (rev client) key \<and> (hm_contains opts key \<longrightarrow> permits policy key))"

lemma merge_options_as_configured:
  assumes "merge_options dec client configured (policy_new all allow configured) kind = Inr m"
    and "distinct (map wo_key configured)"
  shows "as_configured dec configured (policy_new all allow configured) client m"
proof -
  note ok = merge_options_ok [OF assms]
  have "key \<in> fst ` set client" if "hm_contains m key" "hm_get m key = map_of (rev client) key" for key
    using that by (metis hm_get_None_iff set_map set_rev map_of_eq_None_iff)
  with ok show ?thesis unfolding as_configured_def by fastforce
qed

text \<open>
  Client input cannot replace what the operator configured: a downstream connection of a validated
  target was opened with option sets as configured, for the database and for the connection.
\<close>

lemma operator_options_win:
  assumes "backend_open dec dm target dbo co = Inr conn"
    and "validate_target name target = Inr ()"
  obtains drv dbopts copts db where
    "load_from_name dm (driver target) (entrypoint target) = Inr drv"
    "new_database_with_opts dm drv dbopts = Inr db" "new_connection_with_opts dm db copts = Inr conn"
    "as_configured dec (database_options target) (database_option_policy target) dbo dbopts"
    "as_configured dec (connection_options target) (connection_option_policy target) co copts"
proof -
  obtain drv dbopts copts db where open_eqs:
    "load_from_name dm (driver target) (entrypoint target) = Inr drv"
    "merge_options dec dbo (database_options target) (database_option_policy target) ''database''
       = Inr dbopts"
    "merge_options dec co (connection_options target) (connection_option_policy target)
       ''connection'' = Inr copts"
    "new_database_with_opts dm drv dbopts = Inr db"
    "new_connection_with_opts dm db copts = Inr conn"
    using assms(1) by (auto simp: backend_open_def result_iffs)
  have "distinct (map wo_key (database_options target))"
    and "distinct (map wo_key (connection_options target))"
    using validate_target_ok(1,2) [OF assms(2)] by (simp_all add: validate_options_ok_iff)
  then have "as_configured dec (database_options target) (database_option_policy target) dbo dbopts"
    and "as_configured dec (connection_options target) (connection_option_policy target) co copts"
    using open_eqs(2,3) unfolding database_option_policy_def connection_option_policy_def
    by (blast intro: merge_options_as_configured)+
  with open_eqs that show ?thesis by blast
qed

definition demo_manager :: "(string, string, (string, option_value) hash_map) driver_manager" where
  "demo_manager =
     \<lparr>load_from_name = (\<lambda>name _. Inr name),
      new_database_with_opts = (\<lambda>drv o'. if hm_contains o' ''path'' then Inr drv else Inl (invalid_argument_error [])),
      new_connection_with_opts = (\<lambda>db o'. Inr o')\<rparr>"

text \<open>
  Options outside the policy are refused. If the client sends a key the policy does not
  permit, merging fails with an invalid-arguments error that names the least such key and says
  whether the operator controls it; the driver manager is not asked to open anything.
\<close>

lemma forbidden_option_rejected:
  assumes "key \<in> fst ` set dbo" and "\<not> permits (database_option_policy target) key"
  shows "\<exists>least. least \<in> fst ` set dbo \<and> \<not> permits (database_option_policy target) least
    \<and> (\<forall>k \<in> fst ` set dbo. \<not> permits (database_option_policy target) k \<longrightarrow> least \<le> k)
    \<and> backend_open dec dm target dbo co =
        try_bind (load_from_name dm (driver target) (entrypoint target)) (\<lambda>_.
          Inl (with_message_and_status
            [Lit ''client '', Str ''database'', Lit '' option '', Dbg least,
             Lit (if least \<in> wo_key ` set (database_options target)
                  then '' is controlled by the proxy server''
                  else '' is not allowed by the target policy'')] InvalidArguments))"
proof -
  let ?p = "database_option_policy target"
  have "rejected_keys ?p dbo \<noteq> []"
    using assms by (auto simp: rejected_keys_Nil_iff list_all_iff)
  then obtain least rest where r: "rejected_keys ?p dbo = least # rest"
    by (cases "rejected_keys ?p dbo") auto
  note least = rejected_keys_hd [OF r]
  show ?thesis
  proof (intro exI [of _ least] conjI ballI impI)
    show "backend_open dec dm target dbo co =
        try_bind (load_from_name dm (driver target) (entrypoint target)) (\<lambda>_.
          Inl (with_message_and_status
            [Lit ''client '', Str ''database'', Lit '' option '', Dbg least,
             Lit (if least \<in> wo_key ` set (database_options target)
                  then '' is controlled by the proxy server''
                  else '' is not allowed by the target policy'')] InvalidArguments))"
      by (simp add: backend_open_def merge_options_def r invalid_argument_error_def)
        (simp add: database_option_policy_def)
  qed (use least in auto)
qed

end
