(* ===== verification/Worker.thy ===== *)
theory Worker
  imports Adbc "HOL-Library.Sublist"
begin

text \<open>
  The per-session worker of \<open>crates/grainlift-server/src/session.rs\<close>: one thread, a channel of
  32 jobs, callers that wait for a reply with a deadline and abandon the job when it passes.
  The first part gives the effect of one call as the session operations see it; the second
  part is the machine of thread, channel and callers, and the theorems that relate the two.
\<close>

subsection \<open>Errors of the session layer\<close>

definition quota :: "string \<Rightarrow> adbc_error" where
  "quota kind = with_message_and_status [Str kind, Lit '' quota exceeded''] InvalidState"

definition internal :: "message \<Rightarrow> adbc_error" where
  "internal m = with_message_and_status m Internal"

definition busy :: "message \<Rightarrow> adbc_error" where
  "busy m = with_message_and_status m InvalidState"

definition timeout :: "message \<Rightarrow> adbc_error" where
  "timeout m = with_message_and_status m Timeout"

definition invalid_data :: "message \<Rightarrow> adbc_error" where
  "invalid_data m = with_message_and_status m InvalidData"

definition not_found :: "string \<Rightarrow> adbc_error" where
  "not_found kind = with_message_and_status [Str kind, Lit '' was not found''] NotFound"

lemmas session_errors = quota_def internal_def busy_def timeout_def invalid_data_def not_found_def

lemma session_error_status [simp]:
  "status (quota k) = InvalidState"
  "status (internal m) = Internal"
  "status (busy m) = InvalidState"
  "status (timeout m) = Timeout"
  "status (invalid_data m) = InvalidData"
  "status (not_found k) = NotFound"
  by (simp_all add: session_errors)

subsection \<open>One call\<close>

text \<open>
  What became of a call: the job ran and its reply arrived in time; the channel was full; the
  thread was gone; or the deadline passed, and the abandoned job had already been started
  (\<open>TimedOut True\<close>) or never runs (\<open>TimedOut False\<close>).
\<close>

datatype call_outcome = Completed | QueueFull | WorkerStopped | TimedOut bool

definition worker_call ::
  "nat \<Rightarrow> call_outcome \<Rightarrow> ('s \<Rightarrow> (adbc_error, 'a) result \<times> 's) \<Rightarrow> 's \<Rightarrow>
   (adbc_error, 'a) result \<times> 's" where
  "worker_call deadline oc operation s =
     (case oc of
        Completed \<Rightarrow> operation s
      | QueueFull \<Rightarrow> (Inl (busy [Lit ''session worker queue is full'']), s)
      | WorkerStopped \<Rightarrow> (Inl (internal [Lit ''session worker stopped'']), s)
      | TimedOut started \<Rightarrow>
          (Inl (timeout [Lit ''downstream operation exceeded '', Dur deadline]),
           if started then snd (operation s) else s))"

definition ran_job :: "call_outcome \<Rightarrow> bool" where
  "ran_job oc \<longleftrightarrow> oc = Completed \<or> oc = TimedOut True"

lemma worker_call_Completed [simp]: "worker_call d Completed f s = f s"
  by (simp add: worker_call_def)

lemma worker_call_state: "snd (worker_call d oc f s) = (if ran_job oc then snd (f s) else s)"
  by (simp add: worker_call_def ran_job_def split: call_outcome.split)

lemma worker_call_Inr_iff:
  "fst (worker_call d oc f s) = Inr x \<longleftrightarrow> oc = Completed \<and> fst (f s) = Inr x"
  by (simp add: worker_call_def split: call_outcome.split)

text \<open>Whatever every run of the job keeps, the call keeps, also when its caller gave up.\<close>

lemma worker_call_keeps: "(P s \<Longrightarrow> P (snd (f s))) \<Longrightarrow> P s \<Longrightarrow> P (snd (worker_call d oc f s))"
  by (simp add: worker_call_state)

subsection \<open>The thread, its channel and its callers\<close>

text \<open>
  Jobs are numbered by call. A caller has not called yet, waits for its reply, has seen its
  deadline pass but not yet raised the abandoned flag, or has returned.
\<close>

datatype 'a call_result = Reply 'a | Full | Stopped | Expired

datatype 'a phase = Idle | Waiting | Expiring | Returned "'a call_result"

record ('s, 'a) worker =
  queue :: "nat list"
  running :: "nat option"
  replies :: "nat \<Rightarrow> 'a option"
  phase :: "nat \<Rightarrow> 'a phase"
  abandoned :: "nat \<Rightarrow> bool"
  alive :: bool
  resource :: 's
  accepted :: "nat list" \<comment> \<open>the jobs the channel took, in order\<close>
  executed :: "nat list" \<comment> \<open>the jobs the thread ran to their end, in order\<close>

definition channel_capacity :: nat where
  "channel_capacity = 32"

definition worker_start :: "'s \<Rightarrow> ('s, 'a) worker \<Rightarrow> bool" where
  "worker_start s0 w \<longleftrightarrow> w =
     \<lparr>queue = [], running = None, replies = (\<lambda>_. None), phase = (\<lambda>_. Idle),
      abandoned = (\<lambda>_. False), alive = True, resource = s0, accepted = [], executed = []\<rparr>"

text \<open>
  One step of a caller or of the thread. \<open>op j s\<close> is what job \<open>j\<close> does to the resources. The
  panic of a job ends the thread; the resources are then arbitrary, and the jobs left in the
  channel are dropped with their reply senders.
\<close>

inductive worker_step ::
  "(nat \<Rightarrow> 's \<Rightarrow> 'a \<times> 's) \<Rightarrow> ('s, 'a) worker \<Rightarrow> ('s, 'a) worker \<Rightarrow> bool" for op where
  submit: "phase w j = Idle \<Longrightarrow> alive w \<Longrightarrow> length (queue w) < channel_capacity \<Longrightarrow>
     worker_step op w (w\<lparr>queue := queue w @ [j], phase := (phase w)(j := Waiting),
       accepted := accepted w @ [j]\<rparr>)"
| submit_full: "phase w j = Idle \<Longrightarrow> alive w \<Longrightarrow> channel_capacity \<le> length (queue w) \<Longrightarrow>
     worker_step op w (w\<lparr>phase := (phase w)(j := Returned Full)\<rparr>)"
| submit_stopped: "phase w j = Idle \<Longrightarrow> \<not> alive w \<Longrightarrow>
     worker_step op w (w\<lparr>phase := (phase w)(j := Returned Stopped)\<rparr>)"
| take_abandoned: "alive w \<Longrightarrow> running w = None \<Longrightarrow> queue w = j # q \<Longrightarrow> abandoned w j \<Longrightarrow>
     worker_step op w (w\<lparr>queue := q\<rparr>)"
| take: "alive w \<Longrightarrow> running w = None \<Longrightarrow> queue w = j # q \<Longrightarrow> \<not> abandoned w j \<Longrightarrow>
     worker_step op w (w\<lparr>queue := q, running := Some j\<rparr>)"
| finish: "running w = Some j \<Longrightarrow> op j (resource w) = (a, s') \<Longrightarrow>
     worker_step op w (w\<lparr>running := None, resource := s', replies := (replies w)(j \<mapsto> a),
       executed := executed w @ [j]\<rparr>)"
| panic: "running w = Some j \<Longrightarrow>
     worker_step op w (w\<lparr>running := None, alive := False, queue := [], resource := s'\<rparr>)"
| receive: "phase w j = Waiting \<Longrightarrow> replies w j = Some a \<Longrightarrow>
     worker_step op w (w\<lparr>phase := (phase w)(j := Returned (Reply a))\<rparr>)"
| disconnected: "phase w j = Waiting \<Longrightarrow> replies w j = None \<Longrightarrow> \<not> alive w \<Longrightarrow>
     worker_step op w (w\<lparr>phase := (phase w)(j := Returned Stopped)\<rparr>)"
| expire: "phase w j = Waiting \<Longrightarrow> replies w j = None \<Longrightarrow>
     worker_step op w (w\<lparr>phase := (phase w)(j := Expiring)\<rparr>)"
| abandon: "phase w j = Expiring \<Longrightarrow>
     worker_step op w (w\<lparr>abandoned := (abandoned w)(j := True),
       phase := (phase w)(j := Returned Expired)\<rparr>)"

text \<open>The resources after the jobs of a list ran one after the other.\<close>

definition run_jobs :: "(nat \<Rightarrow> 's \<Rightarrow> 'a \<times> 's) \<Rightarrow> nat list \<Rightarrow> 's \<Rightarrow> 's" where
  "run_jobs op js s = fold (\<lambda>j s. snd (op j s)) js s"

lemma run_jobs_simps [simp]:
  "run_jobs op [] s = s"
  "run_jobs op (js @ [j]) s = snd (op j (run_jobs op js s))"
  by (simp_all add: run_jobs_def)

definition in_thread :: "('s, 'a) worker \<Rightarrow> nat list" where
  "in_thread w = (case running w of None \<Rightarrow> [] | Some j \<Rightarrow> [j])"

definition worker_inv :: "(nat \<Rightarrow> 's \<Rightarrow> 'a \<times> 's) \<Rightarrow> 's \<Rightarrow> ('s, 'a) worker \<Rightarrow> bool" where
  "worker_inv op s0 w \<longleftrightarrow>
     distinct (accepted w)
     \<and> subseq (executed w @ in_thread w @ queue w) (accepted w)
     \<and> length (queue w) \<le> channel_capacity
     \<and> (alive w \<longrightarrow> resource w = run_jobs op (executed w) s0)
     \<and> (\<not> alive w \<longrightarrow> running w = None \<and> queue w = [])
     \<and> (\<forall>j. phase w j \<in> {Idle, Returned Full} \<longrightarrow> j \<notin> set (accepted w))
     \<and> (\<forall>j a. replies w j = Some a \<longrightarrow>
          (\<exists>pre post. executed w = pre @ j # post \<and> a = fst (op j (run_jobs op pre s0))))
     \<and> (\<forall>j a. phase w j = Returned (Reply a) \<longrightarrow> replies w j = Some a)
     \<and> (\<forall>j. abandoned w j \<longleftrightarrow> phase w j = Returned Expired)
     \<and> (alive w \<longrightarrow> (\<forall>j. phase w j \<noteq> Returned Stopped))"

lemma worker_inv_start: "worker_start s0 w \<Longrightarrow> worker_inv op s0 w"
  by (simp add: worker_start_def worker_inv_def in_thread_def channel_capacity_def)

text \<open>The invariant, one conjunct at a time.\<close>

lemma step_fifo:
  assumes "worker_step op w w'" and "subseq (executed w @ in_thread w @ queue w) (accepted w)"
  shows "subseq (executed w' @ in_thread w' @ queue w') (accepted w')"
  using assms
proof (induction rule: worker_step.induct)
  case (submit w j)
  have "subseq ((executed w @ in_thread w @ queue w) @ [j]) (accepted w @ [j])"
    using submit.prems by (intro list_emb_append_mono) auto
  then show ?case by (simp add: in_thread_def)
next
  case (take_abandoned w j q)
  have "subseq (executed w @ in_thread w @ q) (executed w @ in_thread w @ j # q)"
    by (intro list_emb_append_mono) auto
  with take_abandoned show ?case
    by (auto simp: in_thread_def intro: subseq_order.trans)
next
  case (panic w j s')
  have "subseq (executed w) (executed w @ in_thread w @ queue w)"
    by (intro subseq_rev_drop_many) simp
  with panic.prems show ?case
    by (auto simp: in_thread_def intro: subseq_order.trans)
qed (simp_all add: in_thread_def)

lemma step_distinct:
  "worker_step op w w' \<Longrightarrow> distinct (accepted w) \<Longrightarrow>
   (\<forall>j. phase w j \<in> {Idle, Returned Full} \<longrightarrow> j \<notin> set (accepted w)) \<Longrightarrow>
   distinct (accepted w') \<and> (\<forall>j. phase w' j \<in> {Idle, Returned Full} \<longrightarrow> j \<notin> set (accepted w'))"
  by (induction rule: worker_step.induct) auto

lemma step_resource:
  "worker_step op w w' \<Longrightarrow> (alive w \<longrightarrow> resource w = run_jobs op (executed w) s0) \<Longrightarrow>
   (\<not> alive w \<longrightarrow> running w = None \<and> queue w = []) \<Longrightarrow>
   (alive w' \<longrightarrow> resource w' = run_jobs op (executed w') s0)
   \<and> (\<not> alive w' \<longrightarrow> running w' = None \<and> queue w' = [])"
  by (induction rule: worker_step.induct) auto

lemma step_replies:
  assumes "worker_step op w w'" and "alive w \<longrightarrow> resource w = run_jobs op (executed w) s0"
    and "\<not> alive w \<longrightarrow> running w = None \<and> queue w = []"
    and "\<forall>j a. replies w j = Some a \<longrightarrow>
      (\<exists>pre post. executed w = pre @ j # post \<and> a = fst (op j (run_jobs op pre s0)))"
  shows "\<forall>j a. replies w' j = Some a \<longrightarrow>
      (\<exists>pre post. executed w' = pre @ j # post \<and> a = fst (op j (run_jobs op pre s0)))"
  using assms
proof (induction rule: worker_step.induct)
  case (finish w j a s')
  then have "resource w = run_jobs op (executed w) s0" by auto
  with finish show ?case by (auto split: if_splits) (metis append.assoc append_Cons fst_conv)+
qed auto

lemma step_phases:
  "worker_step op w w' \<Longrightarrow> (\<forall>j a. phase w j = Returned (Reply a) \<longrightarrow> replies w j = Some a) \<Longrightarrow>
   (\<forall>j. abandoned w j \<longleftrightarrow> phase w j = Returned Expired) \<Longrightarrow>
   (alive w \<longrightarrow> (\<forall>j. phase w j \<noteq> Returned Stopped)) \<Longrightarrow>
   distinct (executed w @ in_thread w @ queue w) \<Longrightarrow>
   (\<forall>j a. replies w j = Some a \<longrightarrow> j \<in> set (executed w)) \<Longrightarrow>
   (\<forall>j a. phase w' j = Returned (Reply a) \<longrightarrow> replies w' j = Some a)
   \<and> (\<forall>j. abandoned w' j \<longleftrightarrow> phase w' j = Returned Expired)
   \<and> (alive w' \<longrightarrow> (\<forall>j. phase w' j \<noteq> Returned Stopped))"
  by (induction rule: worker_step.induct) (auto simp: in_thread_def)

lemma step_bounded:
  "worker_step op w w' \<Longrightarrow> length (queue w) \<le> channel_capacity \<Longrightarrow>
   length (queue w') \<le> channel_capacity"
  by (induction rule: worker_step.induct) auto

lemma subseq_set: "subseq xs ys \<Longrightarrow> set xs \<subseteq> set ys"
  by (auto simp: subseq_conv_nths dest: in_set_nthsD)

lemma subseq_distinct: "subseq xs ys \<Longrightarrow> distinct ys \<Longrightarrow> distinct xs"
  by (auto simp: subseq_conv_nths distinct_nthsI)

lemma worker_inv_distinct:
  "worker_inv op s0 w \<Longrightarrow> distinct (executed w @ in_thread w @ queue w)"
  unfolding worker_inv_def by (blast intro: subseq_distinct)

lemma worker_inv_replied: "worker_inv op s0 w \<Longrightarrow> replies w j = Some a \<Longrightarrow> j \<in> set (executed w)"
  unfolding worker_inv_def by fastforce

lemma worker_inv_step:
  assumes inv: "worker_inv op s0 w" and step: "worker_step op w w'"
  shows "worker_inv op s0 w'"
proof -
  have fifo: "subseq (executed w @ in_thread w @ queue w) (accepted w)"
    and dist: "distinct (accepted w)"
    and idle: "\<forall>j. phase w j \<in> {Idle, Returned Full} \<longrightarrow> j \<notin> set (accepted w)"
    and bound: "length (queue w) \<le> channel_capacity"
    and res: "alive w \<longrightarrow> resource w = run_jobs op (executed w) s0"
    and dead: "\<not> alive w \<longrightarrow> running w = None \<and> queue w = []"
    and rep: "\<forall>j a. replies w j = Some a \<longrightarrow>
      (\<exists>pre post. executed w = pre @ j # post \<and> a = fst (op j (run_jobs op pre s0)))"
    and ret: "\<forall>j a. phase w j = Returned (Reply a) \<longrightarrow> replies w j = Some a"
    and ab: "\<forall>j. abandoned w j \<longleftrightarrow> phase w j = Returned Expired"
    and st: "alive w \<longrightarrow> (\<forall>j. phase w j \<noteq> Returned Stopped)"
    using inv unfolding worker_inv_def by blast+
  have "\<forall>j a. replies w j = Some a \<longrightarrow> j \<in> set (executed w)"
    using worker_inv_replied [OF inv] by blast
  note phases = step_phases [OF step ret ab st worker_inv_distinct [OF inv] this]
  show ?thesis
    unfolding worker_inv_def
    using step_fifo [OF step fifo] step_distinct [OF step dist idle] step_bounded [OF step bound]
      step_resource [OF step res dead] step_replies [OF step res dead rep] phases
    by blast
qed

interpretation session_worker: inductive_invariant
  "worker_start s0" "worker_step op" "worker_inv op s0" for s0 :: 's and op :: "nat \<Rightarrow> 's \<Rightarrow> 'a \<times> 's"
  by unfold_locales (fact worker_inv_start, fact worker_inv_step)

subsection \<open>The machine refines sequential calls\<close>

text \<open>
  The outcome of a returned call, and the value \<open>SessionWorker::call\<close> returns for it.
\<close>

definition outcome_of :: "('s, 'a) worker \<Rightarrow> nat \<Rightarrow> call_outcome" where
  "outcome_of w j =
     (case phase w j of
        Returned (Reply _) \<Rightarrow> Completed
      | Returned Full \<Rightarrow> QueueFull
      | Returned Stopped \<Rightarrow> WorkerStopped
      | _ \<Rightarrow> TimedOut (j \<in> set (executed w)))"

definition call_value ::
  "nat \<Rightarrow> ('s, (adbc_error, 'b) result) worker \<Rightarrow> nat \<Rightarrow> (adbc_error, 'b) result" where
  "call_value deadline w j =
     (case phase w j of
        Returned (Reply a) \<Rightarrow> a
      | Returned Full \<Rightarrow> Inl (busy [Lit ''session worker queue is full''])
      | Returned Stopped \<Rightarrow> Inl (internal [Lit ''session worker stopped''])
      | _ \<Rightarrow> Inl (timeout [Lit ''downstream operation exceeded '', Dur deadline]))"

definition quiescent :: "('s, 'a) worker \<Rightarrow> bool" where
  "quiescent w \<longleftrightarrow> queue w = [] \<and> running w = None
     \<and> list_all (\<lambda>j. case phase w j of Returned _ \<Rightarrow> True | _ \<Rightarrow> False) (accepted w)"

text \<open>The accepted calls, replayed one after the other with their outcomes.\<close>

definition replay ::
  "nat \<Rightarrow> (nat \<Rightarrow> 's \<Rightarrow> (adbc_error, 'b) result \<times> 's) \<Rightarrow>
   ('s, (adbc_error, 'b) result) worker \<Rightarrow> nat list \<Rightarrow> 's \<Rightarrow> 's" where
  "replay d op w js s = fold (\<lambda>j s. snd (worker_call d (outcome_of w j) (op j) s)) js s"

lemma subseq_distinct_filter:
  "subseq xs ys \<Longrightarrow> distinct ys \<Longrightarrow> xs = filter (\<lambda>y. y \<in> set xs) ys"
proof (induction rule: list_emb.induct)
  case (list_emb_Nil ys)
  then show ?case by (induction ys) auto
next
  case (list_emb_Cons xs ys y)
  then have "y \<notin> set xs" by (auto dest: subseq_set)
  with list_emb_Cons show ?case by auto
next
  case (list_emb_Cons2 x y xs ys)
  then have "x \<notin> set ys" by auto
  then have "filter (\<lambda>z. z \<in> set (x # xs)) ys = filter (\<lambda>z. z \<in> set xs) ys"
    by (intro filter_cong) auto
  with list_emb_Cons2 show ?case by auto
qed

lemma worker_inv_executed:
  assumes "worker_inv op s0 w"
  shows "executed w = filter (\<lambda>j. j \<in> set (executed w)) (accepted w)"
proof -
  have "subseq (executed w) (executed w @ in_thread w @ queue w)"
    by (intro subseq_rev_drop_many) simp
  moreover have "subseq (executed w @ in_thread w @ queue w) (accepted w)"
    and "distinct (accepted w)"
    using assms unfolding worker_inv_def by blast+
  ultimately show ?thesis
    using subseq_distinct_filter subseq_order.trans by blast
qed

lemma worker_inv_reply:
  assumes "worker_inv op s0 w" and "phase w j = Returned (Reply a)"
  shows "\<exists>p q. executed w = p @ j # q \<and> a = fst (op j (run_jobs op p s0))"
proof -
  have "replies w j = Some a"
    using assms unfolding worker_inv_def by blast
  moreover have "replies w j = Some a \<longrightarrow>
      (\<exists>p q. executed w = p @ j # q \<and> a = fst (op j (run_jobs op p s0)))"
    using assms(1) unfolding worker_inv_def by blast
  ultimately show ?thesis by blast
qed

lemma outcome_ran:
  assumes "worker_inv op s0 w" and "alive w" and "phase w j = Returned r" and "j \<in> set (accepted w)"
  shows "ran_job (outcome_of w j) \<longleftrightarrow> j \<in> set (executed w)"
proof -
  have "r \<noteq> Stopped" and "r \<noteq> Full" and "\<And>a. r = Reply a \<Longrightarrow> j \<in> set (executed w)"
    using assms worker_inv_replied [OF assms(1), of j] unfolding worker_inv_def by auto
  with assms(3) show ?thesis
    by (cases r) (auto simp: outcome_of_def ran_job_def)
qed

lemma replay_run_jobs:
  assumes "\<And>j. j \<in> set js \<Longrightarrow> ran_job (outcome_of w j) \<longleftrightarrow> j \<in> set (executed w)"
  shows "replay d op w js s = run_jobs op (filter (\<lambda>j. j \<in> set (executed w)) js) s"
  using assms
  by (induction js arbitrary: s) (auto simp: replay_def run_jobs_def worker_call_state)

subsection \<open>Properties\<close>

text \<open>
  C22: the concurrent worker implements the sequential view the session operations are
  written against. Once every accepted call has returned, the resources are those of the
  accepted calls performed one after the other in submission order, and each caller received
  exactly the value of its own call in that order: a reply, or a timeout error whose job took
  effect or not as recorded.
\<close>

theorem worker_refines_sequential_calls:
  assumes "reaches (worker_start s0) (worker_step op) w" and "alive w" and "quiescent w"
  shows "resource w = replay d op w (accepted w) s0
    \<and> (\<forall>pre j post. accepted w = pre @ j # post \<longrightarrow>
         call_value d w j = fst (worker_call d (outcome_of w j) (op j) (replay d op w pre s0)))"
proof -
  have inv: "worker_inv op s0 w" using assms(1) by (rule session_worker.inv_reaches)
  have returned: "\<exists>r. phase w j = Returned r" if "j \<in> set (accepted w)" for j
    using assms(3) that by (cases "phase w j") (auto simp: quiescent_def list_all_iff)
  have ran: "ran_job (outcome_of w j) \<longleftrightarrow> j \<in> set (executed w)" if "j \<in> set (accepted w)" for j
    using outcome_ran [OF inv assms(2)] returned that by blast
  let ?ex = "\<lambda>js. filter (\<lambda>j. j \<in> set (executed w)) js"
  have ex: "executed w = ?ex (accepted w)" by (rule worker_inv_executed [OF inv])
  have "resource w = run_jobs op (executed w) s0"
    using inv assms(2) unfolding worker_inv_def by blast
  then have whole: "resource w = replay d op w (accepted w) s0"
    using replay_run_jobs [of "accepted w" w d op s0] ran ex by simp
  have "call_value d w j = fst (worker_call d (outcome_of w j) (op j) (replay d op w pre s0))"
    if acc: "accepted w = pre @ j # post" for pre j post
  proof -
    have pre: "replay d op w pre s0 = run_jobs op (?ex pre) s0"
      using ran acc by (intro replay_run_jobs) auto
    have dist: "distinct (accepted w)" using inv unfolding worker_inv_def by blast
    obtain r where r: "phase w j = Returned r" using returned acc by auto
    have "r \<noteq> Stopped" and "r \<noteq> Full"
      using r inv assms(2) acc unfolding worker_inv_def by auto
    moreover have "a = fst (op j (run_jobs op (?ex pre) s0))" if reply: "r = Reply a" for a
    proof -
      obtain p q where pq: "executed w = p @ j # q" "a = fst (op j (run_jobs op p s0))"
        using worker_inv_reply [OF inv] r reply by blast
      have "j \<in> set (executed w)" using pq(1) by simp
      then have "?ex (accepted w) = ?ex pre @ j # ?ex post" unfolding acc by simp
      then have "?ex pre @ j # ?ex post = p @ j # q" using ex pq(1) by (metis (no_types))
      moreover have "j \<notin> set (?ex pre)" "j \<notin> set (?ex post)" using dist acc by auto
      ultimately have "p = ?ex pre" by (metis append_Cons_eq_iff)
      with pq(2) show ?thesis by simp
    qed
    ultimately show ?thesis
      using r pre by (cases r) (auto simp: call_value_def outcome_of_def worker_call_def)
  qed
  with whole show ?thesis by blast
qed

text \<open>A run with two calls, the second of which is abandoned before the thread takes it.\<close>

definition sample_op :: "nat \<Rightarrow> nat \<Rightarrow> (adbc_error, nat) result \<times> nat" where
  "sample_op j s = (Inr (s + j), s + 10)"

definition sample_state ::
  "nat list \<Rightarrow> nat option \<Rightarrow> (adbc_error, nat) result phase \<Rightarrow> (adbc_error, nat) result phase \<Rightarrow>
   bool \<Rightarrow> nat list \<Rightarrow> (nat, (adbc_error, nat) result) worker" where
  "sample_state q run p1 p2 done acc =
     \<lparr>queue = q, running = run, replies = (if done then [1 \<mapsto> Inr 1] else Map.empty),
      phase = (\<lambda>_. Idle)(1 := p1, 2 := p2), abandoned = (\<lambda>_. False)(2 := p2 = Returned Expired),
      alive = True, resource = (if done then 10 else 0), accepted = acc,
      executed = (if done then [1] else [])\<rparr>"

lemma sample_steps:
  fixes init :: "(nat, (adbc_error, nat) result) worker \<Rightarrow> bool"
  shows
  "worker_start 0 (sample_state [] None Idle Idle False [])"
  "worker_step sample_op (sample_state [] None Idle Idle False [])
     (sample_state [1] None Waiting Idle False [1])"
  "worker_step sample_op (sample_state [1] None Waiting Idle False [1])
     (sample_state [1, 2] None Waiting Waiting False [1, 2])"
  "worker_step sample_op (sample_state [1, 2] None Waiting Waiting False [1, 2])
     (sample_state [1, 2] None Waiting Expiring False [1, 2])"
  "worker_step sample_op (sample_state [1, 2] None Waiting Expiring False [1, 2])
     (sample_state [1, 2] None Waiting (Returned Expired) False [1, 2])"
  "worker_step sample_op (sample_state [1, 2] None Waiting (Returned Expired) False [1, 2])
     (sample_state [2] (Some 1) Waiting (Returned Expired) False [1, 2])"
  "worker_step sample_op (sample_state [2] (Some 1) Waiting (Returned Expired) False [1, 2])
     (sample_state [2] None Waiting (Returned Expired) True [1, 2])"
  "worker_step sample_op (sample_state [2] None Waiting (Returned Expired) True [1, 2])
     (sample_state [] None Waiting (Returned Expired) True [1, 2])"
  "worker_step sample_op (sample_state [] None Waiting (Returned Expired) True [1, 2])
     (sample_state [] None (Returned (Reply (Inr 1))) (Returned Expired) True [1, 2])"
  subgoal by (simp add: worker_start_def sample_state_def fun_eq_iff)
  subgoal
    using submit [of "sample_state [] None Idle Idle False []" 1 sample_op]
    by (simp add: sample_state_def channel_capacity_def fun_upd_twist)
  subgoal
    using submit [of "sample_state [1] None Waiting Idle False [1]" 2 sample_op]
    by (simp add: sample_state_def channel_capacity_def)
  subgoal
    using expire [of "sample_state [1, 2] None Waiting Waiting False [1, 2]" 2 sample_op]
    by (simp add: sample_state_def)
  subgoal
    using abandon [of "sample_state [1, 2] None Waiting Expiring False [1, 2]" 2 sample_op]
    by (simp add: sample_state_def)
  subgoal
    using take [of "sample_state [1, 2] None Waiting (Returned Expired) False [1, 2]" 1 "[2]"]
    by (simp add: sample_state_def)
  subgoal
    using finish [of "sample_state [2] (Some 1) Waiting (Returned Expired) False [1, 2]" 1
        sample_op "Inr 1" 10]
    by (simp add: sample_state_def sample_op_def)
  subgoal
    using take_abandoned [of "sample_state [2] None Waiting (Returned Expired) True [1, 2]" 2 "[]"]
    by (simp add: sample_state_def)
  subgoal
    using receive [of "sample_state [] None Waiting (Returned Expired) True [1, 2]" 1 "Inr 1"]
    by (simp add: sample_state_def fun_upd_twist)
  done

lemma sample_reaches:
  "reaches (worker_start 0) (worker_step sample_op)
     (sample_state [] None (Returned (Reply (Inr 1))) (Returned Expired) True [1, 2])"
proof -
  note step = reaches_step [where init = "worker_start 0" and step = "worker_step sample_op"]
  note init = reaches_init [where init = "worker_start 0" and step = "worker_step sample_op"]
  from step [OF step [OF step [OF step [OF init [OF sample_steps(1)] sample_steps(2)]
      sample_steps(3)] sample_steps(4)] sample_steps(5)]
  have "reaches (worker_start 0) (worker_step sample_op)
     (sample_state [1, 2] None Waiting (Returned Expired) False [1, 2])" .
  from step [OF step [OF step [OF step [OF this sample_steps(6)] sample_steps(7)]
      sample_steps(8)] sample_steps(9)]
  show ?thesis .
qed

theorem worker_refines_sequential_calls_witness:
  "let w = sample_state [] None (Returned (Reply (Inr 1))) (Returned Expired) True [1, 2]
   in resource w = replay 9 sample_op w [1, 2] 0 \<and> resource w = 10
      \<and> call_value 9 w 2 = Inl (timeout [Lit ''downstream operation exceeded '', Dur 9])"
  using worker_refines_sequential_calls [OF sample_reaches, of 9]
  by (simp add: sample_state_def quiescent_def call_value_def)

text \<open>
  C23: a call whose deadline passed before the thread took its job never takes effect: in every
  continuation of the run the abandoned job stays unexecuted.
\<close>

theorem abandoned_job_never_runs:
  assumes "reaches (worker_start s0) (worker_step op) w" and "(worker_step op)\<^sup>*\<^sup>* w w'"
    and "phase w j = Returned Expired" and "j \<notin> set (executed w)" and "running w \<noteq> Some j"
  shows "j \<notin> set (executed w')"
proof -
  have inv: "worker_inv op s0 w" using assms(1) by (rule session_worker.inv_reaches)
  then have "abandoned w j" using assms(3) unfolding worker_inv_def by blast
  with assms(4,5) have start: "abandoned w j \<and> j \<notin> set (executed w) \<and> running w \<noteq> Some j"
    by blast
  have "abandoned v j \<and> j \<notin> set (executed v) \<and> running v \<noteq> Some j"
    if "worker_step op u v" and "abandoned u j \<and> j \<notin> set (executed u) \<and> running u \<noteq> Some j" for u v
    using that by (induction rule: worker_step.induct) auto
  with assms(2) start have "abandoned w' j \<and> j \<notin> set (executed w') \<and> running w' \<noteq> Some j"
    by (induction rule: rtranclp_induct) blast+
  then show ?thesis by blast
qed

theorem abandoned_job_never_runs_witness:
  "2 \<notin> set (executed
     (sample_state [] None (Returned (Reply (Inr 1))) (Returned Expired) True [1, 2]))"
proof -
  let ?w = "sample_state [] None (Returned (Reply (Inr 1))) (Returned Expired) True [1, 2]"
  show ?thesis
    by (rule abandoned_job_never_runs [OF sample_reaches, of ?w])
      (simp_all add: sample_state_def)
qed

end
