(* ===== verification/Result_Entry.thy ===== *)
theory Result_Entry
  imports Adbc
begin

text \<open>
  A server-side result cursor: \<open>ResultEntry\<close> of \<open>crates/grainlift-server/src/session.rs\<close>.
  The downstream reader is a parameter: \<open>rnext\<close> is one call of its iterator, \<open>from_arrow\<close> the
  conversion of its errors. Sequence numbers are 64-bit words, so the increment wraps as it does in a
  release build.
\<close>

subsection \<open>The entry and its step\<close>

record ('r, 'b, 'sch) result_entry =
  owner_statement_id :: "string option"
  reader :: 'r
  re_schema :: 'sch
  next_sequence :: i64
  last_batch :: "(i64 \<times> 'b) option"
  terminal_error :: "(i64 \<times> adbc_error) option"
  finished :: bool

definition fresh_result :: "string option \<Rightarrow> 'r \<Rightarrow> 'sch \<Rightarrow> ('r, 'b, 'sch) result_entry" where
  "fresh_result owner r sch =
     \<lparr>owner_statement_id = owner, reader = r, re_schema = sch, next_sequence = 0,
      last_batch = None, terminal_error = None, finished = False\<rparr>"

definition invalid_sequence :: "i64 \<Rightarrow> i64 \<Rightarrow> adbc_error" where
  "invalid_sequence expected got =
     with_message_and_status
       [Lit ''invalid result sequence: expected '', Num (sint expected), Lit '', got '',
        Num (sint got)] InvalidState"

text \<open>
  \<open>ResultEntry::next\<close>: replay of the last batch, replay of the terminal error, the sequence
  check, the finished check, and one pull of the reader, in the order of the source.
\<close>

definition result_next ::
  "('x \<Rightarrow> adbc_error) \<Rightarrow> ('r \<Rightarrow> ('x + 'b) option \<times> 'r) \<Rightarrow> i64 \<Rightarrow>
   ('r, 'b, 'sch) result_entry \<Rightarrow>
   (adbc_error, 'b option) result \<times> ('r, 'b, 'sch) result_entry" where
  "result_next from_arrow rnext sequence e =
     (if map_option fst (last_batch e) = Some sequence
      then (Inr (map_option snd (last_batch e)), e)
      else if map_option fst (terminal_error e) = Some sequence
      then (Inl (snd (the (terminal_error e))), e)
      else if sequence \<noteq> next_sequence e
      then (Inl (invalid_sequence (next_sequence e) sequence), e)
      else if finished e then (Inr None, e)
      else
        (case rnext (reader e) of
           (Some (Inr batch), r') \<Rightarrow>
             (Inr (Some batch),
              e\<lparr>reader := r', last_batch := Some (sequence, batch),
                next_sequence := next_sequence e + 1\<rparr>)
         | (Some (Inl err), r') \<Rightarrow>
             (Inl (from_arrow err),
              e\<lparr>reader := r', terminal_error := Some (sequence, from_arrow err),
                finished := True\<rparr>)
         | (None, r') \<Rightarrow>
             (Inr None, e\<lparr>reader := r', finished := True, last_batch := None\<rparr>)))"

text \<open>A client's sequence of requests against one entry.\<close>

fun run_results ::
  "('x \<Rightarrow> adbc_error) \<Rightarrow> ('r \<Rightarrow> ('x + 'b) option \<times> 'r) \<Rightarrow> i64 list \<Rightarrow>
   ('r, 'b, 'sch) result_entry \<Rightarrow>
   (adbc_error, 'b option) result list \<times> ('r, 'b, 'sch) result_entry" where
  "run_results from_arrow rnext [] e = ([], e)"
| "run_results from_arrow rnext (s # ss) e =
     (let (r, e') = result_next from_arrow rnext s e;
          (rs, e'') = run_results from_arrow rnext ss e'
      in (r # rs, e''))"

text \<open>The abstract view: the items the reader produces, one pull after the other.\<close>

fun pulls :: "('r \<Rightarrow> 'i \<times> 'r) \<Rightarrow> nat \<Rightarrow> 'r \<Rightarrow> 'r" where
  "pulls rnext 0 r = r"
| "pulls rnext (Suc n) r = snd (rnext (pulls rnext n r))"

definition item :: "('r \<Rightarrow> 'i \<times> 'r) \<Rightarrow> 'r \<Rightarrow> nat \<Rightarrow> 'i" where
  "item rnext r n = fst (rnext (pulls rnext n r))"

text \<open>A reader over a list, the instance the witnesses evaluate.\<close>

fun list_next :: "'i list \<Rightarrow> 'i option \<times> 'i list" where
  "list_next [] = (None, [])"
| "list_next (i # is) = (Some i, is)"

subsection \<open>Case analysis and retries\<close>

lemma result_next_cases:
  assumes "result_next fa rnext s e = (r, e')"
  obtains
    (replay) b where "last_batch e = Some (s, b)" "r = Inr (Some b)" "e' = e"
  | (replay_error) x where "map_option fst (last_batch e) \<noteq> Some s"
      "terminal_error e = Some (s, x)" "r = Inl x" "e' = e"
  | (out_of_order) "map_option fst (last_batch e) \<noteq> Some s"
      "map_option fst (terminal_error e) \<noteq> Some s" "s \<noteq> next_sequence e"
      "r = Inl (invalid_sequence (next_sequence e) s)" "e' = e"
  | (over) "map_option fst (last_batch e) \<noteq> Some s"
      "map_option fst (terminal_error e) \<noteq> Some s" "s = next_sequence e"
      "finished e" "r = Inr None" "e' = e"
  | (batch) b r' where "s = next_sequence e" "\<not> finished e"
      "rnext (reader e) = (Some (Inr b), r')" "r = Inr (Some b)"
      "e' = e\<lparr>reader := r', last_batch := Some (s, b), next_sequence := next_sequence e + 1\<rparr>"
  | (failure) x r' where "map_option fst (last_batch e) \<noteq> Some s"
      "s = next_sequence e" "\<not> finished e"
      "rnext (reader e) = (Some (Inl x), r')" "r = Inl (fa x)"
      "e' = e\<lparr>reader := r', terminal_error := Some (s, fa x), finished := True\<rparr>"
  | (eof) r' where "map_option fst (terminal_error e) \<noteq> Some s"
      "s = next_sequence e" "\<not> finished e"
      "rnext (reader e) = (None, r')" "r = Inr None"
      "e' = e\<lparr>reader := r', finished := True, last_batch := None\<rparr>"
proof -
  note eq = assms [unfolded result_next_def]
  show ?thesis
  proof (cases "map_option fst (last_batch e) = Some s")
    case True
    with eq replay show ?thesis by (cases "last_batch e") auto
  next
    case nl: False
    show ?thesis
    proof (cases "map_option fst (terminal_error e) = Some s")
      case True
      with eq nl replay_error show ?thesis by (cases "terminal_error e") auto
    next
      case nt: False
      show ?thesis
      proof (cases "s = next_sequence e \<and> \<not> finished e")
        case False
        show ?thesis
        proof (cases "s = next_sequence e")
          case True
          from eq nl nt True False show ?thesis by (intro over) auto
        next
          case False
          with eq nl nt show ?thesis by (intro out_of_order) auto
        qed
      next
        case True
        obtain i r' where i: "rnext (reader e) = (i, r')" by fastforce
        show ?thesis
        proof (cases i)
          case None
          with eq nl nt True i show ?thesis by (intro eof) auto
        next
          case (Some v)
          with eq nl nt True i show ?thesis by (cases v) (auto intro: failure batch)
        qed
      qed
    qed
  qed
qed

lemma result_next_replay: "last_batch e = Some (s, b) \<Longrightarrow> result_next fa rnext s e = (Inr (Some b), e)"
  by (simp add: result_next_def)

lemma result_next_replay_error:
  "map_option fst (last_batch e) \<noteq> Some s \<Longrightarrow> terminal_error e = Some (s, x) \<Longrightarrow>
   result_next fa rnext s e = (Inl x, e)"
  by (simp add: result_next_def)

lemma result_next_over:
  "map_option fst (last_batch e) \<noteq> Some s \<Longrightarrow> map_option fst (terminal_error e) \<noteq> Some s \<Longrightarrow>
   s = next_sequence e \<Longrightarrow> finished e \<Longrightarrow> result_next fa rnext s e = (Inr None, e)"
  by (simp add: result_next_def)

lemma result_next_idempotent:
  assumes "result_next fa rnext s e = (r, e')"
  shows "result_next fa rnext s e' = (r, e')"
  using assms
proof (cases rule: result_next_cases)
  case (batch b r')
  then show ?thesis by (auto intro!: result_next_replay)
next
  case (failure x r')
  then show ?thesis by (auto intro!: result_next_replay_error)
next
  case (eof r')
  then show ?thesis by (auto intro!: result_next_over)
qed (use assms in auto)

subsection \<open>The cursor tracks its reader\<close>

text \<open>
  After \<open>n\<close> delivered batches the cursor expects sequence \<open>n\<close>, remembers the batch before it,
  and has pulled the reader \<open>n\<close> times, or once more when the stream is over.
\<close>

definition tracks ::
  "('r \<Rightarrow> ('x + 'b) option \<times> 'r) \<Rightarrow> 'r \<Rightarrow> nat \<Rightarrow> ('r, 'b, 'sch) result_entry \<Rightarrow> bool" where
  "tracks rnext r0 n e \<longleftrightarrow>
     next_sequence e = of_nat n
     \<and> (\<forall>s b. last_batch e = Some (s, b) \<longrightarrow>
          (\<exists>m. n = Suc m \<and> s = of_nat m \<and> item rnext r0 m = Some (Inr b)))
     \<and> (\<forall>s x. terminal_error e = Some (s, x) \<longrightarrow> s = of_nat n \<and> finished e)
     \<and> reader e = pulls rnext (if finished e then Suc n else n) r0"

lemma tracks_fresh: "tracks rnext r0 0 (fresh_result owner r0 sch)"
  by (simp add: tracks_def fresh_result_def)

lemma result_next_tracks:
  assumes "tracks rnext r0 n e" and "result_next fa rnext s e = (r, e')"
  shows "\<exists>n'. (n' = n \<or> n' = Suc n) \<and> tracks rnext r0 n' e'
    \<and> (\<forall>b. r = Inr (Some b) \<longrightarrow>
         (\<exists>m. n' = Suc m \<and> s = of_nat m \<and> item rnext r0 m = Some (Inr b)))"
  using assms(2)
proof (cases rule: result_next_cases)
  case (replay b)
  with assms(1) show ?thesis by (intro exI [of _ n]) (auto simp: tracks_def)
next
  case (batch b r')
  with assms(1) show ?thesis
    by (intro exI [of _ "Suc n"]) (auto simp: tracks_def item_def)
next
  case (failure x r')
  with assms(1) show ?thesis by (intro exI [of _ n]) (auto simp: tracks_def)
next
  case (eof r')
  with assms(1) show ?thesis by (intro exI [of _ n]) (auto simp: tracks_def)
qed (use assms(1) in auto)

lemma run_results_tracks:
  assumes "tracks rnext r0 n e" and "run_results fa rnext ss e = (rs, e')"
  shows "length rs = length ss \<and> (\<exists>n'. n' \<le> n + length ss \<and> tracks rnext r0 n' e')
    \<and> (\<forall>i b. i < length ss \<longrightarrow> rs ! i = Inr (Some b) \<longrightarrow>
         (\<exists>m. m < n + length ss \<and> ss ! i = of_nat m \<and> item rnext r0 m = Some (Inr b)))"
  using assms
proof (induction ss arbitrary: n e rs)
  case Nil
  then show ?case by auto
next
  case (Cons s ss)
  obtain r e1 where step: "result_next fa rnext s e = (r, e1)" by fastforce
  obtain rs1 where rest: "run_results fa rnext ss e1 = (rs1, e')" and rs: "rs = r # rs1"
    using Cons.prems(2) step by (auto split: prod.splits)
  obtain n1 where n1: "n1 = n \<or> n1 = Suc n" and tr: "tracks rnext r0 n1 e1"
    and hd_ok: "\<And>b. r = Inr (Some b) \<Longrightarrow>
      \<exists>m. n1 = Suc m \<and> s = of_nat m \<and> item rnext r0 m = Some (Inr b)"
    using result_next_tracks [OF Cons.prems(1) step] by blast
  note IH = Cons.IH [OF tr rest]
  have "\<exists>m < n + length (s # ss). (s # ss) ! i = of_nat m \<and> item rnext r0 m = Some (Inr b)"
    if "i < length (s # ss)" and "rs ! i = Inr (Some b)" for i b
  proof (cases i)
    case 0
    with that rs obtain m where "n1 = Suc m" "s = of_nat m" "item rnext r0 m = Some (Inr b)"
      using hd_ok [of b] by auto
    with 0 n1 show ?thesis by (intro exI [of _ m]) auto
  next
    case (Suc j)
    with that rs IH obtain m where "m < n1 + length ss" "ss ! j = of_nat m"
      "item rnext r0 m = Some (Inr b)"
      by auto
    with Suc n1 show ?thesis by (intro exI [of _ m]) auto
  qed
  moreover have "\<exists>n'. n' \<le> n + length (s # ss) \<and> tracks rnext r0 n' e'"
  proof -
    from IH obtain n' where "n' \<le> n1 + length ss" "tracks rnext r0 n' e'" by blast
    with n1 show ?thesis by (intro exI [of _ n']) auto
  qed
  ultimately show ?case using IH rs by auto
qed

lemma result_next_live:
  assumes "tracks rnext r0 n e" and "\<not> finished e"
  shows "result_next fa rnext (of_nat n) e =
    (case rnext (reader e) of
       (Some (Inr b), r') \<Rightarrow> (Inr (Some b), e\<lparr>reader := r', last_batch := Some (of_nat n, b),
           next_sequence := of_nat (Suc n)\<rparr>)
     | (Some (Inl x), r') \<Rightarrow> (Inl (fa x), e\<lparr>reader := r',
           terminal_error := Some (of_nat n, fa x), finished := True\<rparr>)
     | (None, r') \<Rightarrow> (Inr None, e\<lparr>reader := r', finished := True, last_batch := None\<rparr>))"
proof -
  have "map_option fst (last_batch e) \<noteq> Some (of_nat n)"
    using assms(1) by (auto simp: tracks_def)
  moreover have "terminal_error e = None"
    using assms by (cases "terminal_error e") (auto simp: tracks_def)
  moreover have "next_sequence e = of_nat n"
    using assms(1) by (simp add: tracks_def)
  ultimately show ?thesis
    using assms(2) unfolding result_next_def
    by (cases "rnext (reader e)") (auto simp: add.commute split: option.split sum.split)
qed

lemma result_next_batch:
  assumes "tracks rnext r0 n e" and "\<not> finished e" and "item rnext r0 n = Some (Inr b)"
  shows "\<exists>e'. result_next fa rnext (of_nat n) e = (Inr (Some b), e')
    \<and> tracks rnext r0 (Suc n) e' \<and> \<not> finished e'"
proof -
  have "reader e = pulls rnext n r0" using assms(1,2) by (simp add: tracks_def)
  with assms(3) obtain r' where "rnext (reader e) = (Some (Inr b), r')"
    by (metis item_def prod.collapse)
  with assms result_next_live [OF assms(1,2), of fa] show ?thesis
    using \<open>reader e = _\<close> by (auto simp: tracks_def item_def)
qed

lemma run_results_append:
  "run_results fa rnext (ss @ ts) e =
     (let (rs, e') = run_results fa rnext ss e; (qs, e'') = run_results fa rnext ts e'
      in (rs @ qs, e''))"
  by (induction ss arbitrary: e) (auto split: prod.splits)

lemma run_results_stream:
  assumes "\<And>i. i < n \<Longrightarrow> item rnext r0 i = Some (Inr (f i))"
  shows "\<exists>e'. run_results fa rnext (map of_nat [0..<n]) (fresh_result owner r0 sch) =
      (map (\<lambda>i. Inr (Some (f i))) [0..<n], e') \<and> tracks rnext r0 n e' \<and> \<not> finished e'"
  using assms
proof (induction n)
  case 0
  then show ?case
    using tracks_fresh [of rnext r0 owner sch] by (simp add: fresh_result_def)
next
  case (Suc n)
  then obtain e' where pre: "run_results fa rnext (map of_nat [0..<n]) (fresh_result owner r0 sch) =
      (map (\<lambda>i. Inr (Some (f i))) [0..<n], e')" "tracks rnext r0 n e'" "\<not> finished e'"
    by auto
  obtain e2 where "result_next fa rnext (of_nat n) e' = (Inr (Some (f n)), e2)"
    "tracks rnext r0 (Suc n) e2" "\<not> finished e2"
    using result_next_batch [OF pre(2,3)] Suc.prems by blast
  with pre show ?case by (simp add: run_results_append)
qed

lemma run_results_repeat:
  assumes "result_next fa rnext s e = (r, e')"
  shows "run_results fa rnext (replicate (Suc k) s) e = (replicate (Suc k) r, e')"
  using assms
proof (induction k arbitrary: e)
  case 0
  then show ?case by simp
next
  case (Suc k)
  from Suc.IH [OF result_next_idempotent [OF Suc.prems]] Suc.prems show ?case by simp
qed

subsection \<open>Properties\<close>

text \<open>
  C13: whatever requests a client has sent before (retries, gaps, stale or future sequence
  numbers), a batch the cursor returns for sequence number \<open>s\<close> is the batch number \<open>s\<close> of the
  downstream reader: nothing is skipped, reordered or delivered under another number.
\<close>

theorem cursor_never_misnumbers:
  assumes "run_results fa rnext ss (fresh_result owner r0 sch) = (rs, e')"
    and "length ss < 2 ^ 64" and "i < length ss" and "rs ! i = Inr (Some b)"
  shows "item rnext r0 (unat (ss ! i)) = Some (Inr b)"
proof -
  from run_results_tracks [OF tracks_fresh assms(1)] assms(3,4)
  obtain m where m: "m < length ss" "ss ! i = of_nat m" "item rnext r0 m = Some (Inr b)"
    by auto
  from m(1) assms(2) have "unat (of_nat m :: i64) = m"
    by (simp add: unat_of_nat)
  with m show ?thesis by simp
qed

theorem cursor_never_misnumbers_witness:
  "item list_next [Inr CHR ''a'', Inr CHR ''b'' :: nat + char] (unat (1 :: i64)) =
     Some (Inr CHR ''b'')"
proof -
  let ?ss = "[0, 0, 5, 1] :: i64 list"
  have run: "run_results (\<lambda>_. with_message_and_status [] IO) list_next ?ss
      (fresh_result None [Inr CHR ''a'', Inr CHR ''b'' :: nat + char] ()) =
    ([Inr (Some CHR ''a''), Inr (Some CHR ''a''), Inl (invalid_sequence 1 5),
      Inr (Some CHR ''b'')],
     \<lparr>owner_statement_id = None, reader = [], re_schema = (), next_sequence = 2,
      last_batch = Some (1, CHR ''b''), terminal_error = None, finished = False\<rparr>)"
    by (simp add: result_next_def fresh_result_def)
  show ?thesis
    using cursor_never_misnumbers [OF run, of 3 "CHR ''b''"] by simp
qed



end
