(* ===== verification/Bind_Upload.thy ===== *)
theory Bind_Upload
  imports Worker Result_Entry
begin

text \<open>
  The bind-upload actor of \<open>crates/grainlift-server/src/bind_upload.rs\<close>: parameter batches are
  staged one at a time in an anonymous file and acknowledged after the write; the first error
  is terminal; the finished upload is an owned reader over the file. Arrow's stream writer and
  reader and the operating system's file are parameters, collected in the record
  \<open>arrow_stream\<close>.
\<close>

subsection \<open>The counting file\<close>

record 'f counting_file =
  cf_file :: 'f
  written :: nat

text \<open>\<open>Write for CountingFile\<close>: \<open>fwrite\<close> is the file's own write, which may be partial.\<close>

definition counting_write ::
  "(bytes \<Rightarrow> 'f \<Rightarrow> (string, nat) result \<times> 'f) \<Rightarrow> bytes \<Rightarrow> 'f counting_file \<Rightarrow>
   (string, nat) result \<times> 'f counting_file" where
  "counting_write fwrite buf c =
     (case fwrite buf (cf_file c) of
        (Inl e, f') \<Rightarrow> (Inl e, c\<lparr>cf_file := f'\<rparr>)
      | (Inr count, f') \<Rightarrow>
          (Inr count, c\<lparr>cf_file := f', written := saturating_add (written c) count\<rparr>))"

fun counting_writes ::
  "(bytes \<Rightarrow> 'f \<Rightarrow> (string, nat) result \<times> 'f) \<Rightarrow> bytes list \<Rightarrow> 'f counting_file \<Rightarrow>
   nat list \<times> 'f counting_file" where
  "counting_writes fwrite [] c = ([], c)"
| "counting_writes fwrite (b # bs) c =
     (let (r, c') = counting_write fwrite b c; (ns, c'') = counting_writes fwrite bs c'
      in ((case r of Inl _ \<Rightarrow> 0 | Inr n \<Rightarrow> n) # ns, c''))"

text \<open>\<open>Read\<close>, \<open>Seek\<close> and \<open>flush\<close> of the counting file go to the file and keep the counter.\<close>

definition counting_pass ::
  "('f \<Rightarrow> (string, 'a) result \<times> 'f) \<Rightarrow> 'f counting_file \<Rightarrow>
   (string, 'a) result \<times> 'f counting_file" where
  "counting_pass fop c = (case fop (cf_file c) of (r, f') \<Rightarrow> (r, c\<lparr>cf_file := f'\<rparr>))"

subsection \<open>The actor\<close>

record ('w, 'b, 'f, 'r) arrow_stream =
  sw_write :: "'b \<Rightarrow> 'w \<Rightarrow> (string, unit) result \<times> 'w"
  sw_ref :: "'w \<Rightarrow> 'f counting_file"
  sw_into_inner :: "'w \<Rightarrow> (string, 'f counting_file) result"
  f_rewind :: "'f counting_file \<Rightarrow> (string, 'f counting_file) result"
  sr_try_new :: "'f counting_file \<Rightarrow> (string, 'r) result"

datatype 'b command = Push 'b | Finish | Cancel

text \<open>
  The thread is in its main loop with the writer, the number of staged batches and the
  terminal error, in the loop of \<open>fail_all\<close>, or gone.
\<close>

datatype 'w upload =
    Staging (writer: 'w) (batches: nat) (terminal: "adbc_error option")
  | Failing adbc_error
  | Closed

datatype 'r reply = Pushed "(adbc_error, unit) result" | Finished "(adbc_error, 'r) result" | NoReply

definition invalid_state :: "message \<Rightarrow> adbc_error" where
  "invalid_state m = with_message_and_status m InvalidState"

definition io_error :: "message \<Rightarrow> adbc_error" where
  "io_error m = with_message_and_status m IO"

definition bind_limit_error :: "nat \<Rightarrow> nat \<Rightarrow> adbc_error" where
  "bind_limit_error max_bytes actual =
     invalid_data [Lit ''bind stream exceeds the '', Num (int max_bytes), Lit '' byte limit ('',
       Num (int actual), Lit '' bytes)'']"

text \<open>\<open>run\<close> up to its loop: the temporary file and the stream writer may fail to open.\<close>

definition run_open :: "(string, 'f) result \<Rightarrow> ('f \<Rightarrow> (string, 'w) result) \<Rightarrow> 'w upload" where
  "run_open tempfile try_new =
     (case tempfile of
        Inl e \<Rightarrow> Failing (io_error [Lit ''create bind upload file: '', Str e])
      | Inr f \<Rightarrow>
          (case try_new f of
             Inl e \<Rightarrow> Failing (invalid_data [Lit ''initialize bind upload: '', Str e])
           | Inr w \<Rightarrow> Staging w 0 None))"

definition finish_reader ::
  "('w, 'b, 'f, 'r) arrow_stream \<Rightarrow> nat \<Rightarrow> 'w \<Rightarrow> (adbc_error, 'r) result" where
  "finish_reader A max_bytes w =
     try_bind
       (map_err (\<lambda>e. invalid_data [Lit ''finish bind upload: '', Str e]) (sw_into_inner A w))
       (\<lambda>f. if written f > max_bytes then Inl (bind_limit_error max_bytes (written f))
            else
              try_bind
                (map_err (\<lambda>e. io_error [Lit ''rewind bind upload: '', Str e]) (f_rewind A f))
                (\<lambda>f'. map_err (\<lambda>e. invalid_data [Lit ''open staged bind stream: '', Str e])
                   (sr_try_new A f')))"

text \<open>One command of the loops \<open>run\<close> and \<open>fail_all\<close>.\<close>

fun handle_command ::
  "('w, 'b, 'f, 'r) arrow_stream \<Rightarrow> nat \<Rightarrow> 'b command \<Rightarrow> 'w upload \<Rightarrow> 'r reply \<times> 'w upload" where
  "handle_command A max_bytes c Closed = (NoReply, Closed)"
| "handle_command A max_bytes (Push b) (Failing e) = (Pushed (Inl e), Failing e)"
| "handle_command A max_bytes Finish (Failing e) = (Finished (Inl e), Closed)"
| "handle_command A max_bytes Cancel (Failing e) = (NoReply, Closed)"
| "handle_command A max_bytes (Push b) (Staging w n (Some e)) =
     (Pushed (Inl e), Staging w n (Some e))"
| "handle_command A max_bytes (Push b) (Staging w n None) =
     (case sw_write A b w of
        (Inl t, w') \<Rightarrow>
          (let e = invalid_data [Lit ''stage bind batch: '', Str t]
           in (Pushed (Inl e), Staging w' n (Some e)))
      | (Inr _, w') \<Rightarrow>
          (let actual = written (sw_ref A w')
           in if actual > max_bytes
              then (let e = bind_limit_error max_bytes actual
                    in (Pushed (Inl e), Staging w' n (Some e)))
              else (Pushed (Inr ()), Staging w' (n + 1) None)))"
| "handle_command A max_bytes Finish (Staging w n (Some e)) = (Finished (Inl e), Closed)"
| "handle_command A max_bytes Finish (Staging w n None) =
     (Finished (finish_reader A max_bytes w), Closed)"
| "handle_command A max_bytes Cancel (Staging w n t) = (NoReply, Closed)"

text \<open>The loop \<open>fail_all\<close> over the commands that arrive: what it replies to them.\<close>

fun fail_all :: "adbc_error \<Rightarrow> 'b command list \<Rightarrow> 'r reply list" where
  "fail_all e [] = []"
| "fail_all e (Push b # cs) = Pushed (Inl e) # fail_all e cs"
| "fail_all e (Finish # cs) = [Finished (Inl e)]"
| "fail_all e (Cancel # cs) = []"

subsection \<open>The handle\<close>

text \<open>\<open>BindUpload::start\<close>, with whether the thread could be spawned.\<close>

definition upload_start ::
  "(string, unit) result \<Rightarrow> (string, 'f) result \<Rightarrow> ('f \<Rightarrow> (string, 'w) result) \<Rightarrow>
   (adbc_error, 'w upload) result" where
  "upload_start spawn tempfile try_new =
     try_bind (map_err (\<lambda>e. io_error [Lit ''start bind upload worker: '', Str e]) spawn)
       (\<lambda>_. Inr (run_open tempfile try_new))"

definition worker_gone :: adbc_error where
  "worker_gone = invalid_state [Lit ''bind upload worker stopped'']"

definition upload_push ::
  "('w, 'b, 'f, 'r) arrow_stream \<Rightarrow> nat \<Rightarrow> 'b \<Rightarrow> 'w upload \<Rightarrow>
   (adbc_error, unit) result \<times> 'w upload" where
  "upload_push A max_bytes b u =
     (case handle_command A max_bytes (Push b) u of
        (Pushed r, u') \<Rightarrow> (r, u')
      | (_, u') \<Rightarrow> (Inl worker_gone, u'))"

text \<open>\<open>finish\<close> and \<open>cancel\<close> consume the handle.\<close>

definition upload_finish ::
  "('w, 'b, 'f, 'r) arrow_stream \<Rightarrow> nat \<Rightarrow> 'w upload \<Rightarrow> (adbc_error, 'r) result" where
  "upload_finish A max_bytes u =
     (case handle_command A max_bytes Finish u of
        (Finished r, _) \<Rightarrow> r
      | _ \<Rightarrow> Inl worker_gone)"

definition upload_cancel ::
  "('w, 'b, 'f, 'r) arrow_stream \<Rightarrow> nat \<Rightarrow> 'w upload \<Rightarrow> 'w upload" where
  "upload_cancel A max_bytes u = snd (handle_command A max_bytes Cancel u)"

text \<open>A whole upload: the batches pushed in order, with their acknowledgements.\<close>

fun upload_pushes ::
  "('w, 'b, 'f, 'r) arrow_stream \<Rightarrow> nat \<Rightarrow> 'b list \<Rightarrow> 'w upload \<Rightarrow>
   (adbc_error, unit) result list \<times> 'w upload" where
  "upload_pushes A max_bytes [] u = ([], u)"
| "upload_pushes A max_bytes (b # bs) u =
     (let (r, u') = upload_push A max_bytes b u; (rs, u'') = upload_pushes A max_bytes bs u'
      in (r # rs, u''))"

text \<open>Writing batches with the stream writer alone.\<close>

fun sw_writes :: "('w, 'b, 'f, 'r) arrow_stream \<Rightarrow> 'b list \<Rightarrow> 'w \<Rightarrow> 'w option" where
  "sw_writes A [] w = Some w"
| "sw_writes A (b # bs) w =
     (case sw_write A b w of (Inr _, w') \<Rightarrow> sw_writes A bs w' | (Inl _, _) \<Rightarrow> None)"

text \<open>
  What Arrow documents of its stream writer and reader: the reader over a finished, rewound file
  yields the batches that were written, in order.
\<close>

definition stream_round_trips ::
  "('w, 'b, 'f, 'r) arrow_stream \<Rightarrow> 'w \<Rightarrow> ('r \<Rightarrow> 'b list) \<Rightarrow> bool" where
  "stream_round_trips A w0 contents \<longleftrightarrow>
     (\<forall>xs w' f f' rd. sw_writes A xs w0 = Some w' \<longrightarrow> sw_into_inner A w' = Inr f \<longrightarrow>
        f_rewind A f = Inr f' \<longrightarrow> sr_try_new A f' = Inr rd \<longrightarrow> contents rd = xs)"

subsection \<open>The counter\<close>

lemma counting_writes_written:
  "counting_writes fwrite bs c = (ns, c') \<Longrightarrow> written c \<le> usize_max \<Longrightarrow>
   written c' = min usize_max (written c + sum_list ns)"
proof (induction bs arbitrary: c ns)
  case Nil
  then show ?case by simp
next
  case (Cons b bs)
  obtain r f' where w: "fwrite b (cf_file c) = (r, f')" by fastforce
  obtain c1 where c1: "counting_write fwrite b c = (r, c1)"
    "written c1 = min usize_max (written c + (case r of Inl _ \<Rightarrow> 0 | Inr n \<Rightarrow> n))"
    using w Cons.prems(2)
    by (cases r) (simp_all add: counting_write_def saturating_add_def)
  obtain ms where ms: "counting_writes fwrite bs c1 = (ms, c')"
    "ns = (case r of Inl _ \<Rightarrow> 0 | Inr n \<Rightarrow> n) # ms"
    using Cons.prems(1) c1(1) by (auto split: prod.splits)
  have "written c' = min usize_max (written c1 + sum_list ms)"
    using Cons.IH [OF ms(1)] c1(2) by simp
  with c1(2) ms(2) show ?case by (simp split: sum.split)
qed

text \<open>The thread that could not start its upload answers as \<open>fail_all\<close> does.\<close>

fun answers :: "('w, 'b, 'f, 'r) arrow_stream \<Rightarrow> nat \<Rightarrow> 'b command list \<Rightarrow> 'w upload \<Rightarrow> 'r reply list" where
  "answers A max_bytes [] u = []"
| "answers A max_bytes (c # cs) u =
     (case handle_command A max_bytes c u of (r, u') \<Rightarrow> r # answers A max_bytes cs u')"

lemma answers_Closed: "filter (\<lambda>r. r \<noteq> NoReply) (answers A max_bytes cs Closed) = []"
  by (induction cs) auto

lemma failing_upload_answers:
  "filter (\<lambda>r. r \<noteq> NoReply) (answers A max_bytes cs (Failing e)) = fail_all e cs"
  by (induction e cs rule: fail_all.induct) (simp_all add: answers_Closed)

subsection \<open>Pushing\<close>

lemma upload_push_cases:
  assumes "upload_push A max_bytes b u = (r, u')"
  obtains
    (staged) w n w' where "u = Staging w n None" "sw_write A b w = (Inr (), w')"
      "written (sw_ref A w') \<le> max_bytes" "r = Inr ()" "u' = Staging w' (n + 1) None"
  | (rejected) e w n where "r = Inl e" "u' = Staging w n (Some e)"
  | (failing) e where "r = Inl e" "u' = Failing e"
  | (gone) "r = Inl worker_gone" "u' = Closed"
proof (cases u)
  case (Staging w n t)
  show ?thesis
  proof (cases t)
    case None
    obtain r0 w' where w: "sw_write A b w = (r0, w')" by fastforce
    show ?thesis
      using assms Staging None w
      by (cases r0) (auto simp: upload_push_def Let_def intro: staged rejected split: if_splits)
  next
    case (Some e)
    with assms Staging show ?thesis by (auto simp: upload_push_def intro: rejected)
  qed
next
  case (Failing e)
  with assms show ?thesis by (auto simp: upload_push_def intro: failing)
next
  case Closed
  with assms show ?thesis by (auto simp: upload_push_def intro: gone)
qed

text \<open>The error an upload answers with from now on, if it has one.\<close>

fun stuck_on :: "'w upload \<Rightarrow> adbc_error option" where
  "stuck_on (Staging w n t) = t"
| "stuck_on (Failing e) = Some e"
| "stuck_on Closed = Some worker_gone"

lemma upload_push_sets_stuck: "upload_push A m b u = (Inl e, u') \<Longrightarrow> stuck_on u' = Some e"
  by (elim upload_push_cases) auto

lemma upload_push_stuck: "stuck_on u = Some e \<Longrightarrow> upload_push A m b u = (Inl e, u)"
  by (cases u) (auto simp: upload_push_def)

lemma upload_finish_stuck: "stuck_on u = Some e \<Longrightarrow> upload_finish A m u = Inl e"
  by (cases u) (auto simp: upload_finish_def)

lemma upload_pushes_stuck:
  "stuck_on u = Some e \<Longrightarrow> upload_pushes A m bs u = (replicate (length bs) (Inl e), u)"
  by (induction bs) (auto simp: upload_push_stuck)

lemma upload_pushes_acked:
  assumes "upload_pushes A m bs (Staging w n None) = (acks, u')" and "stuck_on u' = None"
  shows "acks = replicate (length bs) (Inr ())
    \<and> (\<exists>w'. sw_writes A bs w = Some w' \<and> u' = Staging w' (n + length bs) None)"
  using assms
proof (induction bs arbitrary: w n acks)
  case Nil
  then show ?case by simp
next
  case (Cons b bs)
  obtain r u1 where push: "upload_push A m b (Staging w n None) = (r, u1)" by fastforce
  obtain acks1 where rest: "upload_pushes A m bs u1 = (acks1, u')" "acks = r # acks1"
    using Cons.prems(1) push by (auto split: prod.splits)
  have live: "stuck_on u1 = None"
    using rest(1) Cons.prems(2) upload_pushes_stuck [of u1 _ A m bs]
    by (cases "stuck_on u1") auto
  from push show ?case
  proof (cases rule: upload_push_cases)
    case (staged w0 n0 w')
    with rest Cons.prems(2) Cons.IH [of w' "n + 1" acks1] show ?thesis by auto
  qed (use live in auto)
qed

lemma upload_pushes_within:
  assumes "\<And>k. k \<le> length bs \<Longrightarrow>
      \<exists>w'. sw_writes A (take k bs) w = Some w' \<and> (0 < k \<longrightarrow> written (sw_ref A w') \<le> m)"
  shows "\<exists>w'. sw_writes A bs w = Some w'
    \<and> upload_pushes A m bs (Staging w n None) =
        (replicate (length bs) (Inr ()), Staging w' (n + length bs) None)"
  using assms
proof (induction bs arbitrary: w n)
  case Nil
  then show ?case by simp
next
  case (Cons b bs)
  obtain r w1 where w1: "sw_write A b w = (r, w1)" by fastforce
  with Cons.prems [of 1] have r: "r = Inr ()" and le: "written (sw_ref A w1) \<le> m"
    by (auto split: sum.splits)
  have "\<exists>w'. sw_writes A (take k bs) w1 = Some w' \<and> (0 < k \<longrightarrow> written (sw_ref A w') \<le> m)"
    if "k \<le> length bs" for k
    using Cons.prems [of "Suc k"] that w1 r by auto
  from Cons.IH [of w1 "n + 1", OF this] w1 r le show ?case
    by (auto simp: upload_push_def Let_def)
qed

lemma upload_finish_Inr:
  assumes "upload_finish A m u = Inr rd"
  obtains w n f f' where "u = Staging w n None" "sw_into_inner A w = Inr f" "written f \<le> m"
    "f_rewind A f = Inr f'" "sr_try_new A f' = Inr rd"
proof (cases u)
  case (Staging w n t)
  with assms that show ?thesis
    by (cases t) (auto simp: upload_finish_def finish_reader_def result_iffs split: if_splits)
qed (use assms in \<open>auto simp: upload_finish_def\<close>)

subsection \<open>Properties\<close>

text \<open>
  C14: the first error of an upload is terminal. Whatever the state of the actor, once a push
  is answered with an error, every later push and the final finish answer with that same
  error, so a client that ignores an acknowledgement cannot bind a stream with a hole in it.
\<close>

theorem upload_error_is_terminal:
  assumes "upload_pushes A max_bytes bs u = (acks, u')"
    and "i < length acks" and "acks ! i = Inl e"
  shows "(\<forall>j. i \<le> j \<longrightarrow> j < length acks \<longrightarrow> acks ! j = Inl e) \<and> upload_finish A max_bytes u' = Inl e"
  using assms
proof (induction bs arbitrary: u acks i)
  case Nil
  then show ?case by simp
next
  case (Cons b bs)
  obtain r u1 where push: "upload_push A max_bytes b u = (r, u1)" by fastforce
  obtain acks1 where rest: "upload_pushes A max_bytes bs u1 = (acks1, u')" "acks = r # acks1"
    using Cons.prems(1) push by (auto split: prod.splits)
  show ?case
  proof (cases i)
    case 0
    with Cons.prems(3) rest have "r = Inl e" by simp
    with push have stuck: "stuck_on u1 = Some e" by (auto dest: upload_push_sets_stuck)
    with rest upload_pushes_stuck [OF stuck, of A max_bytes bs] \<open>r = Inl e\<close> show ?thesis
      by (auto simp: nth_Cons' upload_finish_stuck)
  next
    case (Suc k)
    with Cons.IH [OF rest(1), of k] Cons.prems rest show ?thesis
      by (auto simp: nth_Cons')
  qed
qed

text \<open>
  A concrete stream writer for the witnesses: a batch is at most 255 bytes, written through
  the counting file behind a length byte; the reader splits the file into its frames again.
\<close>

fun split_frames :: "nat \<Rightarrow> bytes \<Rightarrow> bytes list" where
  "split_frames 0 bs = []"
| "split_frames (Suc k) [] = []"
| "split_frames (Suc k) (n # bs) = take (unat n) bs # split_frames k (drop (unat n) bs)"

fun demo_write ::
  "bytes \<Rightarrow> bytes counting_file \<Rightarrow> (string, unit) result \<times> bytes counting_file" where
  "demo_write b c =
     (if length b \<ge> 256 then (Inl ''batch too large'', c)
      else (case counting_write (\<lambda>buf f. (Inr (length buf), f @ buf)) (of_nat (length b) # b) c of
              (Inl e, c') \<Rightarrow> (Inl e, c')
            | (Inr _, c') \<Rightarrow> (Inr (), c')))"

definition demo_stream :: "(bytes counting_file, bytes, bytes, bytes list) arrow_stream" where
  "demo_stream =
     \<lparr>sw_write = demo_write, sw_ref = (\<lambda>c. c), sw_into_inner = Inr, f_rewind = Inr,
      sr_try_new = (\<lambda>c. Inr (split_frames (length (cf_file c)) (cf_file c)))\<rparr>"

definition demo_open :: "bytes counting_file upload" where
  "demo_open = run_open (Inr []) (\<lambda>f. Inr \<lparr>cf_file = f, written = 0\<rparr>)"

lemma split_frames_frames:
  "list_all (\<lambda>b. length b < 256) bs \<Longrightarrow>
   length (concat (map (\<lambda>b. of_nat (length b) # b) bs)) \<le> k \<Longrightarrow>
   split_frames k (concat (map (\<lambda>b. of_nat (length b) # b) bs)) = bs"
proof (induction bs arbitrary: k)
  case Nil
  then show ?case by (cases k) auto
next
  case (Cons b bs)
  then obtain j where j: "k = Suc j" by (cases k) auto
  have "unat (of_nat (length b) :: u8) = length b"
    using Cons.prems(1) by (simp add: unat_of_nat)
  with Cons j show ?case by simp
qed

lemma demo_writes:
  "sw_writes demo_stream bs c = Some c' \<Longrightarrow>
   cf_file c' = cf_file c @ concat (map (\<lambda>b. of_nat (length b) # b) bs)
   \<and> list_all (\<lambda>b. length b < 256) bs"
proof (induction bs arbitrary: c)
  case Nil
  then show ?case by simp
next
  case (Cons b bs)
  then have "length b < 256"
    by (auto simp: demo_stream_def split: if_splits)
  with Cons.prems Cons.IH show ?case
    by (auto simp: demo_stream_def counting_write_def)
qed

lemma demo_round_trip: "stream_round_trips demo_stream \<lparr>cf_file = [], written = 0\<rparr> (\<lambda>rd. rd)"
  unfolding stream_round_trips_def
proof (intro allI impI)
  fix xs w' f f' rd
  assume w: "sw_writes demo_stream xs \<lparr>cf_file = [], written = 0\<rparr> = Some w'"
    and "sw_into_inner demo_stream w' = Inr f" "f_rewind demo_stream f = Inr f'"
    "sr_try_new demo_stream f' = Inr rd"
  then have "rd = split_frames (length (cf_file w')) (cf_file w')"
    by (simp add: demo_stream_def)
  with demo_writes [OF w] show "rd = xs" by (simp add: split_frames_frames)
qed

theorem upload_error_is_terminal_witness:
  "let (acks, u') = upload_pushes demo_stream 4 [[1], [2, 3], [4]] demo_open
   in acks = [Inr (), Inl (bind_limit_error 4 5), Inl (bind_limit_error 4 5)]
      \<and> upload_finish demo_stream 4 u' = Inl (bind_limit_error 4 5)"
proof -
  let ?e = "bind_limit_error 4 5"
  have five: "Suc (Suc (Suc (Suc (Suc 0)))) = 5" by simp
  obtain acks u' where up: "upload_pushes demo_stream 4 [[1], [2, 3], [4]] demo_open = (acks, u')"
    by fastforce
  then have acks: "acks = [Inr (), Inl ?e, Inl ?e]"
    by (simp add: demo_open_def run_open_def demo_stream_def upload_push_def counting_write_def
        saturating_add_def usize_max_def Let_def five)
  with upload_error_is_terminal [OF up, of 1 ?e] have "upload_finish demo_stream 4 u' = Inl ?e"
    by simp
  with up acks show ?thesis by simp
qed

text \<open>
  C24: a finished upload is exactly what the client pushed. If Arrow's stream reader returns
  the batches its stream writer was given, then whenever finish succeeds every push was
  acknowledged, the bytes written stayed within the limit, and the reader handed to the
  driver yields the pushed batches, all of them and in order.
\<close>

theorem upload_delivers_pushed_batches:
  assumes arrow_round_trip: "stream_round_trips A w0 contents"
    and started: "run_open tempfile try_new = Staging w0 0 None"
    and pushes: "upload_pushes A max_bytes bs (run_open tempfile try_new) = (acks, u')"
    and finish: "upload_finish A max_bytes u' = Inr rd"
  shows "acks = replicate (length bs) (Inr ()) \<and> contents rd = bs
    \<and> (\<exists>w' f. sw_writes A bs w0 = Some w' \<and> sw_into_inner A w' = Inr f \<and> written f \<le> max_bytes)"
proof -
  obtain w n f f' where u': "u' = Staging w n None" and fin: "sw_into_inner A w = Inr f"
    "written f \<le> max_bytes" "f_rewind A f = Inr f'" "sr_try_new A f' = Inr rd"
    using finish by (elim upload_finish_Inr)
  have "stuck_on u' = None" using u' by simp
  with pushes started u' have acks: "acks = replicate (length bs) (Inr ())"
    and w: "sw_writes A bs w0 = Some w"
    using upload_pushes_acked [of A max_bytes bs w0 0 acks u'] by auto
  show ?thesis
    using acks w fin arrow_round_trip by (auto simp: stream_round_trips_def)
qed

theorem upload_delivers_pushed_batches_witness:
  "let (acks, u') = upload_pushes demo_stream 100 [[1], [], [2, 3]] demo_open
   in acks = replicate 3 (Inr ()) \<and> upload_finish demo_stream 100 u' = Inr [[1], [], [2, 3]]"
proof -
  obtain acks u' where up: "upload_pushes demo_stream 100 [[1], [], [2, 3]] demo_open = (acks, u')"
    by fastforce
  then obtain rd where rd: "upload_finish demo_stream 100 u' = Inr rd"
    by (auto simp: demo_open_def run_open_def demo_stream_def upload_push_def counting_write_def
        saturating_add_def usize_max_def upload_finish_def finish_reader_def)
  have "acks = replicate 3 (Inr ()) \<and> rd = [[1], [], [2, 3]]"
    using upload_delivers_pushed_batches [of demo_stream "\<lparr>cf_file = [], written = 0\<rparr>" "\<lambda>r. r"
        "Inr []" "\<lambda>f. Inr \<lparr>cf_file = f, written = 0\<rparr>" 100 "[[1], [], [2, 3]]" acks u' rd]
      demo_round_trip up rd
    by (simp add: demo_open_def run_open_def eval_nat_numeral)
  with up rd show ?thesis by simp
qed

end
