(* ===== verification/Session.thy ===== *)
theory Session
  imports Backend Bind_Upload
begin

text \<open>
  A session (\<open>Session\<close> of \<open>crates/grainlift-server/src/session.rs\<close>): the downstream connection,
  its statements, its result cursors and its bind uploads, each table behind a mutex. Every
  operation that touches the driver runs as a job of the session worker and takes the outcome
  of its calls as an argument, so that a theorem about all outcomes covers full queues, stopped
  workers and deadlines. The downstream driver is the parameter record \<open>driver_ops\<close>; identifiers
  drawn at random are arguments.
\<close>

subsection \<open>State\<close>

datatype bind_mode = BatchMode | StreamMode

record 'w bind_upload_entry =
  bu_statement_id :: string
  bu_mode :: bind_mode
  bu_upload :: "'w upload"
  bu_max_bytes :: nat

record ('s, 'k) statement_entry =
  statement :: "'s mutex"
  cancel :: 'k

record ('c, 's, 'k, 'r, 'b, 'sch, 'w) session =
  s_principal :: string
  s_target :: string
  last_used :: "nat mutex"
  connection :: "'c mutex"
  statements :: "(string, ('s, 'k) statement_entry) hash_map mutex"
  results :: "(string, ('r, 'b, 'sch) result_entry mutex) hash_map mutex"
  bind_uploads :: "(string, 'w bind_upload_entry) hash_map mutex"
  connection_cancel :: 'k
  option_policy :: client_option_policy
  s_limits :: session_limits
  s_timeout :: nat

record ('c, 's, 'k, 'r, 'b, 'sch, 'x) driver_ops =
  d_new_statement :: "('c, adbc_error, 's) step"
  d_set_option :: "string \<Rightarrow> option_value \<Rightarrow> ('c, adbc_error, unit) step"
  d_commit :: "('c, adbc_error, unit) step"
  d_rollback :: "('c, adbc_error, unit) step"
  d_connection_cancel :: "'c \<Rightarrow> 'k"
  d_cancel_handle :: "'s \<Rightarrow> 'k"
  d_try_cancel :: "'k \<Rightarrow> (adbc_error, unit) result"
  d_bind :: "'b \<Rightarrow> ('s, adbc_error, unit) step"
  d_bind_stream :: "'r \<Rightarrow> ('s, adbc_error, unit) step"
  d_next :: "'r \<Rightarrow> ('x + 'b) option \<times> 'r"
  d_schema :: "'r \<Rightarrow> 'sch"
  d_from_arrow :: "'x \<Rightarrow> adbc_error"

abbreviation put_connection :: "'c mutex \<Rightarrow> ('c, 's, 'k, 'r, 'b, 'sch, 'w) session \<Rightarrow> _" where
  "put_connection m s \<equiv> s\<lparr>connection := m\<rparr>"

abbreviation put_statements ::
  "(string, ('s, 'k) statement_entry) hash_map mutex \<Rightarrow> ('c, 's, 'k, 'r, 'b, 'sch, 'w) session \<Rightarrow> _"
  where "put_statements m s \<equiv> s\<lparr>statements := m\<rparr>"

abbreviation put_results ::
  "(string, ('r, 'b, 'sch) result_entry mutex) hash_map mutex \<Rightarrow>
   ('c, 's, 'k, 'r, 'b, 'sch, 'w) session \<Rightarrow> _"
  where "put_results m s \<equiv> s\<lparr>results := m\<rparr>"

abbreviation put_uploads ::
  "(string, 'w bind_upload_entry) hash_map mutex \<Rightarrow> ('c, 's, 'k, 'r, 'b, 'sch, 'w) session \<Rightarrow> _"
  where "put_uploads m s \<equiv> s\<lparr>bind_uploads := m\<rparr>"

definition statements_poisoned :: adbc_error where
  "statements_poisoned = internal [Lit ''statement registry is poisoned'']"

definition results_poisoned :: adbc_error where
  "results_poisoned = internal [Lit ''result registry is poisoned'']"

definition uploads_poisoned :: adbc_error where
  "uploads_poisoned = internal [Lit ''bind upload registry is poisoned'']"

definition connection_poisoned :: adbc_error where
  "connection_poisoned = internal [Lit ''connection is poisoned'']"

subsection \<open>Connection operations\<close>

definition with_connection ::
  "call_outcome \<Rightarrow> ('c, adbc_error, 'a) step \<Rightarrow>
   (('c, 's, 'k, 'r, 'b, 'sch, 'w) session, adbc_error, 'a) step" where
  "with_connection oc operation s =
     worker_call (s_timeout s) oc
       (locked connection put_connection connection_poisoned operation) s"

definition set_connection_option ::
  "('c, 's, 'k, 'r, 'b, 'sch, 'x) driver_ops \<Rightarrow> call_outcome \<Rightarrow> string \<Rightarrow> option_value \<Rightarrow>
   (('c, 's, 'k, 'r, 'b, 'sch, 'w) session, adbc_error, unit) step" where
  "set_connection_option D oc key value s =
     (if \<not> permits (option_policy s) key
      then (Inl (with_message_and_status
              [Lit ''client connection option '', Dbg key,
               Lit (if is_protected (option_policy s) key then '' is controlled by the proxy server''
                    else '' is not allowed by the target policy'')] InvalidArguments), s)
      else with_connection oc (d_set_option D key value) s)"

definition cancel_connection ::
  "('c, 's, 'k, 'r, 'b, 'sch, 'x) driver_ops \<Rightarrow>
   ('c, 's, 'k, 'r, 'b, 'sch, 'w) session \<Rightarrow> (adbc_error, unit) result" where
  "cancel_connection D s = d_try_cancel D (connection_cancel s)"

definition commit ::
  "('c, 's, 'k, 'r, 'b, 'sch, 'x) driver_ops \<Rightarrow> call_outcome \<Rightarrow>
   (('c, 's, 'k, 'r, 'b, 'sch, 'w) session, adbc_error, unit) step" where
  "commit D oc = with_connection oc (d_commit D)"

definition rollback ::
  "('c, 's, 'k, 'r, 'b, 'sch, 'x) driver_ops \<Rightarrow> call_outcome \<Rightarrow>
   (('c, 's, 'k, 'r, 'b, 'sch, 'w) session, adbc_error, unit) step" where
  "rollback D oc = with_connection oc (d_rollback D)"

subsection \<open>Statement operations\<close>

text \<open>
  The job of \<open>new_statement\<close>: the statement registry stays locked while the connection creates
  the statement.
\<close>

definition new_statement_job ::
  "('c, 's, 'k, 'r, 'b, 'sch, 'x) driver_ops \<Rightarrow> string \<Rightarrow>
   (('c, 's, 'k, 'r, 'b, 'sch, 'w) session, adbc_error, string) step" where
  "new_statement_job D uuid s =
     (if poisoned (statements s) then (Inl statements_poisoned, s)
      else if length (inner (statements s)) \<ge> max_statements_per_session (s_limits s)
      then (Inl (quota ''statement''), s)
      else
        st_bind (locked connection put_connection connection_poisoned (d_new_statement D))
          (\<lambda>st s'.
             (Inr uuid,
              put_statements
                (store (statements s')
                   (hm_insert uuid \<lparr>statement = fresh_mutex st, cancel = d_cancel_handle D st\<rparr>
                      (inner (statements s')))) s')) s)"

definition new_statement ::
  "('c, 's, 'k, 'r, 'b, 'sch, 'x) driver_ops \<Rightarrow> call_outcome \<Rightarrow> string \<Rightarrow>
   (('c, 's, 'k, 'r, 'b, 'sch, 'w) session, adbc_error, string) step" where
  "new_statement D oc uuid s = worker_call (s_timeout s) oc (new_statement_job D uuid) s"

definition statement_job ::
  "string \<Rightarrow> ('s, adbc_error, 'a) step \<Rightarrow>
   ((string, ('s, 'k) statement_entry) hash_map, adbc_error, 'a) step" where
  "statement_job hid operation sts =
     (case hm_get sts hid of
        None \<Rightarrow> (Inl (not_found ''statement''), sts)
      | Some entry \<Rightarrow>
          (case locked statement (\<lambda>m e. e\<lparr>statement := m\<rparr>)
                  (internal [Lit ''statement is poisoned'']) operation entry of
             (r, entry') \<Rightarrow> (r, hm_insert hid entry' sts)))"

definition with_statement ::
  "call_outcome \<Rightarrow> string \<Rightarrow> ('s, adbc_error, 'a) step \<Rightarrow>
   (('c, 's, 'k, 'r, 'b, 'sch, 'w) session, adbc_error, 'a) step" where
  "with_statement oc hid operation s =
     worker_call (s_timeout s) oc
       (locked statements put_statements statements_poisoned (statement_job hid operation)) s"

definition cancel_statement ::
  "('c, 's, 'k, 'r, 'b, 'sch, 'x) driver_ops \<Rightarrow> string \<Rightarrow>
   ('c, 's, 'k, 'r, 'b, 'sch, 'w) session \<Rightarrow> (adbc_error, unit) result" where
  "cancel_statement D hid s =
     try_bind (lock statements_poisoned (statements s)) (\<lambda>sts.
     try_bind (ok_or (not_found ''statement'') (hm_get sts hid)) (\<lambda>entry.
     d_try_cancel D (cancel entry)))"

subsection \<open>Result operations\<close>

definition keeps_result :: "string \<Rightarrow> ('r, 'b, 'sch) result_entry mutex \<Rightarrow> bool" where
  "keeps_result statement_id result \<longleftrightarrow>
     \<not> poisoned result \<and> owner_statement_id (inner result) \<noteq> Some statement_id"

definition invalidate_statement_results ::
  "call_outcome \<Rightarrow> string \<Rightarrow> (('c, 's, 'k, 'r, 'b, 'sch, 'w) session, adbc_error, unit) step" where
  "invalidate_statement_results oc statement_id s =
     worker_call (s_timeout s) oc
       (locked results put_results results_poisoned
          (\<lambda>rs. (Inr (), filter (\<lambda>(_, result). keeps_result statement_id result) rs))) s"

definition insert_owned_result ::
  "('c, 's, 'k, 'r, 'b, 'sch, 'x) driver_ops \<Rightarrow> call_outcome \<Rightarrow> string \<Rightarrow> string option \<Rightarrow> 'r \<Rightarrow>
   (('c, 's, 'k, 'r, 'b, 'sch, 'w) session, adbc_error, string \<times> 'sch) step" where
  "insert_owned_result D oc uuid owner rd s =
     worker_call (s_timeout s) oc
       (locked results put_results results_poisoned
          (\<lambda>rs.
             if length rs \<ge> max_results_per_session (s_limits s) then (Inl (quota ''result''), rs)
             else (Inr (uuid, d_schema D rd),
                   hm_insert uuid (fresh_mutex (fresh_result owner rd (d_schema D rd))) rs))) s"

definition insert_result ::
  "('c, 's, 'k, 'r, 'b, 'sch, 'x) driver_ops \<Rightarrow> call_outcome \<Rightarrow> string \<Rightarrow> 'r \<Rightarrow>
   (('c, 's, 'k, 'r, 'b, 'sch, 'w) session, adbc_error, string \<times> 'sch) step" where
  "insert_result D oc uuid rd = insert_owned_result D oc uuid None rd"

definition insert_statement_result ::
  "('c, 's, 'k, 'r, 'b, 'sch, 'x) driver_ops \<Rightarrow> call_outcome \<Rightarrow> call_outcome \<Rightarrow> string \<Rightarrow> string \<Rightarrow>
   'r \<Rightarrow> (('c, 's, 'k, 'r, 'b, 'sch, 'w) session, adbc_error, string \<times> 'sch) step" where
  "insert_statement_result D oc1 oc2 uuid statement_id rd =
     st_bind (invalidate_statement_results oc1 statement_id)
       (\<lambda>_. insert_owned_result D oc2 uuid (Some statement_id) rd)"

definition result_job ::
  "string \<Rightarrow> (('r, 'b, 'sch) result_entry, adbc_error, 'a) step \<Rightarrow>
   ((string, ('r, 'b, 'sch) result_entry mutex) hash_map, adbc_error, 'a) step" where
  "result_job hid operation rs =
     (case hm_get rs hid of
        None \<Rightarrow> (Inl (not_found ''result''), rs)
      | Some result \<Rightarrow>
          (case locked (\<lambda>m. m) (\<lambda>m _. m) (internal [Lit ''result is poisoned'']) operation result of
             (r, result') \<Rightarrow> (r, hm_insert hid result' rs)))"

definition result_schema ::
  "call_outcome \<Rightarrow> string \<Rightarrow> (('c, 's, 'k, 'r, 'b, 'sch, 'w) session, adbc_error, 'sch) step" where
  "result_schema oc hid s =
     worker_call (s_timeout s) oc
       (locked results put_results results_poisoned (result_job hid (\<lambda>e. (Inr (re_schema e), e)))) s"

definition next_result ::
  "('c, 's, 'k, 'r, 'b, 'sch, 'x) driver_ops \<Rightarrow> call_outcome \<Rightarrow> string \<Rightarrow> i64 \<Rightarrow>
   (('c, 's, 'k, 'r, 'b, 'sch, 'w) session, adbc_error, 'b option) step" where
  "next_result D oc hid sequence s =
     worker_call (s_timeout s) oc
       (locked results put_results results_poisoned
          (result_job hid (result_next (d_from_arrow D) (d_next D) sequence))) s"

definition close_result ::
  "call_outcome \<Rightarrow> string \<Rightarrow> (('c, 's, 'k, 'r, 'b, 'sch, 'w) session, adbc_error, unit) step" where
  "close_result oc hid s =
     worker_call (s_timeout s) oc
       (locked results put_results results_poisoned
          (\<lambda>rs. case hm_get rs hid of
                  None \<Rightarrow> (Inl (not_found ''result''), rs)
                | Some _ \<Rightarrow> (Inr (), hm_remove hid rs))) s"

subsection \<open>Bind uploads\<close>

text \<open>\<open>start\<close> is the value of \<open>BindUpload::start\<close> for the announced schema.\<close>

definition start_bind_upload ::
  "string \<Rightarrow> string \<Rightarrow> bind_mode \<Rightarrow> (adbc_error, 'w upload) result \<Rightarrow> nat \<Rightarrow>
   (('c, 's, 'k, 'r, 'b, 'sch, 'w) session, adbc_error, string) step" where
  "start_bind_upload uuid statement_id mode start max_bytes s =
     (case lock statements_poisoned (statements s) of
        Inl e \<Rightarrow> (Inl e, s)
      | Inr sts \<Rightarrow>
          if \<not> hm_contains sts statement_id then (Inl (not_found ''statement''), s)
          else
            (case start of
               Inl e \<Rightarrow> (Inl e, s)
             | Inr upload \<Rightarrow>
                 locked bind_uploads put_uploads uploads_poisoned
                   (\<lambda>us. (Inr uuid,
                      hm_insert uuid
                        \<lparr>bu_statement_id = statement_id, bu_mode = mode, bu_upload = upload,
                         bu_max_bytes = max_bytes\<rparr> us)) s))"

definition push_bind_upload ::
  "('w, 'b, 'f, 'r) arrow_stream \<Rightarrow> string \<Rightarrow> 'b \<Rightarrow>
   (('c, 's, 'k, 'r, 'b, 'sch, 'w) session, adbc_error, unit) step" where
  "push_bind_upload A hid batch =
     locked bind_uploads put_uploads uploads_poisoned
       (\<lambda>us. case hm_get us hid of
               None \<Rightarrow> (Inl (not_found ''bind upload''), us)
             | Some entry \<Rightarrow>
                 (case upload_push A (bu_max_bytes entry) batch (bu_upload entry) of
                    (r, u') \<Rightarrow> (r, hm_insert hid (entry\<lparr>bu_upload := u'\<rparr>) us)))"

definition take_bind_upload ::
  "string \<Rightarrow> (('c, 's, 'k, 'r, 'b, 'sch, 'w) session, adbc_error, 'w bind_upload_entry) step" where
  "take_bind_upload hid =
     locked bind_uploads put_uploads uploads_poisoned
       (\<lambda>us. case hm_get us hid of
               None \<Rightarrow> (Inl (not_found ''bind upload''), us)
             | Some entry \<Rightarrow> (Inr entry, hm_remove hid us))"

definition exactly_one_batch :: adbc_error where
  "exactly_one_batch = invalid_data [Lit ''bind requires exactly one record batch'']"

text \<open>The first and only batch of the finished reader, as \<open>BindMode::Batch\<close> takes it.\<close>

definition single_batch ::
  "('c, 's, 'k, 'r, 'b, 'sch, 'x) driver_ops \<Rightarrow> 'r \<Rightarrow> (adbc_error, 'b) result" where
  "single_batch D rd =
     (case d_next D rd of
        (None, _) \<Rightarrow> Inl exactly_one_batch
      | (Some (Inl e), _) \<Rightarrow> Inl (d_from_arrow D e)
      | (Some (Inr batch), rd') \<Rightarrow>
          if fst (d_next D rd') \<noteq> None then Inl exactly_one_batch else Inr batch)"

definition finish_bind_upload ::
  "('w, 'b, 'f, 'r) arrow_stream \<Rightarrow> ('c, 's, 'k, 'r, 'b, 'sch, 'x) driver_ops \<Rightarrow> call_outcome \<Rightarrow>
   string \<Rightarrow> (('c, 's, 'k, 'r, 'b, 'sch, 'w) session, adbc_error, unit) step" where
  "finish_bind_upload A D oc hid =
     st_bind (take_bind_upload hid)
       (\<lambda>entry s.
          case upload_finish A (bu_max_bytes entry) (bu_upload entry) of
            Inl e \<Rightarrow> (Inl e, s)
          | Inr rd \<Rightarrow>
              (case bu_mode entry of
                 BatchMode \<Rightarrow>
                   (case single_batch D rd of
                      Inl e \<Rightarrow> (Inl e, s)
                    | Inr batch \<Rightarrow> with_statement oc (bu_statement_id entry) (d_bind D batch) s)
               | StreamMode \<Rightarrow>
                   with_statement oc (bu_statement_id entry) (d_bind_stream D rd) s))"

definition cancel_bind_upload ::
  "string \<Rightarrow> ('c, 's, 'k, 'r, 'b, 'sch, 'w) session \<Rightarrow> ('c, 's, 'k, 'r, 'b, 'sch, 'w) session" where
  "cancel_bind_upload hid s = snd (take_bind_upload hid s)"

subsection \<open>Closing a statement\<close>

definition remove_statement ::
  "call_outcome \<Rightarrow> string \<Rightarrow> (('c, 's, 'k, 'r, 'b, 'sch, 'w) session, adbc_error, unit) step" where
  "remove_statement oc hid s =
     worker_call (s_timeout s) oc
       (locked statements put_statements statements_poisoned
          (\<lambda>sts. case hm_get sts hid of
                   None \<Rightarrow> (Inl (not_found ''statement''), sts)
                 | Some _ \<Rightarrow> (Inr (), hm_remove hid sts))) s"

definition close_statement ::
  "call_outcome \<Rightarrow> call_outcome \<Rightarrow> string \<Rightarrow>
   (('c, 's, 'k, 'r, 'b, 'sch, 'w) session, adbc_error, unit) step" where
  "close_statement oc1 oc2 hid =
     st_bind (remove_statement oc1 hid) (\<lambda>_.
     st_bind (invalidate_statement_results oc2 hid) (\<lambda>_.
     locked bind_uploads put_uploads uploads_poisoned
       (\<lambda>us. (Inr (), filter (\<lambda>(_, entry). bu_statement_id entry \<noteq> hid) us))))"

text \<open>
  Dropping the session: the handles the cleanup thread cancels, the connection's first, and the
  uploads that are cancelled.
\<close>

definition session_drop ::
  "('c, 's, 'k, 'r, 'b, 'sch, 'w) session \<Rightarrow> 'k list \<times> 'w bind_upload_entry list" where
  "session_drop s =
     (connection_cancel s
        # (if poisoned (statements s) then [] else map (\<lambda>(_, e). cancel e) (inner (statements s))),
      if poisoned (bind_uploads s) then [] else hm_values (inner (bind_uploads s)))"

subsection \<open>The session as a state machine\<close>

text \<open>
  One step is one operation with any arguments, any driver behaviour, any random identifier and
  any outcome of its worker calls. What the driver returns does not change the state, so the
  driver operations of the first and fourth rule return nothing.
\<close>

inductive session_step ::
  "('c, 's, 'k, 'r, 'b, 'sch, 'x) driver_ops \<Rightarrow> ('w, 'b, 'f, 'r) arrow_stream \<Rightarrow>
   ('c, 's, 'k, 'r, 'b, 'sch, 'w) session \<Rightarrow> ('c, 's, 'k, 'r, 'b, 'sch, 'w) session \<Rightarrow> bool"
  for D :: "('c, 's, 'k, 'r, 'b, 'sch, 'x) driver_ops" and A :: "('w, 'b, 'f, 'r) arrow_stream"
  where
  step_connection:
    "session_step D A s (snd (with_connection oc (f :: ('c, adbc_error, unit) step) s))"
| step_set_option: "session_step D A s (snd (set_connection_option D oc key v s))"
| step_new_statement: "session_step D A s (snd (new_statement D oc uuid s))"
| step_statement:
    "session_step D A s (snd (with_statement oc hid (g :: ('s, adbc_error, unit) step) s))"
| step_close_statement: "session_step D A s (snd (close_statement oc1 oc2 hid s))"
| step_invalidate: "session_step D A s (snd (invalidate_statement_results oc hid s))"
| step_insert_result: "session_step D A s (snd (insert_result D oc uuid rd s))"
| step_statement_result: "session_step D A s (snd (insert_statement_result D oc1 oc2 uuid hid rd s))"
| step_result_schema: "session_step D A s (snd (result_schema oc hid s))"
| step_next_result: "session_step D A s (snd (next_result D oc hid n s))"
| step_close_result: "session_step D A s (snd (close_result oc hid s))"
| step_start_upload: "session_step D A s (snd (start_bind_upload uuid hid mode start m s))"
| step_push_upload: "session_step D A s (snd (push_bind_upload A hid b s))"
| step_finish_upload: "session_step D A s (snd (finish_bind_upload A D oc hid s))"
| step_cancel_upload: "session_step D A s (cancel_bind_upload hid s)"

inductive_cases session_stepE: "session_step D A s t"

text \<open>\<open>SessionManager::open\<close> creates a session with empty tables.\<close>

definition session_fresh :: "('c, 's, 'k, 'r, 'b, 'sch, 'w) session \<Rightarrow> bool" where
  "session_fresh s \<longleftrightarrow>
     statements s = fresh_mutex [] \<and> results s = fresh_mutex [] \<and> bind_uploads s = fresh_mutex []"

definition table_within :: "nat \<Rightarrow> ('k, 'v) hash_map \<Rightarrow> bool" where
  "table_within limit m \<longleftrightarrow> hm_wf m \<and> length m \<le> limit"

definition session_inv :: "('c, 's, 'k, 'r, 'b, 'sch, 'w) session \<Rightarrow> bool" where
  "session_inv s \<longleftrightarrow>
     table_within (max_statements_per_session (s_limits s)) (inner (statements s))
     \<and> table_within (max_results_per_session (s_limits s)) (inner (results s))
     \<and> hm_wf (inner (bind_uploads s))"

lemma table_within_replace:
  "table_within n m \<Longrightarrow> hm_get m k = Some v \<Longrightarrow> table_within n (hm_insert k v' m)"
  using hm_get_Some_contains [of m k v] by (auto simp: table_within_def hm_len_insert)

lemma table_within_insert: "table_within n m \<Longrightarrow> length m < n \<Longrightarrow> table_within n (hm_insert k v m)"
  by (simp add: table_within_def hm_len_insert)

lemma table_within_remove: "table_within n m \<Longrightarrow> table_within n (hm_remove k m)"
  using hm_len_remove_le [of k m] by (simp add: table_within_def)

lemma table_within_filter: "table_within n m \<Longrightarrow> table_within n (filter P m)"
  by (metis hm_wf_filter le_trans length_filter_le table_within_def)

lemmas table_intros = table_within_replace table_within_insert table_within_remove
  table_within_filter

lemma statement_job_keeps: "table_within n m \<Longrightarrow> table_within n (snd (statement_job hid g m))"
  by (auto simp: statement_job_def intro: table_intros split: option.split prod.split)

lemma result_job_keeps: "table_within n m \<Longrightarrow> table_within n (snd (result_job hid g m))"
  by (auto simp: result_job_def intro: table_intros split: option.split prod.split)

text \<open>A job that locks one table keeps the invariant if it keeps the bound of that table.\<close>

lemma locked_connection_inv:
  "session_inv s \<Longrightarrow> session_inv (snd (locked connection put_connection e f s))"
  by (auto simp: locked_def session_inv_def split: prod.split)

lemma locked_statements_inv:
  assumes "\<And>m. table_within (max_statements_per_session (s_limits s)) m \<Longrightarrow>
      table_within (max_statements_per_session (s_limits s)) (snd (f m))"
    and "session_inv s"
  shows "session_inv (snd (locked statements put_statements e f s))"
  using assms(2) assms(1) [of "inner (statements s)"]
  by (auto simp: locked_def session_inv_def split: prod.split)

lemma locked_results_inv:
  assumes "\<And>m. table_within (max_results_per_session (s_limits s)) m \<Longrightarrow>
      table_within (max_results_per_session (s_limits s)) (snd (f m))"
    and "session_inv s"
  shows "session_inv (snd (locked results put_results e f s))"
  using assms(2) assms(1) [of "inner (results s)"]
  by (auto simp: locked_def session_inv_def split: prod.split)

lemma locked_uploads_inv:
  assumes "\<And>m. hm_wf m \<Longrightarrow> hm_wf (snd (f m))" and "session_inv s"
  shows "session_inv (snd (locked bind_uploads put_uploads e f s))"
  using assms(2) assms(1) [of "inner (bind_uploads s)"]
  by (auto simp: locked_def session_inv_def split: prod.split)

lemma with_connection_inv: "session_inv s \<Longrightarrow> session_inv (snd (with_connection oc f s))"
  unfolding with_connection_def by (rule worker_call_keeps) (auto intro: locked_connection_inv)

lemma set_connection_option_inv:
  "session_inv s \<Longrightarrow> session_inv (snd (set_connection_option D oc key v s))"
  by (simp add: set_connection_option_def with_connection_inv)

lemma new_statement_inv:
  assumes "session_inv s"
  shows "session_inv (snd (new_statement D oc uuid s))"
proof -
  have "session_inv (snd (new_statement_job D uuid s))"
  proof (cases "poisoned (statements s)
      \<or> length (inner (statements s)) \<ge> max_statements_per_session (s_limits s)
      \<or> poisoned (connection s)")
    case True
    with assms show ?thesis by (auto simp: new_statement_job_def st_bind_def locked_def)
  next
    case False
    obtain r c where "d_new_statement D (inner (connection s)) = (r, c)" by fastforce
    with False assms show ?thesis
      by (cases r) (auto simp: new_statement_job_def st_bind_def locked_def session_inv_def
          intro: table_intros)
  qed
  with assms show ?thesis unfolding new_statement_def by (auto intro: worker_call_keeps)
qed

lemma with_statement_inv: "session_inv s \<Longrightarrow> session_inv (snd (with_statement oc hid g s))"
  unfolding with_statement_def
  by (rule worker_call_keeps) (auto intro: locked_statements_inv statement_job_keeps)

lemma remove_statement_inv: "session_inv s \<Longrightarrow> session_inv (snd (remove_statement oc hid s))"
  unfolding remove_statement_def
  by (rule worker_call_keeps)
    (auto intro!: locked_statements_inv split: option.split intro: table_intros)

lemma invalidate_inv: "session_inv s \<Longrightarrow> session_inv (snd (invalidate_statement_results oc hid s))"
  unfolding invalidate_statement_results_def
  by (rule worker_call_keeps) (auto intro!: locked_results_inv intro: table_intros)

lemma insert_owned_result_inv:
  "session_inv s \<Longrightarrow> session_inv (snd (insert_owned_result D oc uuid owner rd s))"
  unfolding insert_owned_result_def
  by (rule worker_call_keeps) (auto simp: not_le intro!: locked_results_inv intro: table_intros)

lemma result_op_inv:
  "session_inv s \<Longrightarrow> session_inv (snd (worker_call d oc
     (locked results put_results results_poisoned (result_job hid g)) s))"
  by (rule worker_call_keeps) (auto intro: locked_results_inv result_job_keeps)

lemma close_result_inv: "session_inv s \<Longrightarrow> session_inv (snd (close_result oc hid s))"
  unfolding close_result_def
  by (rule worker_call_keeps)
    (auto intro!: locked_results_inv split: option.split intro: table_intros)

lemma close_statement_inv: "session_inv s \<Longrightarrow> session_inv (snd (close_statement oc1 oc2 hid s))"
  unfolding close_statement_def
proof (rule st_bind_keeps [where P = session_inv])
  show "session_inv (snd (remove_statement oc1 hid s))" if "session_inv s" for s
    using that by (rule remove_statement_inv)
  show "session_inv (snd (st_bind (invalidate_statement_results oc2 hid) (\<lambda>_.
      locked bind_uploads put_uploads uploads_poisoned
        (\<lambda>us. (Inr (), filter (\<lambda>(_, entry). bu_statement_id entry \<noteq> hid) us))) s))"
    if "session_inv s" for s
    using that
    by (rule st_bind_keeps [where P = session_inv, rotated 2])
      (simp_all add: invalidate_inv locked_uploads_inv)
qed

lemma start_bind_upload_inv:
  "session_inv s \<Longrightarrow> session_inv (snd (start_bind_upload uuid hid mode start m s))"
  by (auto simp: start_bind_upload_def lock_def intro!: locked_uploads_inv split: sum.split)

lemma push_bind_upload_inv: "session_inv s \<Longrightarrow> session_inv (snd (push_bind_upload A hid b s))"
  unfolding push_bind_upload_def
  by (rule locked_uploads_inv) (auto split: option.split prod.split)

lemma take_bind_upload_inv: "session_inv s \<Longrightarrow> session_inv (snd (take_bind_upload hid s))"
  unfolding take_bind_upload_def by (rule locked_uploads_inv) (auto split: option.split)

lemma finish_bind_upload_inv: "session_inv s \<Longrightarrow> session_inv (snd (finish_bind_upload A D oc hid s))"
  unfolding finish_bind_upload_def
  by (rule st_bind_keeps)
    (auto intro: take_bind_upload_inv with_statement_inv split: sum.split bind_mode.split)

lemmas session_op_invs =
  with_connection_inv set_connection_option_inv new_statement_inv with_statement_inv
  close_statement_inv invalidate_inv insert_owned_result_inv close_result_inv
  start_bind_upload_inv push_bind_upload_inv finish_bind_upload_inv take_bind_upload_inv

lemma session_step_inv: "session_step D A s t \<Longrightarrow> session_inv s \<Longrightarrow> session_inv t"
proof (induction rule: session_step.induct)
  case (step_statement_result s oc1 oc2 uuid hid rd)
  then show ?case
    unfolding insert_statement_result_def
    by (intro st_bind_keeps [where P = session_inv]) (simp_all add: session_op_invs)
qed (simp_all add: insert_result_def result_schema_def next_result_def cancel_bind_upload_def
    session_op_invs result_op_inv)

text \<open>What no operation of the session changes: its owner, policy, limits, lease and cancel handle.\<close>

definition identity ::
  "('c, 's, 'k, 'r, 'b, 'sch, 'w) session \<Rightarrow>
   (string \<times> string) \<times> client_option_policy \<times> session_limits \<times> nat mutex \<times> 'k" where
  "identity s = ((s_principal s, s_target s), option_policy s, s_limits s, last_used s, connection_cancel s)"

lemma locked_identity [simp]:
  "identity (snd (locked connection put_connection e f s)) = identity s"
  "identity (snd (locked statements put_statements e g s)) = identity s"
  "identity (snd (locked results put_results e h s)) = identity s"
  "identity (snd (locked bind_uploads put_uploads e k s)) = identity s"
  by (simp_all add: locked_def identity_def split: prod.split)

lemma worker_call_identity:
  "(\<And>s. identity (snd (f s)) = identity s) \<Longrightarrow>
   identity (snd (worker_call d oc f s)) = identity s"
  by (simp add: worker_call_state)

lemma st_bind_identity:
  assumes "\<And>s. identity (snd (m s)) = identity s" and "\<And>a s. identity (snd (f a s)) = identity s"
  shows "identity (snd (st_bind m f s)) = identity s"
  by (rule st_bind_keeps [where P = "\<lambda>x. identity x = identity s"]) (simp_all add: assms)

lemma new_statement_identity: "identity (snd (new_statement D oc uuid s)) = identity s"
proof -
  have "identity (snd (new_statement_job D uuid s)) = identity s" for s
    by (auto simp: new_statement_job_def st_bind_def locked_def identity_def
        split: sum.split prod.split)
  then show ?thesis unfolding new_statement_def by (rule worker_call_identity)
qed

lemma simple_identity [simp]:
  "identity (snd (with_connection oc f s)) = identity s"
  "identity (snd (with_statement oc hid g s)) = identity s"
  "identity (snd (remove_statement oc hid s)) = identity s"
  "identity (snd (invalidate_statement_results oc hid s)) = identity s"
  "identity (snd (insert_owned_result D oc uuid owner rd s)) = identity s"
  "identity (snd (result_schema oc hid s)) = identity s"
  "identity (snd (next_result D oc hid n s)) = identity s"
  "identity (snd (close_result oc hid s)) = identity s"
  "identity (snd (take_bind_upload hid s)) = identity s"
  "identity (snd (push_bind_upload A hid b s)) = identity s"
  by (simp_all add: with_connection_def with_statement_def remove_statement_def
      invalidate_statement_results_def insert_owned_result_def result_schema_def next_result_def
      close_result_def take_bind_upload_def push_bind_upload_def worker_call_identity)

lemma session_step_identity: "session_step D A s t \<Longrightarrow> identity t = identity s"
proof (induction rule: session_step.induct)
  case (step_close_statement s oc1 oc2 hid)
  show ?case unfolding close_statement_def by (intro st_bind_identity) simp_all
next
  case (step_statement_result s oc1 oc2 uuid hid rd)
  show ?case unfolding insert_statement_result_def by (intro st_bind_identity) simp_all
next
  case (step_finish_upload s oc hid)
  show ?case
    unfolding finish_bind_upload_def
    by (intro st_bind_identity) (simp_all split: sum.split bind_mode.split)
next
  case (step_start_upload s uuid hid mode start m)
  show ?case by (simp add: start_bind_upload_def split: sum.split)
qed (simp_all add: set_connection_option_def new_statement_identity insert_result_def
    cancel_bind_upload_def)

interpretation session_machine:
  inductive_invariant session_fresh "session_step D A" session_inv
  for D :: "('c, 's, 'k, 'r, 'b, 'sch, 'x) driver_ops"
    and A :: "('w, 'b, 'f, 'r) arrow_stream"
proof
  show "session_inv s" if "session_fresh s" for s :: "('c, 's, 'k, 'r, 'b, 'sch, 'w) session"
    using that by (simp add: session_fresh_def session_inv_def table_within_def)
qed (rule session_step_inv)

subsection \<open>Lemmas on successful calls\<close>

lemma worker_call_Inr:
  "worker_call d oc f s = (Inr a, s') \<Longrightarrow> oc = Completed \<and> f s = (Inr a, s')"
  by (cases oc) (auto simp: worker_call_def split: prod.splits)

lemma with_statement_Inr:
  assumes "with_statement oc hid g s = (Inr a, s')"
  obtains entry st' where "oc = Completed" "\<not> poisoned (statements s)"
    "hm_get (inner (statements s)) hid = Some entry" "\<not> poisoned (statement entry)"
    "g (inner (statement entry)) = (Inr a, st')"
    "s' = put_statements (store (statements s)
       (hm_insert hid (entry\<lparr>statement := store (statement entry) st'\<rparr>) (inner (statements s)))) s"
proof -
  from worker_call_Inr [OF assms [unfolded with_statement_def]]
  have oc: "oc = Completed" and job: "locked statements put_statements statements_poisoned (statement_job hid g) s = (Inr a, s')"
    by blast+
  from job obtain m where m: "\<not> poisoned (statements s)"
    "statement_job hid g (inner (statements s)) = (Inr a, m)"
    "s' = put_statements (store (statements s) m) s"
    by (rule locked_Inr)
  from m(2) obtain entry where e: "hm_get (inner (statements s)) hid = Some entry"
    by (auto simp: statement_job_def split: option.splits)
  obtain r entry' where l: "locked statement (\<lambda>m e. e\<lparr>statement := m\<rparr>)
      (internal [Lit ''statement is poisoned'']) g entry = (r, entry')"
    by fastforce
  with m(2) e have r: "r = Inr a" and "m = hm_insert hid entry' (inner (statements s))"
    by (auto simp: statement_job_def)
  moreover from l [unfolded r] obtain st' where "\<not> poisoned (statement entry)"
    "g (inner (statement entry)) = (Inr a, st')" "entry' = entry\<lparr>statement := store (statement entry) st'\<rparr>"
    by (rule locked_Inr)
  ultimately show thesis using that oc m(1,3) e by blast
qed

lemma remove_statement_Inr:
  assumes "remove_statement oc hid s = (Inr u, s')"
  shows "\<not> poisoned (statements s) \<and> hm_contains (inner (statements s)) hid
    \<and> s' = put_statements (store (statements s) (hm_remove hid (inner (statements s)))) s"
proof -
  from worker_call_Inr [OF assms [unfolded remove_statement_def]] obtain m where
    "\<not> poisoned (statements s)" "s' = put_statements (store (statements s) m) s"
    "(case hm_get (inner (statements s)) hid of
        None \<Rightarrow> (Inl (not_found ''statement''), inner (statements s))
      | Some _ \<Rightarrow> (Inr (), hm_remove hid (inner (statements s)))) = (Inr u, m)"
    by (elim conjE locked_Inr)
  then show ?thesis
    by (auto split: option.splits dest: hm_get_Some_contains)
qed

lemma invalidate_Inr:
  assumes "invalidate_statement_results oc hid s = (Inr u, s')"
  shows "\<not> poisoned (results s)
    \<and> s' = put_results (store (results s)
             (filter (\<lambda>(_, result). keeps_result hid result) (inner (results s)))) s"
proof -
  from worker_call_Inr [OF assms [unfolded invalidate_statement_results_def]] obtain m where
    "\<not> poisoned (results s)" "s' = put_results (store (results s) m) s"
    "(Inr (), filter (\<lambda>(_, result). keeps_result hid result) (inner (results s))) = (Inr u, m)"
    by (elim conjE locked_Inr) blast
  then show ?thesis by auto
qed

lemma insert_owned_result_Inr:
  assumes "insert_owned_result D oc uuid owner rd s = (Inr (hid, sch), s')"
  shows "\<not> poisoned (results s) \<and> length (inner (results s)) < max_results_per_session (s_limits s)
    \<and> hid = uuid \<and> sch = d_schema D rd
    \<and> s' = put_results (store (results s)
             (hm_insert uuid (fresh_mutex (fresh_result owner rd (d_schema D rd)))
                (inner (results s)))) s"
proof -
  from worker_call_Inr [OF assms [unfolded insert_owned_result_def]] obtain m where
    "\<not> poisoned (results s)" "s' = put_results (store (results s) m) s"
    "(if length (inner (results s)) \<ge> max_results_per_session (s_limits s)
      then (Inl (quota ''result''), inner (results s))
      else (Inr (uuid, d_schema D rd),
         hm_insert uuid (fresh_mutex (fresh_result owner rd (d_schema D rd))) (inner (results s))))
     = (Inr (hid, sch), m)"
    by (elim conjE locked_Inr)
  then show ?thesis by (auto split: if_splits)
qed

subsection \<open>Properties\<close>

text \<open>
  C15: quotas hold in every reachable state of a session. Whatever operations clients issue, in
  whatever order, whether their worker calls complete, time out before or after taking effect,
  or find the queue full or the worker gone, the session never holds more statements or more
  results than its limits, and its handle tables never hold a handle twice.
\<close>

theorem session_quotas_hold:
  assumes "reaches session_fresh (session_step D A) s"
  shows "length (inner (statements s)) \<le> max_statements_per_session (s_limits s)
    \<and> length (inner (results s)) \<le> max_results_per_session (s_limits s)
    \<and> distinct (hm_keys (inner (statements s))) \<and> distinct (hm_keys (inner (results s)))
    \<and> distinct (hm_keys (inner (bind_uploads s)))"
proof -
  from assms have "session_inv s" by (rule session_machine.inv_reaches)
  then show ?thesis by (auto simp: session_inv_def table_within_def hm_wf_def)
qed

text \<open>
  A driver for the witnesses: a connection counts its statements, a statement remembers the
  batches bound to it, a reader is the list of its batches.
\<close>

definition demo_driver ::
  "(nat, bytes list, nat, bytes list, bytes, nat, string) driver_ops" where
  "demo_driver =
     \<lparr>d_new_statement = (\<lambda>c. (Inr [], c + 1)),
      d_set_option = (\<lambda>k v c. (Inr (), c)), d_commit = (\<lambda>c. (Inr (), c)),
      d_rollback = (\<lambda>c. (Inr (), c)), d_connection_cancel = (\<lambda>c. 1), d_cancel_handle = (\<lambda>st. 7), d_try_cancel = (\<lambda>k. Inr ()),
      d_bind = (\<lambda>b st. (Inr (), [b])), d_bind_stream = (\<lambda>rd st. (Inr (), rd)),
      d_next = (\<lambda>rd. case rd of [] \<Rightarrow> (None, []) | b # bs \<Rightarrow> (Some (Inr b), bs)),
      d_schema = length, d_from_arrow = (\<lambda>e. internal [Str e])\<rparr>"

definition demo_session ::
  "(nat, bytes list, nat, bytes list, bytes, nat, bytes counting_file) session" where
  "demo_session =
     \<lparr>s_principal = ''jwt'' @ nul # ''alice'', s_target = ''duck'', last_used = fresh_mutex 0,
      connection = fresh_mutex 0, statements = fresh_mutex [], results = fresh_mutex [],
      bind_uploads = fresh_mutex [], connection_cancel = 1,
      option_policy = connection_option_policy demo_target,
      s_limits = \<lparr>max_sessions = 2, max_sessions_per_principal = 1,
                  max_statements_per_session = 1, max_results_per_session = 1\<rparr>,
      s_timeout = 270\<rparr>"

definition demo_session1 ::
  "(nat, bytes list, nat, bytes list, bytes, nat, bytes counting_file) session" where
  "demo_session1 =
     demo_session\<lparr>connection := fresh_mutex 1,
       statements := fresh_mutex [(''st'', \<lparr>statement = fresh_mutex [], cancel = 7\<rparr>)]\<rparr>"

lemma demo_new_statement:
  "new_statement demo_driver Completed ''st'' demo_session = (Inr ''st'', demo_session1)"
  by (simp add: new_statement_def new_statement_job_def demo_session_def demo_session1_def
      st_bind_def locked_def demo_driver_def)

theorem session_quotas_hold_witness:
  "length (inner (statements demo_session1)) \<le> 1
   \<and> fst (new_statement demo_driver Completed ''st2'' demo_session1) = Inl (quota ''statement'')"
proof -
  have "reaches session_fresh (session_step demo_driver demo_stream) demo_session"
    by (rule reaches_init) (simp add: session_fresh_def demo_session_def)
  moreover have "session_step demo_driver demo_stream demo_session demo_session1"
    using step_new_statement [of demo_driver demo_stream demo_session Completed "''st''"]
    by (simp add: demo_new_statement)
  ultimately have "reaches session_fresh (session_step demo_driver demo_stream) demo_session1"
    by (rule reaches_step)
  from session_quotas_hold [OF this] show ?thesis
    by (simp add: demo_session1_def demo_session_def new_statement_def new_statement_job_def)
qed

text \<open>
  A statement that was closed leaves nothing behind. If closing succeeds, the statement, every
  result it owns and every bind upload towards it are gone, and every other statement, upload
  and intact result of the session is as it was.
\<close>

lemma close_statement_releases_everything:
  assumes "session_inv s" and "close_statement oc1 oc2 hid s = (Inr (), s')"
  shows "hm_get (inner (statements s')) hid = None
    \<and> (\<forall>k m. hm_get (inner (results s')) k = Some m \<longrightarrow>
         owner_statement_id (inner m) \<noteq> Some hid)
    \<and> (\<forall>k u. hm_get (inner (bind_uploads s')) k = Some u \<longrightarrow> bu_statement_id u \<noteq> hid)
    \<and> (\<forall>k. k \<noteq> hid \<longrightarrow> hm_get (inner (statements s')) k = hm_get (inner (statements s)) k)
    \<and> (\<forall>k m. hm_get (inner (results s)) k = Some m \<longrightarrow> \<not> poisoned m \<longrightarrow>
         owner_statement_id (inner m) \<noteq> Some hid \<longrightarrow> hm_get (inner (results s')) k = Some m)
    \<and> (\<forall>k u. hm_get (inner (bind_uploads s)) k = Some u \<longrightarrow> bu_statement_id u \<noteq> hid \<longrightarrow>
         hm_get (inner (bind_uploads s')) k = Some u)
    \<and> connection s' = connection s"
proof -
  obtain s1 s2 where rem: "remove_statement oc1 hid s = (Inr (), s1)"
    and inv: "invalidate_statement_results oc2 hid s1 = (Inr (), s2)"
    and up: "locked bind_uploads put_uploads uploads_poisoned
      (\<lambda>us. (Inr (), filter (\<lambda>(_, entry). bu_statement_id entry \<noteq> hid) us)) s2 = (Inr (), s')"
    using assms(2) unfolding close_statement_def by (auto elim!: st_bind_Inr)
  let ?st = "hm_remove hid (inner (statements s))"
  let ?rs = "filter (\<lambda>(_, result). keeps_result hid result) (inner (results s))"
  let ?us = "filter (\<lambda>(_, entry). bu_statement_id entry \<noteq> hid) (inner (bind_uploads s))"
  have s': "inner (statements s') = ?st" "inner (results s') = ?rs" "inner (bind_uploads s') = ?us"
    "connection s' = connection s"
    using remove_statement_Inr [OF rem] invalidate_Inr [OF inv] up
    by (auto elim!: locked_Inr)
  have wf: "hm_wf (inner (results s))" "hm_wf (inner (bind_uploads s))"
    using assms(1) by (auto simp: session_inv_def table_within_def)
  show ?thesis
    unfolding s' using hm_get_filter [OF wf(1)] hm_get_filter [OF wf(2)]
    by (auto simp: keeps_result_def split: option.splits if_splits)
qed

text \<open>
  Re-execution replaces. If storing the result of an execution succeeds with a fresh
  identifier, the statement owns exactly one result, the new one, positioned before its first
  batch; results of other statements are untouched.
\<close>

lemma execution_replaces_previous_result:
  assumes "session_inv s"
    and "insert_statement_result D oc1 oc2 uuid sid rd s = (Inr (rid, sch), s')"
    and "\<not> hm_contains (inner (results s)) uuid"
  shows "rid = uuid \<and> sch = d_schema D rd
    \<and> hm_get (inner (results s')) rid = Some (fresh_mutex (fresh_result (Some sid) rd sch))
    \<and> (\<forall>k m. hm_get (inner (results s')) k = Some m \<longrightarrow>
         owner_statement_id (inner m) = Some sid \<longrightarrow> k = rid)
    \<and> (\<forall>k m. hm_get (inner (results s)) k = Some m \<longrightarrow> \<not> poisoned m \<longrightarrow>
         owner_statement_id (inner m) \<noteq> Some sid \<longrightarrow> hm_get (inner (results s')) k = Some m)"
proof -
  obtain s1 where inv: "invalidate_statement_results oc1 sid s = (Inr (), s1)"
    and ins: "insert_owned_result D oc2 uuid (Some sid) rd s1 = (Inr (rid, sch), s')"
    using assms(2) unfolding insert_statement_result_def by (auto elim!: st_bind_Inr)
  let ?rs = "filter (\<lambda>(_, result). keeps_result sid result) (inner (results s))"
  have s1: "inner (results s1) = ?rs" using invalidate_Inr [OF inv] by auto
  have wf: "hm_wf (inner (results s))"
    using assms(1) by (auto simp: session_inv_def table_within_def)
  have s': "rid = uuid" "sch = d_schema D rd"
    "inner (results s') = hm_insert uuid (fresh_mutex (fresh_result (Some sid) rd sch)) ?rs"
    using insert_owned_result_Inr [OF ins] s1 by auto
  have fresh: "hm_get (inner (results s)) uuid = None"
    using assms(3) by (simp add: hm_get_None_iff)
  show ?thesis
    unfolding s'(3) s'(1,2) using hm_get_filter [OF wf] fresh
    by (auto simp: keeps_result_def split: option.splits if_splits)
qed

subsection \<open>A bind upload from start to finish\<close>

fun session_pushes ::
  "('w, 'b, 'f, 'r) arrow_stream \<Rightarrow> string \<Rightarrow> 'b list \<Rightarrow>
   ('c, 's, 'k, 'r, 'b, 'sch, 'w) session \<Rightarrow>
   (adbc_error, unit) result list \<times> ('c, 's, 'k, 'r, 'b, 'sch, 'w) session" where
  "session_pushes A hid [] s = ([], s)"
| "session_pushes A hid (b # bs) s =
     (let (r, s') = push_bind_upload A hid b s; (rs, s'') = session_pushes A hid bs s'
      in (r # rs, s''))"

lemma session_pushes_upload:
  assumes "session_pushes A hid bs s = (acks, s')" and "\<not> poisoned (bind_uploads s)"
    and "hm_get (inner (bind_uploads s)) hid = Some entry"
  shows "\<exists>u'. upload_pushes A (bu_max_bytes entry) bs (bu_upload entry) = (acks, u')
    \<and> hm_get (inner (bind_uploads s')) hid = Some (entry\<lparr>bu_upload := u'\<rparr>)
    \<and> statements s' = statements s \<and> \<not> poisoned (bind_uploads s') \<and> s_timeout s' = s_timeout s"
  using assms
proof (induction bs arbitrary: s acks entry)
  case Nil
  then show ?case by auto
next
  case (Cons b bs)
  obtain r u1 where push: "upload_push A (bu_max_bytes entry) b (bu_upload entry) = (r, u1)"
    by fastforce
  let ?e1 = "entry\<lparr>bu_upload := u1\<rparr>"
  let ?s1 = "put_uploads (store (bind_uploads s) (hm_insert hid ?e1 (inner (bind_uploads s)))) s"
  have step: "push_bind_upload A hid b s = (r, ?s1)"
    using Cons.prems(2,3) push by (simp add: push_bind_upload_def locked_def)
  obtain acks1 where rest: "session_pushes A hid bs ?s1 = (acks1, s')" "acks = r # acks1"
    using Cons.prems(1) step by (auto split: prod.splits)
  from Cons.IH [OF rest(1), of ?e1] Cons.prems(2) rest(2) push show ?case by auto
qed

text \<open>\<open>contents\<close> describes a reader: what its iterator yields, batch by batch.\<close>

definition reads ::
  "('c, 's, 'k, 'r, 'b, 'sch, 'x) driver_ops \<Rightarrow> ('r \<Rightarrow> 'b list) \<Rightarrow> bool" where
  "reads D contents \<longleftrightarrow>
     (\<forall>rd. case contents rd of
             [] \<Rightarrow> fst (d_next D rd) = None
           | b # bs \<Rightarrow> (\<exists>rd'. d_next D rd = (Some (Inr b), rd') \<and> contents rd' = bs))"

lemma single_batch_reads:
  assumes "reads D contents" and "single_batch D rd = Inr b"
  shows "contents rd = [b]"
proof -
  have next_eq: "case contents x of [] \<Rightarrow> fst (d_next D x) = None
      | b # bs \<Rightarrow> (\<exists>rd'. d_next D x = (Some (Inr b), rd') \<and> contents rd' = bs)" for x
    using assms(1) by (simp add: reads_def)
  show ?thesis
  proof (cases "contents rd")
    case Nil
    with next_eq [of rd] have "fst (d_next D rd) = None" by simp
    with assms(2) show ?thesis by (cases "d_next D rd") (simp add: single_batch_def)
  next
    case (Cons c cs)
    with next_eq [of rd] obtain rd' where rd': "d_next D rd = (Some (Inr c), rd')" "contents rd' = cs"
      by auto
    with assms(2) have none: "fst (d_next D rd') = None" and "c = b"
      by (auto simp: single_batch_def split: if_splits)
    moreover have "cs = []"
      using next_eq [of rd'] rd'(2) none by (cases cs) auto
    ultimately show ?thesis using Cons by simp
  qed
qed

lemma start_bind_upload_Inr:
  assumes "start_bind_upload uuid sid mode start m s = (Inr hid, s')"
  obtains upload where "hm_contains (inner (statements s)) sid" "start = Inr upload" "hid = uuid"
    "\<not> poisoned (bind_uploads s)"
    "s' = put_uploads (store (bind_uploads s)
       (hm_insert uuid \<lparr>bu_statement_id = sid, bu_mode = mode, bu_upload = upload, bu_max_bytes = m\<rparr>
          (inner (bind_uploads s)))) s"
proof -
  have st: "\<not> poisoned (statements s)" "hm_contains (inner (statements s)) sid"
    using assms by (auto simp: start_bind_upload_def lock_def split: if_splits)
  then obtain upload where up: "start = Inr upload"
    using assms by (cases start) (auto simp: start_bind_upload_def lock_def)
  with assms st that show thesis
    by (auto simp: start_bind_upload_def lock_def locked_def split: if_splits)
qed

lemma finish_bind_upload_Inr:
  assumes "finish_bind_upload A D oc hid s = (Inr (), s')"
    and "\<not> poisoned (bind_uploads s)" and "hm_get (inner (bind_uploads s)) hid = Some entry"
    and "s1 = put_uploads (store (bind_uploads s) (hm_remove hid (inner (bind_uploads s)))) s"
  shows "\<exists>rd. upload_finish A (bu_max_bytes entry) (bu_upload entry) = Inr rd
    \<and> (case bu_mode entry of
         BatchMode \<Rightarrow> \<exists>b. single_batch D rd = Inr b
           \<and> with_statement oc (bu_statement_id entry) (d_bind D b) s1 = (Inr (), s')
       | StreamMode \<Rightarrow>
           with_statement oc (bu_statement_id entry) (d_bind_stream D rd) s1 = (Inr (), s'))"
proof -
  have take: "take_bind_upload hid s = (Inr entry, s1)"
    using assms(2-4) by (simp add: take_bind_upload_def locked_def)
  obtain rd where rd: "upload_finish A (bu_max_bytes entry) (bu_upload entry) = Inr rd"
    using assms(1) take by (auto simp: finish_bind_upload_def st_bind_def split: sum.splits)
  show ?thesis
    using assms(1) take rd
    by (auto simp: finish_bind_upload_def st_bind_def split: sum.splits bind_mode.splits)
qed

lemma bound_upload_delivers:
  assumes arrow_round_trip:
    "\<forall>w0. run_open tempfile try_new = Staging w0 0 None \<longrightarrow> stream_round_trips A w0 contents"
    and reader_law: "reads D contents"
    and start: "start_bind_upload uuid sid mode (upload_start (Inr ()) tempfile try_new) max_bytes s
      = (Inr hid, s1)"
    and pushes: "session_pushes A hid bs s1 = (acks, s2)"
    and finish: "finish_bind_upload A D oc hid s2 = (Inr (), s3)"
  shows "acks = replicate (length bs) (Inr ())
    \<and> hm_get (inner (bind_uploads s3)) hid = None
    \<and> (\<exists>entry st'. hm_get (inner (statements s)) sid = Some entry
        \<and> hm_get (inner (statements s3)) sid =
            Some (entry\<lparr>statement := store (statement entry) st'\<rparr>)
        \<and> (case mode of
             StreamMode \<Rightarrow>
               (\<exists>rd. contents rd = bs \<and> d_bind_stream D rd (inner (statement entry)) = (Inr (), st'))
           | BatchMode \<Rightarrow>
               (\<exists>b. bs = [b] \<and> d_bind D b (inner (statement entry)) = (Inr (), st'))))"
proof -
  let ?e = "\<lparr>bu_statement_id = sid, bu_mode = mode, bu_upload = run_open tempfile try_new,
    bu_max_bytes = max_bytes\<rparr>"
  have s1: "\<not> poisoned (bind_uploads s1)" "hm_get (inner (bind_uploads s1)) hid = Some ?e"
    "statements s1 = statements s"
    using start by (auto simp: upload_start_def elim!: start_bind_upload_Inr)
  obtain u' where u': "upload_pushes A max_bytes bs (run_open tempfile try_new) = (acks, u')"
    "hm_get (inner (bind_uploads s2)) hid = Some (?e\<lparr>bu_upload := u'\<rparr>)"
    "statements s2 = statements s" "\<not> poisoned (bind_uploads s2)"
    using session_pushes_upload [OF pushes s1(1,2)] s1(3) by auto
  let ?s2 = "put_uploads (store (bind_uploads s2) (hm_remove hid (inner (bind_uploads s2)))) s2"
  obtain rd where rd: "upload_finish A max_bytes u' = Inr rd"
    and batch: "mode = BatchMode \<Longrightarrow> \<exists>b. single_batch D rd = Inr b
       \<and> with_statement oc sid (d_bind D b) ?s2 = (Inr (), s3)"
    and stream: "mode = StreamMode \<Longrightarrow> with_statement oc sid (d_bind_stream D rd) ?s2 = (Inr (), s3)"
    using finish_bind_upload_Inr [OF finish u'(4,2) refl] by (cases mode) auto
  obtain w n f f' where w: "u' = Staging w n None" "sw_into_inner A w = Inr f"
    "f_rewind A f = Inr f'" "sr_try_new A f' = Inr rd"
    using rd by (elim upload_finish_Inr)
  have live: "stuck_on u' = None" using w(1) by simp
  then have "stuck_on (run_open tempfile try_new) = None"
    using u'(1) upload_pushes_stuck [of "run_open tempfile try_new" _ A max_bytes bs]
    by (cases "stuck_on (run_open tempfile try_new)") auto
  then obtain w0 where w0: "run_open tempfile try_new = Staging w0 0 None"
    by (auto simp: run_open_def split: sum.splits)
  then have acked: "acks = replicate (length bs) (Inr ())" and "sw_writes A bs w0 = Some w"
    using upload_pushes_acked [of A max_bytes bs w0 0 acks u'] u'(1) live w(1) by auto
  with arrow_round_trip w0 w have contents: "contents rd = bs"
    unfolding stream_round_trips_def by blast
  have upload_gone: "hm_get (inner (bind_uploads s3)) hid = None"
    and bound: "\<exists>entry st'. hm_get (inner (statements s)) sid = Some entry
        \<and> hm_get (inner (statements s3)) sid = Some (entry\<lparr>statement := store (statement entry) st'\<rparr>)
        \<and> g (inner (statement entry)) = (Inr (), st')"
    if "with_statement oc sid g ?s2 = (Inr (), s3)" for g
    using that u'(3) by (auto elim!: with_statement_Inr)
  show ?thesis
  proof (cases mode)
    case BatchMode
    then obtain b where b: "single_batch D rd = Inr b" "with_statement oc sid (d_bind D b) ?s2 = (Inr (), s3)"
      using batch by blast
    have "bs = [b]" using single_batch_reads [OF reader_law b(1)] contents by simp
    with acked BatchMode upload_gone [OF b(2)] bound [OF b(2)] show ?thesis by auto
  next
    case StreamMode
    with acked contents upload_gone [OF stream] bound [OF stream] show ?thesis by auto
  qed
qed

end
