(* ===== verification/Arrow.thy ===== *)
theory Arrow
  imports Adbc
begin

text \<open>
  The Arrow values the sources look into, as data: types, fields, arrays and record batches,
  with the accessors of \<open>arrow_array\<close> the protocol uses. On top of them, the batch accessors
  and the fixed request schemas of \<open>crates/grainlift-protocol/src/lib.rs\<close>.
\<close>

subsection \<open>Data\<close>

datatype data_type =
    Utf8 | Binary | Int64 | Float64 | Boolean
  | Struct "field list" | ListOf field | OtherType nat
and field = Field (field_name: string) (field_type: data_type) (is_nullable: bool)

text \<open>
  Arrays by their values: a null is \<open>None\<close>. A struct array has a validity flag per row and its
  child columns, a list array a validity flag per row, its item field and its flattened values.
\<close>

datatype array =
    StringArray "string option list"
  | BinaryArray "bytes option list"
  | Int64Array "i64 option list"
  | BooleanArray "bool option list"
  | StructArray "bool list" "(field \<times> array) list"
  | ListArray "bool list" field array
  | OtherArray data_type nat nat \<comment> \<open>type, rows, nulls\<close>

fun null_count :: "array \<Rightarrow> nat" where
  "null_count (StringArray vs) = length (filter (\<lambda>v. v = None) vs)"
| "null_count (BinaryArray vs) = length (filter (\<lambda>v. v = None) vs)"
| "null_count (Int64Array vs) = length (filter (\<lambda>v. v = None) vs)"
| "null_count (BooleanArray vs) = length (filter (\<lambda>v. v = None) vs)"
| "null_count (StructArray valid cs) = length (filter Not valid)"
| "null_count (ListArray valid f vs) = length (filter Not valid)"
| "null_count (OtherArray t rows nulls) = nulls"

fun array_data_type :: "array \<Rightarrow> data_type" where
  "array_data_type (StringArray vs) = Utf8"
| "array_data_type (BinaryArray vs) = Binary"
| "array_data_type (Int64Array vs) = Int64"
| "array_data_type (BooleanArray vs) = Boolean"
| "array_data_type (StructArray valid cs) = Struct (map fst cs)"
| "array_data_type (ListArray valid f vs) = ListOf f"
| "array_data_type (OtherArray t rows nulls) = t"

record record_batch =
  schema_fields :: "field list"
  columns :: "array list"
  num_rows :: nat

definition column_by_name :: "record_batch \<Rightarrow> string \<Rightarrow> array option" where
  "column_by_name b name =
     map_option snd (find (\<lambda>(f, _). field_name f = name) (zip (schema_fields b) (columns b)))"

text \<open>The first value of a column: \<open>None\<close> when it is null.\<close>

definition value0 :: "'a option list \<Rightarrow> 'a option" where
  "value0 vs = (case vs of [] \<Rightarrow> None | v # _ \<Rightarrow> v)"

lemma value0_Cons [simp]: "value0 (v # vs) = v"
  by (simp add: value0_def)

subsection \<open>Batch accessors\<close>

definition require_one_row :: "record_batch \<Rightarrow> (protocol_error, unit) result" where
  "require_one_row b = (if num_rows b \<noteq> 1 then Inl (RowCount (num_rows b)) else Inr ())"

definition string_value :: "record_batch \<Rightarrow> string \<Rightarrow> (protocol_error, string) result" where
  "string_value b name =
     try_bind (require_one_row b) (\<lambda>_.
     try_bind (ok_or (MissingColumn name) (column_by_name b name)) (\<lambda>column.
     case column of
       StringArray vs \<Rightarrow> ok_or (Null name) (value0 vs)
     | _ \<Rightarrow> Inl (WrongType name ''utf8'')))"

definition int64_value :: "record_batch \<Rightarrow> string \<Rightarrow> (protocol_error, i64) result" where
  "int64_value b name =
     try_bind (require_one_row b) (\<lambda>_.
     try_bind (ok_or (MissingColumn name) (column_by_name b name)) (\<lambda>column.
     case column of
       Int64Array vs \<Rightarrow> ok_or (Null name) (value0 vs)
     | _ \<Rightarrow> Inl (WrongType name ''int64'')))"

definition binary_value :: "record_batch \<Rightarrow> string \<Rightarrow> (protocol_error, bytes) result" where
  "binary_value b name =
     try_bind (require_one_row b) (\<lambda>_.
     try_bind (ok_or (MissingColumn name) (column_by_name b name)) (\<lambda>column.
     case column of
       BinaryArray vs \<Rightarrow> ok_or (Null name) (value0 vs)
     | _ \<Rightarrow> Inl (WrongType name ''binary'')))"

fun batch_strings_from ::
  "record_batch \<Rightarrow> field list \<Rightarrow> (string, string) hash_map \<Rightarrow>
   (protocol_error, (string, string) hash_map) result" where
  "batch_strings_from b [] values = Inr values"
| "batch_strings_from b (f # fs) values =
     (if field_type f = Utf8
      then try_bind (string_value b (field_name f))
             (\<lambda>v. batch_strings_from b fs (hm_insert (field_name f) v values))
      else batch_strings_from b fs values)"

definition batch_strings ::
  "record_batch \<Rightarrow> (protocol_error, (string, string) hash_map) result" where
  "batch_strings b = try_bind (require_one_row b) (\<lambda>_. batch_strings_from b (schema_fields b) [])"

subsection \<open>Request schemas\<close>

definition text_field :: "string \<Rightarrow> field" where
  "text_field name = Field name Utf8 False"

definition binary_field :: "string \<Rightarrow> field" where
  "binary_field name = Field name Binary False"

definition empty_response_schema :: "field list" where
  "empty_response_schema = [Field ''ok'' Boolean False]"

definition session_schema :: "field list" where
  "session_schema = [text_field ''session_id'']"

definition statement_schema :: "field list" where
  "statement_schema = [text_field ''session_id'', text_field ''statement_id'']"

definition connection_binary_schema :: "field list" where
  "connection_binary_schema = [text_field ''session_id'', binary_field ''payload'']"

definition connection_option_key_schema :: "field list" where
  "connection_option_key_schema =
     [text_field ''session_id'', text_field ''key'', text_field ''value_type'']"

definition set_sql_schema :: "field list" where
  "set_sql_schema = [text_field ''session_id'', text_field ''statement_id'', text_field ''sql'']"

definition statement_option_key_schema :: "field list" where
  "statement_option_key_schema =
     [text_field ''session_id'', text_field ''statement_id'', text_field ''key'',
      text_field ''value_type'']"

definition statement_binary_schema :: "field list" where
  "statement_binary_schema =
     [text_field ''session_id'', text_field ''statement_id'', binary_field ''payload'']"

definition bind_init_schema :: "field list" where
  "bind_init_schema =
     [text_field ''session_id'', text_field ''statement_id'', binary_field ''schema_ipc'']"

definition result_schema_fields :: "field list" where
  "result_schema_fields = [text_field ''session_id'', text_field ''result_id'']"

definition read_result_schema :: "field list" where
  "read_result_schema =
     [text_field ''session_id'', text_field ''result_id'', Field ''sequence'' Int64 False]"

definition envelope_schema :: "string \<Rightarrow> field list" where
  "envelope_schema name = [binary_field name]"

definition bind_turn_schema :: "field list" where
  "bind_turn_schema = [binary_field ''batch_ipc'', Field ''finish'' Boolean False]"

lemmas request_schemas =
  session_schema_def statement_schema_def connection_binary_schema_def
  connection_option_key_schema_def set_sql_schema_def statement_option_key_schema_def
  statement_binary_schema_def bind_init_schema_def result_schema_fields_def
  read_result_schema_def envelope_schema_def bind_turn_schema_def text_field_def
  binary_field_def

subsection \<open>Allocation size\<close>

record buffer =
  data_ptr :: nat
  capacity :: nat
  ptr_offset :: nat
  buffer_len :: nat

datatype array_data =
  ArrayData (buffers: "buffer list") (null_buffer: "buffer option") (child_data: "array_data list")

definition buffer_size :: "buffer \<Rightarrow> nat" where
  "buffer_size b = max (capacity b) (saturating_add (ptr_offset b) (buffer_len b))"

text \<open>\<open>sizes.entry(ptr).and_modify(max).or_insert(size)\<close>.\<close>

definition note_buffer :: "buffer \<Rightarrow> (nat, nat) hash_map \<Rightarrow> (nat, nat) hash_map" where
  "note_buffer b sizes =
     hm_insert (data_ptr b)
       (case hm_get sizes (data_ptr b) of
          None \<Rightarrow> buffer_size b
        | Some current \<Rightarrow> max current (buffer_size b)) sizes"

fun visit :: "array_data \<Rightarrow> (nat, nat) hash_map \<Rightarrow> (nat, nat) hash_map" where
  "visit (ArrayData bs n cs) sizes =
     fold visit cs (fold note_buffer (bs @ (case n of None \<Rightarrow> [] | Some b \<Rightarrow> [b])) sizes)"

definition batch_buffer_bytes :: "(array \<Rightarrow> array_data) \<Rightarrow> record_batch \<Rightarrow> nat" where
  "batch_buffer_bytes to_data b =
     fold (\<lambda>size total. saturating_add total size)
       (hm_values (fold (\<lambda>a. visit (to_data a)) (columns b) [])) 0"

text \<open>Every buffer below a piece of array data.\<close>

fun all_buffers :: "array_data \<Rightarrow> buffer list" where
  "all_buffers (ArrayData bs n cs) =
     bs @ (case n of None \<Rightarrow> [] | Some b \<Rightarrow> [b]) @ concat (map all_buffers cs)"

lemma visit_all_buffers: "visit d sizes = fold note_buffer (all_buffers d) sizes"
proof (induction d arbitrary: sizes)
  case (ArrayData bs n cs)
  have "fold visit cs s = fold note_buffer (concat (map all_buffers cs)) s" for s
    using ArrayData.IH by (induction cs arbitrary: s) auto
  then show ?case by simp
qed

lemma note_buffers_wf: "hm_wf sizes \<Longrightarrow> hm_wf (fold note_buffer bs sizes)"
  by (induction bs arbitrary: sizes) (auto simp: note_buffer_def)

lemma Max_insert_max:
  fixes a b :: nat
  assumes "finite S"
  shows "Max (insert (max a b) S) = Max (insert a (insert b S))"
  using assms by (cases "S = {}") (auto simp: max.assoc)

lemma note_buffers_get:
  "hm_get (fold note_buffer bs sizes) p =
     (case hm_get sizes p of
        None \<Rightarrow> if p \<in> data_ptr ` set bs
               then Some (Max (buffer_size ` {b \<in> set bs. data_ptr b = p})) else None
      | Some s \<Rightarrow> Some (Max (insert s (buffer_size ` {b \<in> set bs. data_ptr b = p}))))"
proof (induction bs arbitrary: sizes)
  case Nil
  then show ?case by (simp split: option.split)
next
  case (Cons b bs)
  have split: "{x \<in> set (b # bs). data_ptr x = p} =
      (if data_ptr b = p then insert b {x \<in> set bs. data_ptr x = p} else {x \<in> set bs. data_ptr x = p})"
    by auto
  have fin: "finite (buffer_size ` {x \<in> set bs. data_ptr x = p})" by simp
  show ?case
  proof (cases "data_ptr b = p")
    case True
    then show ?thesis
      unfolding fold_Cons comp_def Cons.IH split
      using fin by (auto simp: note_buffer_def Max_insert_max simp del: Max_insert split: option.splits)
  next
    case False
    then show ?thesis
      unfolding fold_Cons comp_def Cons.IH split
      by (auto simp: note_buffer_def split: option.splits)
  qed
qed

lemma fold_saturating:
  "n \<le> usize_max \<Longrightarrow> fold (\<lambda>size total. saturating_add total size) xs n = min usize_max (n + sum_list xs)"
  by (induction xs arbitrary: n) (auto simp: saturating_add_def)

lemma sum_list_hm_values:
  "hm_wf m \<Longrightarrow> sum_list (hm_values m) = (\<Sum>p \<in> set (hm_keys m). the (hm_get m p))"
proof (induction m)
  case Nil
  then show ?case by simp
next
  case (Cons kv m)
  then have fresh: "fst kv \<notin> fst ` set m" and wf: "hm_wf m" by (auto simp: hm_wf_def)
  have "(\<Sum>p \<in> set (hm_keys m). the (hm_get (kv # m) p)) = (\<Sum>p \<in> set (hm_keys m). the (hm_get m p))"
    using fresh by (intro sum.cong) (auto simp: map_of_Cons_code rev_image_eqI)
  with fresh Cons.IH [OF wf] show ?case by (cases kv) simp
qed

lemma batch_buffers_fold:
  "fold (\<lambda>a. visit (to_data a)) as sizes =
     fold note_buffer (concat (map (\<lambda>a. all_buffers (to_data a)) as)) sizes"
  by (induction as arbitrary: sizes) (auto simp: visit_all_buffers)

text \<open>
  C26: the memory a decoded batch is charged for. It is the sum, over the distinct
  allocations its arrays point into at any depth, of the largest extent any buffer claims of
  that allocation, capped at the largest machine integer: buffers that share an allocation
  (slices of one message body) are charged once, and nothing is left out.
\<close>

theorem batch_buffer_bytes_counts_allocations_once:
  "batch_buffer_bytes to_data b =
     (let bs = concat (map (\<lambda>a. all_buffers (to_data a)) (columns b))
      in min usize_max
           (\<Sum>p \<in> data_ptr ` set bs. Max (buffer_size ` {x \<in> set bs. data_ptr x = p})))"
proof -
  define bs where "bs = concat (map (\<lambda>a. all_buffers (to_data a)) (columns b))"
  define m where "m = fold note_buffer bs []"
  have get: "hm_get m p = (if p \<in> data_ptr ` set bs
      then Some (Max (buffer_size ` {x \<in> set bs. data_ptr x = p})) else None)" for p
    unfolding m_def by (simp add: note_buffers_get)
  have keys: "set (hm_keys m) = data_ptr ` set bs"
    using get by (metis (no_types, lifting) hm_get_None_iff option.distinct(1) subsetI subset_antisym)
  have "hm_wf m" unfolding m_def by (rule note_buffers_wf) simp
  then have "sum_list (hm_values m) =
      (\<Sum>p \<in> data_ptr ` set bs. Max (buffer_size ` {x \<in> set bs. data_ptr x = p}))"
    using keys get by (simp add: sum_list_hm_values)
  then show ?thesis
    unfolding batch_buffer_bytes_def batch_buffers_fold Let_def bs_def [symmetric] m_def [symmetric]
    by (simp add: fold_saturating usize_max_def)
qed

end
