(* ===== verification/Ipc.thy ===== *)
theory Ipc
  imports Arrow
begin

text \<open>
  The bounded Arrow IPC payloads of \<open>crates/grainlift-protocol/src/responses.rs\<close>: the size-limited
  sink, the framing check that runs before Arrow decodes anything, encoding and decoding of one
  batch and of one typed record, and the turns of a bind exchange. Arrow's writer, reader and
  FlatBuffers message parser are parameters, collected in the record \<open>arrow_ipc\<close>; the derived
  conversion of a typed record is the parameter record \<open>vgi_arrow\<close>.
\<close>

record arrow_ipc =
  ipc_schema :: "field list \<Rightarrow> (string, bytes list) result"
  ipc_batch :: "record_batch \<Rightarrow> (string, bytes list) result"
  ipc_finish :: "bytes list"
  memory_size :: "record_batch \<Rightarrow> nat"
  root_as_message :: "bytes \<Rightarrow> int option" \<comment> \<open>the body length of a parsed message\<close>
  stream_items :: "bytes \<Rightarrow> (string, (string, record_batch) result list) result"
  to_data :: "array \<Rightarrow> array_data"

definition invalid_wire :: "string \<Rightarrow> protocol_error" where
  "invalid_wire m = InvalidWire m"

subsection \<open>The bounded sink and encoding\<close>

record bounded_buffer =
  bb_bytes :: bytes
  bb_limit :: nat

definition bounded_write :: "bytes \<Rightarrow> bounded_buffer \<Rightarrow> (string, bounded_buffer) result" where
  "bounded_write data b =
     (if length data > bb_limit b - length (bb_bytes b)
      then Inl ''Arrow IPC payload exceeds configured limit''
      else Inr (b\<lparr>bb_bytes := bb_bytes b @ data\<rparr>))"

fun bounded_writes :: "bytes list \<Rightarrow> bounded_buffer \<Rightarrow> (string, bounded_buffer) result" where
  "bounded_writes [] b = Inr b"
| "bounded_writes (d # ds) b = try_bind (bounded_write d b) (bounded_writes ds)"

definition encode_batch_ipc ::
  "arrow_ipc \<Rightarrow> record_batch \<Rightarrow> nat \<Rightarrow> (protocol_error, bytes) result" where
  "encode_batch_ipc A batch limit =
     (if memory_size A batch > limit
      then Inl (invalid_wire ''Arrow batch exceeds configured limit'')
      else
        map_err protocol_error.Arrow
          (try_bind (ipc_schema A (schema_fields batch)) (\<lambda>header.
           try_bind (bounded_writes header \<lparr>bb_bytes = [], bb_limit = limit\<rparr>) (\<lambda>sink.
           try_bind (ipc_batch A batch) (\<lambda>body.
           try_bind (bounded_writes body sink) (\<lambda>sink'.
           try_bind (bounded_writes (ipc_finish A) sink') (\<lambda>sink''. Inr (bb_bytes sink''))))))))"

lemma bounded_writes_ok_iff:
  "length (bb_bytes b) \<le> bb_limit b \<Longrightarrow>
   bounded_writes ds b = Inr b' \<longleftrightarrow>
     length (bb_bytes b) + length (concat ds) \<le> bb_limit b
     \<and> b' = b\<lparr>bb_bytes := bb_bytes b @ concat ds\<rparr>"
proof (induction ds arbitrary: b)
  case Nil
  then show ?case by auto
next
  case (Cons d ds)
  show ?case
  proof (cases "length d > bb_limit b - length (bb_bytes b)")
    case True
    with Cons.prems show ?thesis by (auto simp: bounded_write_def)
  next
    case False
    with Cons.prems have "length (bb_bytes (b\<lparr>bb_bytes := bb_bytes b @ d\<rparr>)) \<le>
        bb_limit (b\<lparr>bb_bytes := bb_bytes b @ d\<rparr>)"
      by simp
    from Cons.IH [OF this] False show ?thesis
      by (auto simp: bounded_write_def)
  qed
qed

lemma encode_batch_ipc_ok_iff:
  "encode_batch_ipc A batch limit = Inr bs \<longleftrightarrow>
     memory_size A batch \<le> limit
     \<and> (\<exists>header body. ipc_schema A (schema_fields batch) = Inr header \<and> ipc_batch A batch = Inr body
          \<and> bs = concat header @ concat body @ concat (ipc_finish A) \<and> length bs \<le> limit)"
  unfolding encode_batch_ipc_def
  by (auto simp: result_iffs bounded_writes_ok_iff)

subsection \<open>Framing\<close>

text \<open>\<open>i32::from_le_bytes\<close>.\<close>

definition le_i32 :: "bytes \<Rightarrow> int" where
  "le_i32 p =
     (let n = unat (p ! 0) + 256 * unat (p ! 1) + 65536 * unat (p ! 2) + 16777216 * unat (p ! 3)
      in if n < 2147483648 then int n else int n - 4294967296)"

text \<open>\<open>bytes.get(a..b)\<close>.\<close>

definition bytes_get :: "bytes \<Rightarrow> nat \<Rightarrow> nat \<Rightarrow> bytes option" where
  "bytes_get bs a b = (if a \<le> b \<and> b \<le> length bs then Some (take (b - a) (drop a bs)) else None)"

text \<open>
  One iteration of the loop of \<open>validate_ipc\<close>: \<open>None\<close> when the stream ended here, otherwise the
  next offset. A slice is shorter than half of the address space, so the saturating additions
  of four bytes are plain additions.
\<close>

definition prefix_at :: "bytes \<Rightarrow> nat \<Rightarrow> bytes option" where
  "prefix_at bs offset = bytes_get bs offset (offset + 4)"

definition ipc_prefix :: "bytes \<Rightarrow> nat \<Rightarrow> (protocol_error, int \<times> nat) result" where
  "ipc_prefix bs offset =
     try_bind (ok_or (invalid_wire ''truncated IPC prefix'') (prefix_at bs offset)) (\<lambda>p.
     if le_i32 p = -1
     then try_bind
            (ok_or (invalid_wire ''truncated IPC continuation'') (prefix_at bs (offset + 4)))
            (\<lambda>q. Inr (le_i32 q, offset + 8))
     else Inr (le_i32 p, offset + 4))"

definition ipc_frame ::
  "arrow_ipc \<Rightarrow> bytes \<Rightarrow> nat \<Rightarrow> (protocol_error, nat option) result" where
  "ipc_frame A bs offset =
     try_bind (ipc_prefix bs offset) (\<lambda>(len, at).
     if len = 0
     then (if at = length bs then Inr None else Inl (invalid_wire ''trailing IPC bytes''))
     else
       try_bind (ok_or (invalid_wire ''invalid IPC metadata length'') (usize_try_from len)) (\<lambda>n.
       try_bind (ok_or (invalid_wire ''IPC length overflow'') (checked_add at n)) (\<lambda>end_at.
       try_bind (ok_or (invalid_wire ''truncated IPC metadata'') (bytes_get bs at end_at)) (\<lambda>metadata.
       try_bind (ok_or (invalid_wire ''invalid IPC metadata'') (root_as_message A metadata)) (\<lambda>body_length.
       try_bind (ok_or (invalid_wire ''invalid IPC body length'') (usize_try_from body_length)) (\<lambda>body.
       try_bind
         (ok_or (invalid_wire ''truncated IPC body'')
            (case checked_add end_at body of
               None \<Rightarrow> None
             | Some e \<Rightarrow> if e \<le> length bs then Some e else None))
         (\<lambda>next_at. Inr (Some next_at))))))))"

lemma ipc_prefix_ok:
  assumes "ipc_prefix bs offset = Inr (len, at)"
  shows "offset + 4 \<le> at" "at \<le> length bs"
  using assms
  by (auto simp: ipc_prefix_def result_iffs prefix_at_def bytes_get_def split: if_splits)

lemma ipc_frame_advances:
  assumes "ipc_frame A bs offset = Inr (Some next_at)"
  shows "offset < next_at" "next_at \<le> length bs"
  using assms ipc_prefix_ok [of bs offset]
  by (auto simp: ipc_frame_def result_iffs checked_add_Some_iff split: if_splits option.splits)

function ipc_loop :: "arrow_ipc \<Rightarrow> bytes \<Rightarrow> nat \<Rightarrow> (protocol_error, unit) result" where
  "ipc_loop A bs offset =
     (case ipc_frame A bs offset of
        Inl e \<Rightarrow> Inl e
      | Inr None \<Rightarrow> Inr ()
      | Inr (Some next_at) \<Rightarrow> ipc_loop A bs next_at)"
  by pat_completeness auto
termination
proof (relation "measure (\<lambda>(A, bs, offset). length bs - offset)", goal_cases)
  case 1
  then show ?case by simp
next
  case (2 A bs offset y next_at)
  then have "ipc_frame A bs offset = Inr (Some next_at)" by simp
  from ipc_frame_advances [OF this] show ?case by simp
qed

declare ipc_loop.simps [simp del]

definition validate_ipc :: "arrow_ipc \<Rightarrow> bytes \<Rightarrow> nat \<Rightarrow> (protocol_error, unit) result" where
  "validate_ipc A bs limit =
     (if length bs > limit then Inl (invalid_wire ''Arrow IPC payload exceeds configured limit'')
      else ipc_loop A bs 0)"

subsection \<open>Decoding\<close>

definition decode_batch_ipc ::
  "arrow_ipc \<Rightarrow> bytes \<Rightarrow> nat \<Rightarrow> (protocol_error, record_batch) result" where
  "decode_batch_ipc A bs limit =
     try_bind (validate_ipc A bs limit) (\<lambda>_.
     try_bind (map_err protocol_error.Arrow (stream_items A bs)) (\<lambda>items.
     case items of
       [] \<Rightarrow> Inl (invalid_wire ''IPC stream must contain one batch'')
     | Inl e # _ \<Rightarrow> Inl (protocol_error.Arrow e)
     | Inr batch # Inl e # _ \<Rightarrow> Inl (protocol_error.Arrow e)
     | Inr batch # Inr _ # _ \<Rightarrow> Inl (invalid_wire ''IPC stream contains multiple batches'')
     | [Inr batch] \<Rightarrow>
         (if batch_buffer_bytes (to_data A) batch > limit
          then Inl (invalid_wire ''decoded Arrow batch exceeds configured limit'')
          else Inr batch)))"

subsection \<open>Typed records\<close>

fun validate_array :: "array \<Rightarrow> bool \<Rightarrow> (protocol_error, unit) result" where
  "validate_array a nullable =
     (if \<not> nullable \<and> null_count a \<noteq> 0 then Inl (invalid_wire ''null in required response field'')
      else
        (case a of
           StructArray valid cs \<Rightarrow>
             check_all (\<lambda>(f, child). validate_array child (is_nullable f)) cs
         | ListArray valid f vs \<Rightarrow> validate_array vs False
         | _ \<Rightarrow> Inr ()))"

record 'a vgi_arrow =
  build_singleton :: "'a \<Rightarrow> (string, array) result"
  arrow_data_type :: data_type
  read_row :: "array \<Rightarrow> nat \<Rightarrow> (string, 'a) result"

text \<open>\<open>RecordBatch::from(StructArray)\<close> and \<open>StructArray::from(RecordBatch)\<close>.\<close>

definition batch_of_struct :: "bool list \<Rightarrow> (field \<times> array) list \<Rightarrow> record_batch" where
  "batch_of_struct valid cs =
     \<lparr>schema_fields = map fst cs, columns = map snd cs, num_rows = length valid\<rparr>"

definition struct_of_batch :: "record_batch \<Rightarrow> array" where
  "struct_of_batch b = StructArray (replicate (num_rows b) True) (zip (schema_fields b) (columns b))"

definition encode_record_ipc ::
  "arrow_ipc \<Rightarrow> 'a vgi_arrow \<Rightarrow> 'a \<Rightarrow> nat \<Rightarrow> (protocol_error, bytes) result" where
  "encode_record_ipc A T value limit =
     try_bind (map_err invalid_wire (build_singleton T value)) (\<lambda>arr.
     case arr of
       StructArray valid cs \<Rightarrow>
         try_bind (validate_array (StructArray valid cs) False) (\<lambda>_.
         encode_batch_ipc A (batch_of_struct valid cs) limit)
     | _ \<Rightarrow> Inl (invalid_wire ''response type must be a record''))"

definition encode_record ::
  "arrow_ipc \<Rightarrow> 'a vgi_arrow \<Rightarrow> 'a \<Rightarrow> string \<Rightarrow> nat \<Rightarrow> (protocol_error, record_batch) result" where
  "encode_record A T value field limit =
     try_bind (encode_record_ipc A T value limit) (\<lambda>bs.
     Inr \<lparr>schema_fields = envelope_schema field, columns = [BinaryArray [Some bs]], num_rows = 1\<rparr>)"

definition decode_record_ipc ::
  "arrow_ipc \<Rightarrow> 'a vgi_arrow \<Rightarrow> bytes \<Rightarrow> nat \<Rightarrow> (protocol_error, 'a) result" where
  "decode_record_ipc A T bs limit =
     try_bind (decode_batch_ipc A bs limit) (\<lambda>batch.
     try_bind (require_one_row batch) (\<lambda>_.
     if array_data_type (struct_of_batch batch) \<noteq> arrow_data_type T
     then Inl (invalid_wire ''unexpected typed response schema'')
     else
       try_bind (validate_array (struct_of_batch batch) False) (\<lambda>_.
       map_err invalid_wire (read_row T (struct_of_batch batch) 0))))"

definition decode_record ::
  "arrow_ipc \<Rightarrow> 'a vgi_arrow \<Rightarrow> record_batch \<Rightarrow> string \<Rightarrow> nat \<Rightarrow> (protocol_error, 'a) result" where
  "decode_record A T outer field limit =
     (if schema_fields outer \<noteq> envelope_schema field
      then Inl (invalid_wire ''unexpected typed envelope schema'')
      else try_bind (binary_value outer field) (\<lambda>bs. decode_record_ipc A T bs limit))"

text \<open>
  \<open>encode_response\<close>, \<open>decode_response\<close>, \<open>encode_request\<close> and \<open>decode_request\<close> with the validation
  of the record type.
\<close>

definition encode_response ::
  "arrow_ipc \<Rightarrow> 'a vgi_arrow \<Rightarrow> ('a \<Rightarrow> (protocol_error, unit) result) \<Rightarrow> 'a \<Rightarrow> nat \<Rightarrow>
   (protocol_error, record_batch) result" where
  "encode_response A T val value limit =
     try_bind (val value) (\<lambda>_. encode_record A T value ''result'' limit)"

definition decode_response ::
  "arrow_ipc \<Rightarrow> 'a vgi_arrow \<Rightarrow> ('a \<Rightarrow> (protocol_error, unit) result) \<Rightarrow> record_batch \<Rightarrow> nat \<Rightarrow>
   (protocol_error, 'a) result" where
  "decode_response A T val outer limit =
     try_bind (decode_record A T outer ''result'' limit) (\<lambda>value.
     try_bind (val value) (\<lambda>_. Inr value))"

definition encode_request ::
  "arrow_ipc \<Rightarrow> 'a vgi_arrow \<Rightarrow> ('a \<Rightarrow> (protocol_error, unit) result) \<Rightarrow> 'a \<Rightarrow> nat \<Rightarrow>
   (protocol_error, record_batch) result" where
  "encode_request A T val value limit =
     try_bind (val value) (\<lambda>_.
     try_bind (encode_record A T value ''request'' limit) (\<lambda>batch.
     try_bind (encode_batch_ipc A batch limit) (\<lambda>_. Inr batch)))"

definition decode_request ::
  "arrow_ipc \<Rightarrow> 'a vgi_arrow \<Rightarrow> ('a \<Rightarrow> (protocol_error, unit) result) \<Rightarrow> record_batch \<Rightarrow> nat \<Rightarrow>
   (protocol_error, 'a) result" where
  "decode_request A T val outer limit =
     try_bind (decode_record A T outer ''request'' limit) (\<lambda>value.
     try_bind (val value) (\<lambda>_. Inr value))"

subsection \<open>Bind turns\<close>

definition encode_bind_turn ::
  "arrow_ipc \<Rightarrow> record_batch option \<Rightarrow> nat \<Rightarrow> (protocol_error, record_batch) result" where
  "encode_bind_turn A batch limit =
     try_bind (case batch of None \<Rightarrow> Inr [] | Some b \<Rightarrow> encode_batch_ipc A b limit) (\<lambda>payload.
     Inr \<lparr>schema_fields = bind_turn_schema,
          columns = [BinaryArray [Some payload], BooleanArray [Some (batch = None)]],
          num_rows = 1\<rparr>)"

definition decode_bind_turn ::
  "arrow_ipc \<Rightarrow> record_batch \<Rightarrow> nat \<Rightarrow> (protocol_error, record_batch option) result" where
  "decode_bind_turn A turn limit =
     try_bind (require_one_row turn) (\<lambda>_.
     if schema_fields turn \<noteq> bind_turn_schema
     then Inl (invalid_wire ''unexpected bind turn schema'')
     else
       try_bind (binary_value turn ''batch_ipc'') (\<lambda>payload.
       case columns turn ! 1 of
         BooleanArray vs \<Rightarrow>
           (case value0 vs of
              None \<Rightarrow> Inl (invalid_wire ''null bind finish field'')
            | Some True \<Rightarrow>
                if payload \<noteq> [] then Inl (invalid_wire ''bind finish payload must be empty'')
                else Inr None
            | Some False \<Rightarrow> try_bind (decode_batch_ipc A payload limit) (\<lambda>b. Inr (Some b)))
       | _ \<Rightarrow> Inl (invalid_wire ''invalid bind finish field'')))"

subsection \<open>The grammar of a framed stream\<close>

text \<open>
  A message on the wire: an optional continuation marker, the little-endian metadata length,
  the metadata, and a body as long as the metadata says. A stream is a sequence of messages
  and an end-of-stream marker.
\<close>

record frame =
  f_cont :: bool
  f_len :: bytes
  f_meta :: bytes
  f_body :: bytes

definition cont_bytes :: "bool \<Rightarrow> bytes" where
  "cont_bytes c = (if c then [255, 255, 255, 255] else [])"

definition render :: "frame \<Rightarrow> bytes" where
  "render f = cont_bytes (f_cont f) @ f_len f @ f_meta f @ f_body f"

definition frame_ok :: "arrow_ipc \<Rightarrow> frame \<Rightarrow> bool" where
  "frame_ok A f \<longleftrightarrow>
     length (f_len f) = 4 \<and> le_i32 (f_len f) = int (length (f_meta f)) \<and> f_meta f \<noteq> []
     \<and> root_as_message A (f_meta f) = Some (int (length (f_body f)))"

definition framed :: "arrow_ipc \<Rightarrow> bytes \<Rightarrow> bool" where
  "framed A bs \<longleftrightarrow>
     (\<exists>fs c eos. (\<forall>f \<in> set fs. frame_ok A f) \<and> length eos = 4 \<and> le_i32 eos = 0
        \<and> bs = concat (map render fs) @ cont_bytes c @ eos)"

lemma length_cont_bytes [simp]: "length (cont_bytes c) = (if c then 4 else 0)"
  by (simp add: cont_bytes_def)

lemma le_i32_cont: "le_i32 [255, 255, 255, 255] = -1"
  by (simp add: le_i32_def)

lemma le_i32_minus_one:
  assumes "length p = 4" and "le_i32 p = -1"
  shows "p = [255, 255, 255, 255]"
proof -
  obtain a b c d where p: "p = [a, b, c, d]"
    using assms(1) by (auto simp: length_Suc_conv numeral_eq_Suc)
  have bound: "unat w \<le> 255" for w :: u8
    using unsigned_less [of w, where ?'a = nat] by simp
  define n where "n = unat a + 256 * unat b + 65536 * unat c + 16777216 * unat d"
  from assms(2) have "(if n < 2147483648 then int n else int n - 4294967296) = -1"
    unfolding p le_i32_def n_def by (simp add: Let_def)
  then have "unat a + 256 * unat b + 65536 * unat c + 16777216 * unat d = 4294967295"
    unfolding n_def [symmetric] by (auto split: if_splits)
  with bound [of a] bound [of b] bound [of c] bound [of d]
  have "unat a = 255" "unat b = 255" "unat c = 255" "unat d = 255" by linarith+
  then show ?thesis
    unfolding p by (simp add: word_unat_eq_iff)
qed

lemma bytes_get_Some_iff:
  "bytes_get bs a (a + n) = Some p \<longleftrightarrow> length p = n \<and> (\<exists>rest. drop a bs = p @ rest) \<and> a \<le> length bs"
proof
  assume "bytes_get bs a (a + n) = Some p"
  then have "a + n \<le> length bs" and p: "p = take n (drop a bs)"
    by (auto simp: bytes_get_def split: if_splits)
  then show "length p = n \<and> (\<exists>rest. drop a bs = p @ rest) \<and> a \<le> length bs"
    by (metis append_take_drop_id length_drop length_take add_leD1 le_diff_conv2 min.absorb2 add.commute)
next
  assume *: "length p = n \<and> (\<exists>rest. drop a bs = p @ rest) \<and> a \<le> length bs"
  then obtain rest where rest: "drop a bs = p @ rest" by blast
  then have "length bs - a = length p + length rest" by (metis length_append length_drop)
  with * rest show "bytes_get bs a (a + n) = Some p" by (auto simp: bytes_get_def)
qed

lemma drop_append_drop: "drop a bs = p @ rest \<Longrightarrow> drop (a + length p) bs = rest"
  by (metis add.commute append_eq_conv_conj drop_drop)

lemma drop_append_length: "drop a bs = p @ rest \<Longrightarrow> p \<noteq> [] \<Longrightarrow> a + length p \<le> length bs"
  by (drule arg_cong [of _ _ length]) (cases p; simp)

lemma prefix_at_Some_iff:
  "prefix_at bs a = Some p \<longleftrightarrow> length p = 4 \<and> (\<exists>rest. drop a bs = p @ rest) \<and> a \<le> length bs"
  unfolding prefix_at_def by (rule bytes_get_Some_iff)

lemma ipc_prefix_iff:
  assumes "offset \<le> length bs"
  shows "ipc_prefix bs offset = Inr (len, at) \<longleftrightarrow>
    (\<exists>c p. length p = 4 \<and> le_i32 p = len \<and> (\<not> c \<longrightarrow> len \<noteq> -1)
       \<and> drop offset bs = cont_bytes c @ p @ drop at bs
       \<and> at = offset + length (cont_bytes c @ p))"
  (is "?l \<longleftrightarrow> ?r")
proof
  assume l: ?l
  then obtain p where p: "prefix_at bs offset = Some p"
    by (auto simp: ipc_prefix_def result_iffs)
  then obtain rest where rest: "length p = 4" "drop offset bs = p @ rest"
    by (auto simp: prefix_at_Some_iff)
  note at4 = drop_append_drop [OF rest(2), unfolded rest(1)]
  show ?r
  proof (cases "le_i32 p = -1")
    case True
    then obtain q where q: "prefix_at bs (offset + 4) = Some q"
      and eqs: "len = le_i32 q" "at = offset + 8"
      using l p by (auto simp: ipc_prefix_def result_iffs)
    then obtain rest' where rest': "length q = 4" "drop (offset + 4) bs = q @ rest'"
      by (auto simp: prefix_at_Some_iff)
    have "p = cont_bytes True"
      using le_i32_minus_one [OF rest(1) True] by (simp add: cont_bytes_def)
    moreover have "drop at bs = rest'"
      using drop_append_drop [OF rest'(2)] rest'(1) eqs(2) by (simp add: add.assoc)
    ultimately show ?thesis
      using rest rest' at4 eqs by (intro exI [of _ True] exI [of _ q]) auto
  next
    case False
    with l p rest at4 show ?thesis
      by (intro exI [of _ False] exI [of _ p]) (auto simp: ipc_prefix_def cont_bytes_def)
  qed
next
  assume ?r
  then obtain c p where cp: "length p = 4" "le_i32 p = len" "\<not> c \<longrightarrow> len \<noteq> -1"
    "drop offset bs = cont_bytes c @ p @ drop at bs" "at = offset + length (cont_bytes c @ p)"
    by blast
  show ?l
  proof (cases c)
    case True
    have "prefix_at bs offset = Some (cont_bytes True)"
      using cp(4) True assms by (auto simp: prefix_at_Some_iff cont_bytes_def)
    moreover have "drop (offset + 4) bs = p @ drop at bs"
      using drop_append_drop [OF cp(4)] True by simp
    moreover have "offset + 4 \<le> length bs"
      using drop_append_length [OF cp(4)] True by (cases "cont_bytes c = []") (auto simp: cont_bytes_def)
    ultimately have "prefix_at bs (offset + 4) = Some p"
      using cp(1) by (auto simp: prefix_at_Some_iff)
    with \<open>prefix_at bs offset = _\<close> cp True show ?thesis
      by (simp add: ipc_prefix_def cont_bytes_def le_i32_cont add.assoc)
  next
    case False
    with cp assms have "prefix_at bs offset = Some p"
      by (auto simp: prefix_at_Some_iff cont_bytes_def)
    with False cp show ?thesis by (simp add: ipc_prefix_def cont_bytes_def)
  qed
qed

lemma ipc_frame_end_iff:
  assumes "offset \<le> length bs"
  shows "ipc_frame A bs offset = Inr None \<longleftrightarrow>
    (\<exists>c eos. length eos = 4 \<and> le_i32 eos = 0 \<and> drop offset bs = cont_bytes c @ eos)"
  (is "?l \<longleftrightarrow> ?r")
proof
  assume ?l
  then have "ipc_prefix bs offset = Inr (0, length bs)"
    by (auto simp: ipc_frame_def result_iffs split: if_splits)
  then show ?r
    using ipc_prefix_iff [OF assms] by auto
next
  assume ?r
  then obtain c eos where e: "length eos = 4" "le_i32 eos = 0" "drop offset bs = cont_bytes c @ eos"
    by blast
  then have "length bs = offset + length (cont_bytes c @ eos)"
    using assms by (metis length_drop le_add_diff_inverse)
  with e have "ipc_prefix bs offset = Inr (0, length bs)"
    unfolding ipc_prefix_iff [OF assms] by (intro exI [of _ c] exI [of _ eos]) auto
  then show ?l by (simp add: ipc_frame_def)
qed

lemma ipc_frame_nextE:
  assumes "ipc_frame A bs offset = Inr (Some n)"
  obtains m at metadata k where "ipc_prefix bs offset = Inr (int m, at)" "0 < m"
    "bytes_get bs at (at + m) = Some metadata" "root_as_message A metadata = Some (int k)"
    "n = at + m + k" "n \<le> length bs"
proof -
  obtain len at where pre: "ipc_prefix bs offset = Inr (len, at)"
    using assms by (cases "ipc_prefix bs offset") (auto simp: ipc_frame_def)
  with assms have "len \<noteq> 0" by (auto simp: ipc_frame_def split: if_splits)
  with assms pre obtain m metadata bl k e where
    "usize_try_from len = Some m" "checked_add at m = Some e"
    "bytes_get bs at e = Some metadata" "root_as_message A metadata = Some bl"
    "usize_try_from bl = Some k"
    "(case checked_add e k of None \<Rightarrow> None | Some e \<Rightarrow> if e \<le> length bs then Some e else None) = Some n"
    by (auto simp: ipc_frame_def result_iffs)
  with \<open>len \<noteq> 0\<close> pre show thesis
    by (intro that [of m at metadata k])
      (auto simp: checked_add_Some_iff usize_try_from_def split: if_splits option.splits)
qed

lemma ipc_frame_next_iff:
  assumes "offset \<le> length bs" and "length bs < usize_limit"
  shows "ipc_frame A bs offset = Inr (Some n) \<longleftrightarrow>
    (\<exists>f. frame_ok A f \<and> drop offset bs = render f @ drop n bs \<and> n = offset + length (render f))"
  (is "?l \<longleftrightarrow> ?r")
proof
  assume ?l
  then obtain m at metadata k where fr: "ipc_prefix bs offset = Inr (int m, at)" "0 < m"
    "bytes_get bs at (at + m) = Some metadata" "root_as_message A metadata = Some (int k)"
    "n = at + m + k" "n \<le> length bs"
    by (elim ipc_frame_nextE)
  obtain c p where p: "length p = 4" "le_i32 p = int m" "drop offset bs = cont_bytes c @ p @ drop at bs"
    "at = offset + length (cont_bytes c @ p)"
    using fr(1) unfolding ipc_prefix_iff [OF assms(1)] by blast
  obtain rest where md: "length metadata = m" "drop at bs = metadata @ rest"
    using fr(3) by (auto simp: bytes_get_Some_iff)
  have rest: "rest = drop (at + m) bs" using drop_append_drop [OF md(2)] md(1) by simp
  let ?f = "\<lparr>f_cont = c, f_len = p, f_meta = metadata, f_body = take k rest\<rparr>"
  have len: "length (take k rest) = k" using rest fr(5,6) by simp
  have "drop k rest = drop n bs" using rest fr(5) by (simp add: add.commute add.left_commute)
  then have "drop offset bs = render ?f @ drop n bs"
    unfolding p(3) md(2) render_def using append_take_drop_id [of k rest] by simp
  moreover have "n = offset + length (render ?f)"
    using p(1,4) md(1) fr(5) len by (simp add: render_def)
  moreover have "frame_ok A ?f"
    using p md(1) fr len by (auto simp: frame_ok_def)
  ultimately show ?r by blast
next
  assume ?r
  then obtain f where f: "frame_ok A f" "drop offset bs = render f @ drop n bs"
    "n = offset + length (render f)" by blast
  let ?at = "offset + length (cont_bytes (f_cont f) @ f_len f)"
  let ?m = "length (f_meta f)"
  have at: "drop ?at bs = f_meta f @ f_body f @ drop n bs"
    using drop_append_drop [of offset bs "cont_bytes (f_cont f) @ f_len f"] f(2)
    by (simp add: render_def)
  have n: "n \<le> length bs"
    using drop_append_length [OF f(2)] f(1,3) by (auto simp: render_def frame_ok_def)
  have pre: "ipc_prefix bs offset = Inr (int ?m, ?at)"
    unfolding ipc_prefix_iff [OF assms(1)]
    using f at by (intro exI [of _ "f_cont f"] exI [of _ "f_len f"]) (auto simp: frame_ok_def render_def)
  have "?at \<le> length bs" using n f(3) by (simp add: render_def)
  then have md: "bytes_get bs ?at (?at + ?m) = Some (f_meta f)"
    using at by (simp only: bytes_get_Some_iff) blast
  have sums: "?at + ?m + length (f_body f) = n" using f(3) by (simp add: render_def)
  then have "checked_add ?at ?m = Some (?at + ?m)"
    and "checked_add (?at + ?m) (length (f_body f)) = Some n"
    using n assms(2) by (auto simp: checked_add_def)
  then show ?l
    using pre md f(1) n unfolding ipc_frame_def
    by (simp add: frame_ok_def usize_try_from_def)
qed

lemma ipc_loop_sound:
  assumes "ipc_loop A bs offset = Inr u" and "offset \<le> length bs" and "length bs < usize_limit"
  shows "framed A (drop offset bs)"
  using assms
proof (induction A bs offset rule: ipc_loop.induct)
  case (1 A bs offset)
  show ?case
  proof (cases "ipc_frame A bs offset")
    case (Inl e)
    with "1.prems" show ?thesis by (simp add: ipc_loop.simps)
  next
    case (Inr r)
    show ?thesis
    proof (cases r)
      case None
      with Inr obtain c eos where "length eos = 4" "le_i32 eos = 0" "drop offset bs = cont_bytes c @ eos"
        using "1.prems"(2) by (auto simp: ipc_frame_end_iff)
      then show ?thesis
        unfolding framed_def by (intro exI [of _ "[]"] exI [of _ c] exI [of _ eos]) simp
    next
      case (Some n)
      with Inr obtain f where f: "frame_ok A f" "drop offset bs = render f @ drop n bs"
        using "1.prems"(2,3) by (auto simp: ipc_frame_next_iff)
      have "ipc_loop A bs n = Inr u"
        using "1.prems"(1) Inr Some by (simp add: ipc_loop.simps)
      then have "framed A (drop n bs)"
        using "1.IH" [OF Inr Some] "1.prems"(3) ipc_frame_advances(2) [of A bs offset n] Inr Some by simp
      then obtain fs c eos where "\<forall>f \<in> set fs. frame_ok A f" "length eos = 4" "le_i32 eos = 0"
        "drop n bs = concat (map render fs) @ cont_bytes c @ eos"
        by (auto simp: framed_def)
      with f show ?thesis
        unfolding framed_def by (intro exI [of _ "f # fs"] exI [of _ c] exI [of _ eos]) simp
    qed
  qed
qed

lemma ipc_loop_complete:
  assumes "drop offset bs = concat (map render fs) @ cont_bytes c @ eos"
    and "\<forall>f \<in> set fs. frame_ok A f" and "length eos = 4" and "le_i32 eos = 0"
    and "offset \<le> length bs" and "length bs < usize_limit"
  shows "ipc_loop A bs offset = Inr ()"
  using assms
proof (induction fs arbitrary: offset)
  case Nil
  then have "ipc_frame A bs offset = Inr None"
    by (subst ipc_frame_end_iff) auto
  then show ?case by (simp add: ipc_loop.simps)
next
  case (Cons f fs)
  let ?n = "offset + length (render f)"
  have split: "drop offset bs = render f @ concat (map render fs) @ cont_bytes c @ eos"
    using Cons.prems(1) by simp
  have next_at: "drop ?n bs = concat (map render fs) @ cont_bytes c @ eos"
    by (rule drop_append_drop [OF split])
  have ok: "frame_ok A f" using Cons.prems(2) by simp
  then have "render f \<noteq> []" by (auto simp: frame_ok_def render_def)
  then have le: "?n \<le> length bs" using drop_append_length [OF split] by blast
  have "ipc_frame A bs offset = Inr (Some ?n)"
    using Cons.prems(5,6) ok split next_at by (subst ipc_frame_next_iff) auto
  moreover have "ipc_loop A bs ?n = Inr ()"
    using Cons.IH [OF next_at] Cons.prems le by simp
  ultimately show ?case by (simp add: ipc_loop.simps [of A bs offset])
qed

subsection \<open>Properties\<close>

text \<open>
  C16: the framing check accepts exactly the complete streams. Within the size limit, a payload
  passes if and only if it is a sequence of whole messages, each with a positive little-endian
  length, parsable metadata and a body of the announced length, closed by an end-of-stream
  marker with nothing after it. Truncation at any byte and trailing bytes are refused, and the
  check always returns.
\<close>

theorem validate_ipc_accepts_exactly_framed:
  assumes "limit \<le> usize_max"
  shows "validate_ipc A bs limit = Inr () \<longleftrightarrow> length bs \<le> limit \<and> framed A bs"
proof (cases "length bs \<le> limit")
  case True
  then have small: "length bs < usize_limit"
    using assms by (simp add: usize_max_def usize_limit_def)
  have "ipc_loop A bs 0 = Inr () \<longleftrightarrow> framed A bs"
    using ipc_loop_sound [of A bs 0 "()"] ipc_loop_complete [of 0 bs] small
    by (auto simp: framed_def)
  with True show ?thesis by (simp add: validate_ipc_def)
qed (simp add: validate_ipc_def)

text \<open>
  A codec for one-row batches with one binary column, with one-byte metadata that announces
  the length of the body.
\<close>

definition demo_batch :: "bytes \<Rightarrow> record_batch" where
  "demo_batch x =
     \<lparr>schema_fields = envelope_schema ''request'', columns = [BinaryArray [Some x]], num_rows = 1\<rparr>"

definition demo_payload :: "record_batch \<Rightarrow> bytes option" where
  "demo_payload b =
     (case columns b of
        [BinaryArray [Some x]] \<Rightarrow> if b = demo_batch x \<and> length x < 256 then Some x else None
      | _ \<Rightarrow> None)"

definition demo_ipc :: arrow_ipc where
  "demo_ipc =
     \<lparr>ipc_schema = (\<lambda>fs. Inr [[255, 255, 255, 255], [1, 0, 0, 0], [0]]),
      ipc_batch = (\<lambda>b. case demo_payload b of
          Some x \<Rightarrow> Inr [[1, 0, 0, 0], [of_nat (length x)], x] | None \<Rightarrow> Inl ''unsupported''),
      ipc_finish = [[255, 255, 255, 255], [0, 0, 0, 0]],
      memory_size = (\<lambda>b. 0),
      root_as_message = (\<lambda>m. case m of [k] \<Rightarrow> Some (int (unat k)) | _ \<Rightarrow> None),
      stream_items = (\<lambda>bs. Inr [Inr (demo_batch (take (length bs - 22) (drop 14 bs)))]),
      to_data = (\<lambda>_. ArrayData [] None [])\<rparr>"

theorem validate_ipc_accepts_exactly_framed_witness:
  "validate_ipc demo_ipc [1, 0, 0, 0, 2, 7, 8, 255, 255, 255, 255, 0, 0, 0, 0] 100 = Inr ()"
proof -
  let ?bs = "[1, 0, 0, 0, 2, 7, 8, 255, 255, 255, 255, 0, 0, 0, 0] :: bytes"
  have "framed demo_ipc ?bs"
    unfolding framed_def
    by (rule exI [of _ "[\<lparr>f_cont = False, f_len = [1, 0, 0, 0], f_meta = [2], f_body = [7, 8]\<rparr>]"],
        rule exI [of _ True], rule exI [of _ "[0, 0, 0, 0]"])
      (simp add: frame_ok_def render_def cont_bytes_def le_i32_def demo_ipc_def)
  then show ?thesis
    using validate_ipc_accepts_exactly_framed [of 100 demo_ipc ?bs] by (simp add: usize_max_def)
qed

text \<open>
  What Arrow documents of its stream writer and reader: what the writer produced for a batch
  is a complete stream, and the reader yields that one batch again.
\<close>

definition ipc_round_trips :: "arrow_ipc \<Rightarrow> bool" where
  "ipc_round_trips A \<longleftrightarrow>
     (\<forall>b header body. ipc_schema A (schema_fields b) = Inr header \<longrightarrow> ipc_batch A b = Inr body \<longrightarrow>
        framed A (concat header @ concat body @ concat (ipc_finish A))
        \<and> stream_items A (concat header @ concat body @ concat (ipc_finish A)) = Inr [Inr b])"

lemma batch_ipc_round_trip:
  assumes "ipc_round_trips A" and "limit \<le> usize_max"
    and "batch_buffer_bytes (to_data A) b \<le> limit"
    and "encode_batch_ipc A b limit = Inr bs"
  shows "decode_batch_ipc A bs limit = Inr b"
proof -
  have ok: "framed A bs" "stream_items A bs = Inr [Inr b]" "length bs \<le> limit"
    using assms(1,4) by (auto simp: encode_batch_ipc_ok_iff ipc_round_trips_def)
  then have "ipc_loop A bs 0 = Inr ()"
    using ipc_loop_complete [of 0 bs] assms(2)
    by (auto simp: framed_def usize_max_def usize_limit_def)
  with ok assms(3) show ?thesis
    by (simp add: decode_batch_ipc_def validate_ipc_def)
qed

text \<open>
  What the derived conversion of a record type promises: a built record is a struct of one
  valid row of the declared type, and reading its row gives the value back.
\<close>

definition vgi_round_trips :: "'a vgi_arrow \<Rightarrow> bool" where
  "vgi_round_trips T \<longleftrightarrow>
     (\<forall>value arr. build_singleton T value = Inr arr \<longrightarrow>
        (\<exists>cs. arr = StructArray [True] cs \<and> Struct (map fst cs) = arrow_data_type T
           \<and> read_row T arr 0 = Inr value))"

lemma struct_of_batch_of_struct:
  "struct_of_batch (batch_of_struct [True] cs) = StructArray [True] cs"
  by (simp add: struct_of_batch_def batch_of_struct_def zip_map_fst_snd)

text \<open>A larger limit does not change an encoding.\<close>

lemma encode_batch_ipc_mono:
  "encode_batch_ipc A b limit = Inr bs \<Longrightarrow> limit \<le> limit' \<Longrightarrow> encode_batch_ipc A b limit' = Inr bs"
  by (auto simp: encode_batch_ipc_ok_iff)

lemma record_decodes:
  assumes "ipc_round_trips A" and "vgi_round_trips T" and "limit \<le> usize_max"
    and "\<And>valid cs. build_singleton T value = Inr (StructArray valid cs) \<Longrightarrow>
      batch_buffer_bytes (to_data A) (batch_of_struct valid cs) \<le> limit"
    and "encode_record A T value fld limit0 = Inr outer" and "limit0 \<le> limit"
  shows "decode_record A T outer fld limit = Inr value"
proof -
  obtain bs where bs: "encode_record_ipc A T value limit0 = Inr bs"
    and outer: "outer = \<lparr>schema_fields = envelope_schema fld, columns = [BinaryArray [Some bs]],
      num_rows = 1\<rparr>"
    using assms(5) by (auto simp: encode_record_def result_iffs)
  obtain arr where arr: "build_singleton T value = Inr arr"
    using bs by (auto simp: encode_record_ipc_def result_iffs)
  then obtain cs where cs: "arr = StructArray [True] cs" "Struct (map fst cs) = arrow_data_type T"
    "read_row T arr 0 = Inr value"
    using assms(2) by (auto simp: vgi_round_trips_def)
  have valid: "validate_array (StructArray [True] cs) False = Inr ()"
    and enc0: "encode_batch_ipc A (batch_of_struct [True] cs) limit0 = Inr bs"
    using bs arr cs(1) by (auto simp: encode_record_ipc_def result_iffs)
  have enc: "encode_batch_ipc A (batch_of_struct [True] cs) limit = Inr bs"
    by (rule encode_batch_ipc_mono [OF enc0 assms(6)])
  have "batch_buffer_bytes (to_data A) (batch_of_struct [True] cs) \<le> limit"
    using assms(4) arr cs(1) by blast
  then have "decode_batch_ipc A bs limit = Inr (batch_of_struct [True] cs)"
    by (rule batch_ipc_round_trip [OF assms(1,3) _ enc])
  moreover have "require_one_row (batch_of_struct [True] cs) = Inr ()"
    by (simp add: require_one_row_def batch_of_struct_def)
  ultimately have "decode_record_ipc A T bs limit = Inr value"
    using cs valid by (simp add: decode_record_ipc_def struct_of_batch_of_struct del: validate_array.simps)
  then show ?thesis
    by (simp add: decode_record_def outer binary_value_def require_one_row_def column_by_name_def
        envelope_schema_def binary_field_def)
qed

text \<open>
  A typed request survives the wire. If Arrow's reader returns what its writer wrote and the
  derived conversion reads what it built, then a request that encodes decodes to the same value, at
  a receiver whose limit covers the sender's and the allocation, and the value passed validation.
\<close>

lemma request_decodes:
  assumes "ipc_round_trips A" and "vgi_round_trips T" and "limit \<le> usize_max"
    and "\<And>valid cs. build_singleton T value = Inr (StructArray valid cs) \<Longrightarrow>
      batch_buffer_bytes (to_data A) (batch_of_struct valid cs) \<le> limit"
    and "encode_request A T val value limit0 = Inr outer" and "limit0 \<le> limit"
  shows "decode_request A T val outer limit = Inr value \<and> val value = Inr ()"
proof -
  have val: "val value = Inr ()" and enc: "encode_record A T value ''request'' limit0 = Inr outer"
    using assms(5) by (auto simp: encode_request_def result_iffs)
  have "decode_record A T outer ''request'' limit = Inr value"
    by (rule record_decodes [OF assms(1-4) enc assms(6)])
  with val show ?thesis by (simp add: decode_request_def)
qed

lemma response_decodes:
  assumes "ipc_round_trips A" and "vgi_round_trips T" and "limit \<le> usize_max"
    and "\<And>valid cs. build_singleton T value = Inr (StructArray valid cs) \<Longrightarrow>
      batch_buffer_bytes (to_data A) (batch_of_struct valid cs) \<le> limit"
    and "encode_response A T val value limit0 = Inr outer" and "limit0 \<le> limit"
  shows "decode_response A T val outer limit = Inr value"
proof -
  have val: "val value = Inr ()" and enc: "encode_record A T value ''result'' limit0 = Inr outer"
    using assms(5) by (auto simp: encode_response_def result_iffs)
  have "decode_record A T outer ''result'' limit = Inr value"
    by (rule record_decodes [OF assms(1-4) enc assms(6)])
  with val show ?thesis by (simp add: decode_response_def)
qed

lemma demo_payload_Some: "demo_payload b = Some x \<Longrightarrow> b = demo_batch x \<and> length x < 256"
  by (auto simp: demo_payload_def split: list.splits array.splits option.splits if_splits)

lemma demo_ipc_round_trips: "ipc_round_trips demo_ipc"
  unfolding ipc_round_trips_def
proof (intro allI impI)
  fix b header body
  assume h: "ipc_schema demo_ipc (schema_fields b) = Inr header"
    and "ipc_batch demo_ipc b = Inr body"
  then obtain x where x: "b = demo_batch x" "length x < 256"
    and body: "body = [[1, 0, 0, 0], [of_nat (length x)], x]"
    by (auto simp: demo_ipc_def dest: demo_payload_Some split: option.splits)
  have header: "header = [[255, 255, 255, 255], [1, 0, 0, 0], [0]]"
    using h by (simp add: demo_ipc_def)
  let ?bs = "concat header @ concat body @ concat (ipc_finish demo_ipc)"
  have len: "unat (of_nat (length x) :: u8) = length x"
    using x(2) by (simp add: unat_of_nat)
  let ?fs = "[\<lparr>f_cont = True, f_len = [1, 0, 0, 0], f_meta = [0], f_body = []\<rparr>,
    \<lparr>f_cont = False, f_len = [1, 0, 0, 0], f_meta = [of_nat (length x)], f_body = x\<rparr>]"
  have "\<forall>f \<in> set ?fs. frame_ok demo_ipc f"
    using len by (simp add: frame_ok_def le_i32_def demo_ipc_def)
  moreover have "?bs = concat (map render ?fs) @ cont_bytes True @ [0, 0, 0, 0]"
    by (simp add: header body render_def cont_bytes_def demo_ipc_def)
  ultimately have "framed demo_ipc ?bs"
    unfolding framed_def
    by (intro exI [of _ ?fs] exI [of _ True] exI [of _ "[0, 0, 0, 0]"]) (simp add: le_i32_def)
  moreover have "stream_items demo_ipc ?bs = Inr [Inr b]"
    by (simp add: header body x(1) demo_ipc_def)
  ultimately show "framed demo_ipc ?bs \<and> stream_items demo_ipc ?bs = Inr [Inr b]" by blast
qed

text \<open>A turn decodes under any limit that covers the one it was encoded with.\<close>

lemma bind_turn_decodes:
  assumes "ipc_round_trips A" and "limit' \<le> usize_max"
    and "\<And>b. batch = Some b \<Longrightarrow> batch_buffer_bytes (to_data A) b \<le> limit'"
    and "encode_bind_turn A batch limit = Inr turn" and "limit \<le> limit'"
  shows "decode_bind_turn A turn limit' = Inr batch"
proof (cases batch)
  case None
  with assms(4) show ?thesis
    by (auto simp: encode_bind_turn_def decode_bind_turn_def require_one_row_def binary_value_def
        column_by_name_def bind_turn_schema_def binary_field_def)
next
  case (Some b)
  then obtain bs where bs: "encode_batch_ipc A b limit = Inr bs"
    and turn: "turn = \<lparr>schema_fields = bind_turn_schema,
      columns = [BinaryArray [Some bs], BooleanArray [Some False]], num_rows = 1\<rparr>"
    using assms(4) by (auto simp: encode_bind_turn_def result_iffs)
  have "decode_batch_ipc A bs limit' = Inr b"
    using batch_ipc_round_trip [OF assms(1,2) _ encode_batch_ipc_mono [OF bs assms(5)]] assms(3) Some by blast
  with Some show ?thesis
    by (simp add: turn decode_bind_turn_def require_one_row_def binary_value_def
        column_by_name_def bind_turn_schema_def binary_field_def)
qed

end
