(* ===== verification/Records.thy ===== *)
theory Records
  imports Ipc
begin

text \<open>
  The typed requests and responses of the protocol
  (\<open>crates/grainlift-protocol/src/requests.rs\<close> and \<open>responses.rs\<close>) and the domain checks that
  run on them before any state changes.
\<close>

subsection \<open>Option values\<close>

record wire_option_value =
  kind :: string
  wv_string :: "string option"
  wv_bytes :: "bytes option"
  wv_int :: "int option"
  wv_double :: "64 word option"

definition wire_value_base :: wire_option_value where
  "wire_value_base =
     \<lparr>kind = '''', wv_string = None, wv_bytes = None, wv_int = None, wv_double = None\<rparr>"

fun wire_value_from :: "option_value \<Rightarrow> wire_option_value" where
  "wire_value_from (StringValue v) = wire_value_base\<lparr>kind := ''string'', wv_string := Some v\<rparr>"
| "wire_value_from (BytesValue v) = wire_value_base\<lparr>kind := ''bytes'', wv_bytes := Some v\<rparr>"
| "wire_value_from (IntValue v) = wire_value_base\<lparr>kind := ''int'', wv_int := Some v\<rparr>"
| "wire_value_from (DoubleValue v) = wire_value_base\<lparr>kind := ''double'', wv_double := Some v\<rparr>"
| "wire_value_from (OtherValue n) = wire_value_base\<lparr>kind := ''unsupported''\<rparr>"

definition kind_mismatch :: protocol_error where
  "kind_mismatch = InvalidWire ''option kind and populated value fields do not match''"

definition wire_value_validate :: "wire_option_value \<Rightarrow> (protocol_error, unit) result" where
  "wire_value_validate w =
     (let populated = [wv_string w \<noteq> None, wv_bytes w \<noteq> None, wv_int w \<noteq> None, wv_double w \<noteq> None];
          correct =
            (if kind w = ''string'' then populated ! 0
             else if kind w = ''bytes'' then populated ! 1
             else if kind w = ''int'' then populated ! 2
             else if kind w = ''double'' then populated ! 3
             else False)
      in if correct \<and> length (filter (\<lambda>p. p) populated) = 1 then Inr () else Inl kind_mismatch)"

definition wire_value_into_adbc :: "wire_option_value \<Rightarrow> (protocol_error, option_value) result" where
  "wire_value_into_adbc w =
     (case (wv_string w, wv_bytes w, wv_int w, wv_double w) of
        (Some v, None, None, None) \<Rightarrow>
          if kind w = ''string'' then Inr (StringValue v) else Inl kind_mismatch
      | (None, Some v, None, None) \<Rightarrow>
          if kind w = ''bytes'' then Inr (BytesValue v) else Inl kind_mismatch
      | (None, None, Some v, None) \<Rightarrow>
          if kind w = ''int'' then Inr (IntValue v) else Inl kind_mismatch
      | (None, None, None, Some v) \<Rightarrow>
          if kind w = ''double'' then Inr (DoubleValue v) else Inl kind_mismatch
      | _ \<Rightarrow> Inl kind_mismatch)"

fun supported :: "option_value \<Rightarrow> bool" where
  "supported (OtherValue n) = False"
| "supported v = True"

lemma wire_value_into_iff:
  "wire_value_into_adbc w = Inr v \<longleftrightarrow> supported v \<and> w = wire_value_from v"
  by (cases w; cases v)
    (auto simp: wire_value_into_adbc_def wire_value_base_def kind_mismatch_def split: option.splits if_splits)

lemma wire_value_validate_iff:
  "wire_value_validate w = Inr u \<longleftrightarrow> (\<exists>v. wire_value_into_adbc w = Inr v)"
  by (cases w)
    (auto simp: wire_value_validate_def wire_value_into_adbc_def Let_def split: option.splits if_splits)

subsection \<open>Requests\<close>

record named_option =
  no_key :: string
  no_value :: wire_option_value

record open_connection_request =
  oc_target :: string
  oc_database_options :: "named_option list"
  oc_connection_options :: "named_option list"

record set_connection_option_request =
  sc_session_id :: string
  sc_key :: string
  sc_value :: wire_option_value

record set_statement_option_request =
  ss_session_id :: string
  ss_statement_id :: string
  ss_key :: string
  ss_value :: wire_option_value

record get_info_request =
  gi_session_id :: string
  gi_codes :: "int list option"

record get_objects_request =
  go_session_id :: string
  go_depth :: int
  go_catalog :: "string option"
  go_db_schema :: "string option"
  go_table_name :: "string option"
  go_table_types :: "string list option"
  go_column_name :: "string option"

record get_table_schema_request =
  gt_session_id :: string
  gt_catalog :: "string option"
  gt_db_schema :: "string option"
  gt_table_name :: string

record get_statistics_request =
  gs_session_id :: string
  gs_catalog :: "string option"
  gs_db_schema :: "string option"
  gs_table_name :: "string option"
  gs_approximate :: bool

definition validate_text :: "string \<Rightarrow> (protocol_error, unit) result" where
  "validate_text v = reject_if (nul \<in> set v) (InvalidWire ''text must not contain NUL'')"

definition validate_handle :: "string \<Rightarrow> (protocol_error, unit) result" where
  "validate_handle v =
     try_bind (validate_text v)
       (\<lambda>_. reject_if (v = []) (InvalidWire ''handle or option key must not be empty''))"

definition filters :: "string option list \<Rightarrow> (protocol_error, unit) result" where
  "filters vs = check_all validate_text (List.map_filter (\<lambda>v. v) vs)"

fun validate_named_options ::
  "string set \<Rightarrow> named_option list \<Rightarrow> (protocol_error, unit) result" where
  "validate_named_options keys [] = Inr ()"
| "validate_named_options keys (x # xs) =
     try_bind (validate_handle (no_key x)) (\<lambda>_.
     if no_key x \<in> keys then Inl (InvalidWire ''duplicate initial option key'')
     else
       try_bind (wire_value_validate (no_value x)) (\<lambda>_.
       validate_named_options (insert (no_key x) keys) xs))"

definition named_options_into_adbc ::
  "named_option list \<Rightarrow> (protocol_error, (string \<times> option_value) list) result" where
  "named_options_into_adbc xs =
     try_bind (validate_named_options {} xs) (\<lambda>_.
     collect_results
       (\<lambda>x. try_bind (wire_value_into_adbc (no_value x)) (\<lambda>v. Inr (no_key x, v))) xs)"

definition open_request_validate :: "open_connection_request \<Rightarrow> (protocol_error, unit) result" where
  "open_request_validate r =
     try_bind (validate_handle (oc_target r)) (\<lambda>_.
     try_bind (validate_named_options {} (oc_database_options r)) (\<lambda>_.
     validate_named_options {} (oc_connection_options r)))"

definition set_connection_option_validate ::
  "set_connection_option_request \<Rightarrow> (protocol_error, unit) result" where
  "set_connection_option_validate r =
     try_bind (validate_handle (sc_session_id r)) (\<lambda>_.
     try_bind (validate_handle (sc_key r)) (\<lambda>_. wire_value_validate (sc_value r)))"

definition set_statement_option_validate ::
  "set_statement_option_request \<Rightarrow> (protocol_error, unit) result" where
  "set_statement_option_validate r =
     try_bind (validate_handle (ss_session_id r)) (\<lambda>_.
     try_bind (validate_handle (ss_statement_id r)) (\<lambda>_.
     try_bind (validate_handle (ss_key r)) (\<lambda>_. wire_value_validate (ss_value r))))"

definition get_info_validate :: "get_info_request \<Rightarrow> (protocol_error, unit) result" where
  "get_info_validate r =
     try_bind (validate_handle (gi_session_id r)) (\<lambda>_.
     reject_if
       (case gi_codes r of None \<Rightarrow> False | Some codes \<Rightarrow> list_ex (\<lambda>c. u32_try_from c = None) codes)
       (InvalidWire ''info codes must fit uint32''))"

definition get_objects_validate :: "get_objects_request \<Rightarrow> (protocol_error, unit) result" where
  "get_objects_validate r =
     try_bind (validate_handle (go_session_id r)) (\<lambda>_.
     try_bind
       (filters [go_catalog r, go_db_schema r, go_table_name r, go_column_name r]) (\<lambda>_.
     try_bind
       (case go_table_types r of None \<Rightarrow> Inr () | Some ts \<Rightarrow> check_all validate_text ts) (\<lambda>_.
     reject_if (\<not> (0 \<le> go_depth r \<and> go_depth r \<le> 3))
       (InvalidWire ''object depth must be one of 0, 1, 2, 3''))))"

definition get_table_schema_validate ::
  "get_table_schema_request \<Rightarrow> (protocol_error, unit) result" where
  "get_table_schema_validate r =
     try_bind (validate_handle (gt_session_id r)) (\<lambda>_.
     filters [gt_catalog r, gt_db_schema r, Some (gt_table_name r)])"

definition get_statistics_validate :: "get_statistics_request \<Rightarrow> (protocol_error, unit) result" where
  "get_statistics_validate r =
     try_bind (validate_handle (gs_session_id r)) (\<lambda>_.
     filters [gs_catalog r, gs_db_schema r, gs_table_name r])"

subsection \<open>Responses\<close>

record ok_response =
  or_ok :: bool

record session_response =
  sr_session_id :: string

record statement_response =
  st_session_id :: string
  st_statement_id :: string

record schema_response =
  sm_schema_ipc :: bytes

record update_response =
  up_rows_affected :: "int option"

record value_response =
  vr_value :: wire_option_value

record execute_response =
  er_result_id :: string
  er_rows_affected :: "int option"
  er_schema_ipc :: bytes

record partitions_response =
  pr_rows_affected :: int
  pr_schema_ipc :: bytes
  pr_partitions :: "bytes list"

record partition_claims =
  pc_version :: int
  pc_expires_at_ms :: int
  pc_owner :: string
  pc_descriptor :: bytes

definition validate_rows :: "int option \<Rightarrow> (protocol_error, unit) result" where
  "validate_rows v =
     reject_if (case v of None \<Rightarrow> False | Some rows \<Rightarrow> rows < -1)
       (InvalidWire ''affected row count must be -1, null, or nonnegative'')"

definition execute_response_validate :: "execute_response \<Rightarrow> (protocol_error, unit) result" where
  "execute_response_validate r = validate_rows (er_rows_affected r)"

definition partitions_response_validate :: "partitions_response \<Rightarrow> (protocol_error, unit) result" where
  "partitions_response_validate r = validate_rows (Some (pr_rows_affected r))"

text \<open>The default \<open>ResponseRecord::validate\<close>, and those of updates and values.\<close>

definition response_validate :: "'a \<Rightarrow> (protocol_error, unit) result" where
  "response_validate r = Inr ()"

definition update_response_validate :: "update_response \<Rightarrow> (protocol_error, unit) result" where
  "update_response_validate r = validate_rows (up_rows_affected r)"

definition value_response_validate :: "value_response \<Rightarrow> (protocol_error, unit) result" where
  "value_response_validate r = wire_value_validate (vr_value r)"

subsection \<open>Lemmas\<close>

lemma validate_handle_ok_iff: "validate_handle v = Inr u \<longleftrightarrow> v \<noteq> [] \<and> nul \<notin> set v"
  by (auto simp: validate_handle_def validate_text_def result_iffs reject_if_Inr_iff)

lemma validate_named_options_ok_iff:
  "validate_named_options keys xs = Inr u \<longleftrightarrow>
     distinct (map no_key xs) \<and> no_key ` set xs \<inter> keys = {}
     \<and> (\<forall>x \<in> set xs. no_key x \<noteq> [] \<and> nul \<notin> set (no_key x)
          \<and> (\<exists>v. wire_value_into_adbc (no_value x) = Inr v))"
  by (induction xs arbitrary: keys)
    (auto simp: try_bind_Inr_iff validate_handle_ok_iff wire_value_validate_iff)

definition wire_named :: "string \<times> option_value \<Rightarrow> named_option" where
  "wire_named kv = \<lparr>no_key = fst kv, no_value = wire_value_from (snd kv)\<rparr>"

lemma collect_named_iff:
  "collect_results
     (\<lambda>x. try_bind (wire_value_into_adbc (no_value x)) (\<lambda>v. Inr (no_key x, v))) xs = Inr kvs \<longleftrightarrow>
   xs = map wire_named kvs \<and> list_all (\<lambda>kv. supported (snd kv)) kvs"
proof (induction xs arbitrary: kvs)
  case Nil
  then show ?case by auto
next
  case (Cons x xs)
  show ?case
  proof (cases kvs)
    case Nil
    then show ?thesis by (auto simp: try_bind_Inr_iff)
  next
    case (Cons kv kvs')
    show ?thesis
      unfolding Cons
      by (cases x; cases kv) (auto simp: try_bind_Inr_iff Cons.IH wire_value_into_iff wire_named_def)
  qed
qed

subsection \<open>Properties\<close>

text \<open>
  C27: initial options cross the wire unchanged or not at all. The server accepts a list of
  named options exactly when it is the wire form of a list of option values with distinct,
  non-empty, NUL-free keys, and the accepted values are those, in order: what a client's driver
  sends for such a list is what the downstream driver receives, and a wire value whose kind does
  not match its populated field is refused.
\<close>

theorem named_options_exact:
  "named_options_into_adbc xs = Inr kvs \<longleftrightarrow>
     xs = map wire_named kvs \<and> list_all (\<lambda>kv. supported (snd kv)) kvs
     \<and> distinct (map fst kvs) \<and> list_all (\<lambda>kv. fst kv \<noteq> [] \<and> nul \<notin> set (fst kv)) kvs"
  (is "?l \<longleftrightarrow> ?r")
proof
  assume ?l
  then have v: "validate_named_options {} xs = Inr ()"
    and c: "xs = map wire_named kvs \<and> list_all (\<lambda>kv. supported (snd kv)) kvs"
    by (auto simp: named_options_into_adbc_def try_bind_Inr_iff collect_named_iff)
  with v show ?r
    by (auto simp: validate_named_options_ok_iff wire_named_def list_all_iff comp_def)
next
  assume r: ?r
  have "\<exists>v. wire_value_into_adbc (no_value x) = Inr v" if "x \<in> set xs" for x
    using r that by (auto simp: wire_named_def wire_value_into_iff list_all_iff)
  with r have "validate_named_options {} xs = Inr ()"
    by (auto simp: validate_named_options_ok_iff wire_named_def list_all_iff comp_def)
  with r show ?l
    by (simp add: named_options_into_adbc_def collect_named_iff)
qed

end
