(* ===== verification/Partitions.thy ===== *)
theory Partitions
  imports Records
begin

text \<open>
  Sealed partition descriptors (\<open>crates/grainlift-server/src/partitions.rs\<close>): a descriptor the
  downstream driver produced leaves the server inside a token that names its owner and its
  expiry and carries a MAC. HMAC-SHA256 and the clock are parameters: \<open>hmac key m\<close> is the 32-byte
  tag, \<open>now\<close> the time since the epoch in nanoseconds, \<open>None\<close> for a clock set before it.
\<close>

subsection \<open>Helpers\<close>

definition str_bytes :: "string \<Rightarrow> bytes" where
  "str_bytes s = map (\<lambda>c. of_nat (of_char c)) s"

definition hex_digit :: "nat \<Rightarrow> char" where
  "hex_digit n = ''0123456789abcdef'' ! n"

text \<open>\<open>format!("{byte:02x}")\<close> of every byte.\<close>

definition hex_byte :: "u8 \<Rightarrow> string" where
  "hex_byte b = [hex_digit (unat b div 16), hex_digit (unat b mod 16)]"

definition hex :: "bytes \<Rightarrow> string" where
  "hex bs = concat (map hex_byte bs)"

definition partition_invalid :: adbc_error where
  "partition_invalid =
     with_message_and_status
       [Lit ''Partition descriptor is invalid, expired, or unavailable to this principal''] NotFound"

definition as_millis :: "nat \<Rightarrow> nat" where
  "as_millis d = d div 1000000"

definition now_ms :: "nat option \<Rightarrow> (adbc_error, int) result" where
  "now_ms now =
     ok_or partition_invalid
       (case now of None \<Rightarrow> None | Some d \<Rightarrow> i64_try_from (as_millis d))"

subsection \<open>The signer\<close>

record partition_signer =
  ps_key :: bytes
  ps_ttl :: nat

text \<open>\<open>PartitionSigner::new\<close>: \<open>random_key\<close> is the drawn key.\<close>

definition signer_new :: "bytes \<Rightarrow> nat \<Rightarrow> partition_signer" where
  "signer_new random_key ttl = \<lparr>ps_key = random_key, ps_ttl = ttl\<rparr>"

definition signer_mac :: "(bytes \<Rightarrow> bytes \<Rightarrow> bytes) \<Rightarrow> partition_signer \<Rightarrow> bytes \<Rightarrow> bytes" where
  "signer_mac hmac s bs = hmac (ps_key s) bs"

definition owner_message :: "string \<Rightarrow> string \<Rightarrow> bytes" where
  "owner_message target who = str_bytes target @ [0] @ str_bytes who"

definition signer_owner ::
  "(bytes \<Rightarrow> bytes \<Rightarrow> bytes) \<Rightarrow> partition_signer \<Rightarrow> string \<Rightarrow> string \<Rightarrow> string" where
  "signer_owner hmac s target who = hex (signer_mac hmac s (owner_message target who))"

definition magic :: bytes where
  "magic = str_bytes ''GLP2''"

definition seal ::
  "arrow_ipc \<Rightarrow> partition_claims vgi_arrow \<Rightarrow> (bytes \<Rightarrow> bytes \<Rightarrow> bytes) \<Rightarrow> nat option \<Rightarrow>
   partition_signer \<Rightarrow> string \<Rightarrow> string \<Rightarrow> bytes \<Rightarrow> nat \<Rightarrow> (adbc_error, bytes) result" where
  "seal A T hmac now s target who descriptor limit =
     try_bind (ok_or partition_invalid (i64_try_from (as_millis (ps_ttl s)))) (\<lambda>lifetime.
     try_bind (now_ms now) (\<lambda>ms.
     try_bind (ok_or partition_invalid (i64_checked_add ms lifetime)) (\<lambda>expires.
     try_bind
       (map_err (\<lambda>_. partition_invalid)
          (encode_record_ipc A T
             \<lparr>pc_version = 1, pc_expires_at_ms = expires, pc_owner = signer_owner hmac s target who,
              pc_descriptor = descriptor\<rparr>
             (saturating_sub limit 36))) (\<lambda>payload.
     Inr (magic @ signer_mac hmac s payload @ payload)))))"

definition unseal ::
  "arrow_ipc \<Rightarrow> partition_claims vgi_arrow \<Rightarrow> (bytes \<Rightarrow> bytes \<Rightarrow> bytes) \<Rightarrow> nat option \<Rightarrow>
   partition_signer \<Rightarrow> string \<Rightarrow> string \<Rightarrow> bytes \<Rightarrow> nat \<Rightarrow> (adbc_error, bytes) result" where
  "unseal A T hmac now s target who token limit =
     (if length token < 36 \<or> length token > limit \<or> take 4 token \<noteq> magic
      then Inl partition_invalid
      else
        try_bind
          (reject_if (signer_mac hmac s (drop 36 token) \<noteq> take 32 (drop 4 token)) partition_invalid) (\<lambda>_.
        try_bind
          (map_err (\<lambda>_. partition_invalid) (decode_record_ipc A T (drop 36 token) (limit - 36))) (\<lambda>claims.
        if pc_version claims \<noteq> 1 then Inl partition_invalid
        else
          try_bind (now_ms now) (\<lambda>ms.
          if pc_expires_at_ms claims \<le> ms
             \<or> pc_owner claims \<noteq> signer_owner hmac s target who
          then Inl partition_invalid
          else Inr (pc_descriptor claims)))))"

subsection \<open>Lemmas\<close>

lemma length_magic: "length magic = 4"
  by (simp add: magic_def str_bytes_def)

lemma char_byte_inj: "(of_nat (of_char c) :: u8) = of_nat (of_char d) \<Longrightarrow> c = d"
proof -
  assume *: "(of_nat (of_char c) :: u8) = of_nat (of_char d)"
  have "of_char x < (256 :: nat)" for x :: char
    using nat_of_char_less_256 by simp
  then have "unat (of_nat (of_char x) :: u8) = (of_char x :: nat)" for x :: char
    by (simp add: unat_of_nat)
  with * have "(of_char c :: nat) = of_char d" by metis
  then show "c = d" by simp
qed

lemma str_bytes_inj: "str_bytes a = str_bytes b \<Longrightarrow> a = b"
  unfolding str_bytes_def by (rule map_injective) (auto simp: inj_def dest: char_byte_inj)

lemma hex_digit_inj: "i < 16 \<Longrightarrow> j < 16 \<Longrightarrow> hex_digit i = hex_digit j \<Longrightarrow> i = j"
proof -
  have "distinct ''0123456789abcdef''" by simp
  then show "i < 16 \<Longrightarrow> j < 16 \<Longrightarrow> hex_digit i = hex_digit j \<Longrightarrow> i = j"
    unfolding hex_digit_def by (subst (asm) nth_eq_iff_index_eq) auto
qed

lemma hex_byte_inj: "hex_byte a = hex_byte b \<Longrightarrow> a = b"
proof -
  assume *: "hex_byte a = hex_byte b"
  have bound: "unat w < 256" for w :: u8
    using unsigned_less [of w, where ?'a = nat] by simp
  have "unat w div 16 < 16" "unat w mod 16 < 16" for w :: u8
    using bound [of w] by auto
  with * have "unat a div 16 = unat b div 16" "unat a mod 16 = unat b mod 16"
    using hex_digit_inj by (auto simp: hex_byte_def)
  then have "unat a = unat b" by (metis div_mult_mod_eq)
  then show "a = b" by (simp add: word_unat_eq_iff)
qed

lemma hex_inj: "hex a = hex b \<Longrightarrow> a = b"
proof (induction a arbitrary: b)
  case Nil
  then show ?case by (cases b) (auto simp: hex_def hex_byte_def)
next
  case (Cons x xs)
  then obtain y ys where b: "b = y # ys" by (cases b) (auto simp: hex_def hex_byte_def)
  with Cons.prems have "hex_byte x @ hex xs = hex_byte y @ hex ys" by (simp add: hex_def)
  moreover have "length (hex_byte x) = length (hex_byte y)" by (simp add: hex_byte_def)
  ultimately have "hex_byte x = hex_byte y" "hex xs = hex ys" by auto
  with Cons.IH b show ?case by (auto dest: hex_byte_inj)
qed

lemma owner_message_inj:
  assumes "nul \<notin> set t1" and "nul \<notin> set t2" and "owner_message t1 p1 = owner_message t2 p2"
  shows "t1 = t2 \<and> p1 = p2"
proof -
  have eq: "str_bytes (t1 @ nul # p1) = str_bytes (t2 @ nul # p2)"
    using assms(3) by (simp add: owner_message_def str_bytes_def)
  then have "t1 @ nul # p1 = t2 @ nul # p2" by (rule str_bytes_inj)
  with assms(1,2) show ?thesis
    by (metis split_once_append option.inject prod.inject)
qed

lemma encode_record_ipc_length:
  "encode_record_ipc A T v limit = Inr bs \<Longrightarrow> length bs \<le> limit"
  by (cases "build_singleton T v"; cases "projr (build_singleton T v)")
    (auto simp: encode_record_ipc_def result_iffs encode_batch_ipc_ok_iff)

lemma record_ipc_round_trip:
  assumes "ipc_round_trips A" and "vgi_round_trips T" and "limit \<le> usize_max"
    and "\<And>valid cs. build_singleton T value = Inr (StructArray valid cs) \<Longrightarrow>
      batch_buffer_bytes (to_data A) (batch_of_struct valid cs) \<le> limit"
    and "encode_record_ipc A T value limit = Inr bs"
  shows "decode_record_ipc A T bs limit = Inr value"
proof -
  have "encode_record A T value f limit =
      Inr \<lparr>schema_fields = envelope_schema f, columns = [BinaryArray [Some bs]], num_rows = 1\<rparr>" for f
    using assms(5) by (simp add: encode_record_def)
  from record_decodes [OF assms(1-4) this order_refl] show ?thesis
    by (simp add: decode_record_def binary_value_def require_one_row_def column_by_name_def
        envelope_schema_def binary_field_def)
qed

text \<open>Tags are 32 bytes; decoding a built record allocates at most \<open>n\<close> bytes.\<close>

definition sha256_tags :: "(bytes \<Rightarrow> bytes \<Rightarrow> bytes) \<Rightarrow> bool" where
  "sha256_tags hmac \<longleftrightarrow> (\<forall>k m. length (hmac k m) = 32)"

definition allocates_within :: "arrow_ipc \<Rightarrow> 'a vgi_arrow \<Rightarrow> nat \<Rightarrow> bool" where
  "allocates_within A T n \<longleftrightarrow>
     (\<forall>v valid cs. build_singleton T v = Inr (StructArray valid cs) \<longrightarrow>
        batch_buffer_bytes (to_data A) (batch_of_struct valid cs) \<le> n)"

text \<open>What a sealed token is, and how the check of another identity proceeds on it.\<close>

lemma unseal_sealed:
  assumes "ipc_round_trips A" and "vgi_round_trips T" and "limit \<le> usize_max"
    and tags: "sha256_tags hmac" and buffers: "allocates_within A T (limit - 36)"
    and "seal A T hmac now s target who descriptor limit = Inr token"
  shows "\<exists>ms ttl. now_ms now = Inr ms \<and> i64_try_from (as_millis (ps_ttl s)) = Some ttl
    \<and> unseal A T hmac now' s target' who' token limit =
        try_bind (now_ms now') (\<lambda>ms'.
          if ms + ttl \<le> ms' \<or> signer_owner hmac s target who \<noteq> signer_owner hmac s target' who'
          then Inl partition_invalid else Inr descriptor)"
proof -
  have mac_length: "length (hmac k m) = 32" for k m using tags by (simp add: sha256_tags_def)
  obtain ttl ms payload where ttl: "i64_try_from (as_millis (ps_ttl s)) = Some ttl"
    and ms: "now_ms now = Inr ms" and sum: "i64_checked_add ms ttl = Some (ms + ttl)"
    and payload: "encode_record_ipc A T
       \<lparr>pc_version = 1, pc_expires_at_ms = ms + ttl, pc_owner = signer_owner hmac s target who,
        pc_descriptor = descriptor\<rparr> (limit - 36) = Inr payload"
    and token: "token = magic @ signer_mac hmac s payload @ payload"
    using assms(6) by (auto simp: seal_def result_iffs i64_checked_add_def split: if_splits)
  have "decode_record_ipc A T payload (limit - 36) = Inr
     \<lparr>pc_version = 1, pc_expires_at_ms = ms + ttl, pc_owner = signer_owner hmac s target who,
      pc_descriptor = descriptor\<rparr>"
    using assms(3) buffers
    by (intro record_ipc_round_trip [OF assms(1,2) _ _ payload]) (auto simp: allocates_within_def)
  moreover have len: "length payload \<le> limit - 36"
    by (rule encode_record_ipc_length [OF payload])
  have "payload \<noteq> []"
    using calculation by (auto simp: decode_record_ipc_def decode_batch_ipc_def validate_ipc_def
        ipc_loop.simps ipc_frame_def ipc_prefix_def prefix_at_def bytes_get_def)
  with len have "\<not> (length token < 36 \<or> length token > limit \<or> take 4 token \<noteq> magic)"
    using token mac_length by (cases payload) (auto simp: length_magic signer_mac_def)
  moreover have "drop 36 token = payload" "take 32 (drop 4 token) = signer_mac hmac s payload"
    using token mac_length by (auto simp: length_magic signer_mac_def)
  ultimately show ?thesis
    using ttl ms by (cases "now_ms now'") (simp_all add: unseal_def)
qed

subsection \<open>Properties\<close>


text \<open>
  A record conversion for the witnesses: claims with a fixed expiry and a 64-character owner.
\<close>

definition bytes_str :: "bytes \<Rightarrow> string" where
  "bytes_str bs = map (\<lambda>b. char_of (unat b)) bs"

definition demo_claims :: "int \<Rightarrow> partition_claims vgi_arrow" where
  "demo_claims expiry =
     \<lparr>build_singleton = (\<lambda>c.
        if pc_version c = 1 \<and> pc_expires_at_ms c = expiry \<and> length (pc_owner c) = 64
        then Inr (StructArray [True] [(binary_field ''request'',
               BinaryArray [Some (str_bytes (pc_owner c) @ pc_descriptor c)])])
        else Inl ''unsupported''),
      arrow_data_type = Struct [binary_field ''request''],
      read_row = (\<lambda>a i. case a of
          StructArray _ [(_, BinaryArray [Some bs])] \<Rightarrow>
            Inr \<lparr>pc_version = 1, pc_expires_at_ms = expiry, pc_owner = bytes_str (take 64 bs),
                 pc_descriptor = drop 64 bs\<rparr>
        | _ \<Rightarrow> Inl ''type'')\<rparr>"

definition demo_hmac :: "bytes \<Rightarrow> bytes \<Rightarrow> bytes" where
  "demo_hmac k m = replicate 32 (sum_list k + sum_list m)"

definition demo_signer :: partition_signer where
  "demo_signer = signer_new [1, 2, 3] 5000000000"

lemma bytes_str_bytes: "bytes_str (str_bytes s) = s"
proof -
  have "of_char x < (256 :: nat)" for x :: char
    using nat_of_char_less_256 by simp
  then have "unat (of_nat (of_char x) :: u8) = (of_char x :: nat)" for x :: char
    by (simp add: unat_of_nat)
  then show ?thesis by (induction s) (simp_all add: bytes_str_def str_bytes_def)
qed

lemma demo_claims_round_trips: "vgi_round_trips (demo_claims expiry)"
proof -
  have "take 64 (str_bytes w @ d) = str_bytes w" "drop 64 (str_bytes w @ d) = d" if "length w = 64" for w d
    using that by (simp_all add: str_bytes_def)
  then show ?thesis
    by (auto simp: vgi_round_trips_def demo_claims_def bytes_str_bytes split: if_splits)
qed

lemma demo_claims_buffers: "allocates_within demo_ipc (demo_claims expiry) n"
  by (auto simp: allocates_within_def demo_claims_def batch_buffer_bytes_def batch_of_struct_def demo_ipc_def split: if_splits)

lemma demo_hmac_length: "sha256_tags demo_hmac"
  by (simp add: sha256_tags_def demo_hmac_def)

lemma demo_seal:
  "\<exists>token. seal demo_ipc (demo_claims 6000) demo_hmac (Some 1000000000) demo_signer
     target who [9] 1000 = Inr token"
proof -
  have owner: "length (signer_owner demo_hmac demo_signer target who) = 64"
    by (simp add: signer_owner_def signer_mac_def demo_hmac_def hex_def hex_byte_def length_concat
        comp_def sum_list_replicate)
  let ?x = "str_bytes (signer_owner demo_hmac demo_signer target who) @ [9]"
  have batch: "batch_of_struct [True] [(binary_field ''request'', BinaryArray [Some ?x])] = demo_batch ?x"
    by (simp add: batch_of_struct_def demo_batch_def envelope_schema_def)
  have "length ?x = 65" using owner by (simp add: str_bytes_def)
  then have "\<exists>bs. encode_batch_ipc demo_ipc (demo_batch ?x) 964 = Inr bs"
    by (auto simp: encode_batch_ipc_def demo_ipc_def demo_payload_def demo_batch_def bounded_write_def)
  then show ?thesis
    using owner batch
    by (auto simp: seal_def demo_signer_def signer_new_def now_ms_def i64_try_from_def as_millis_def
        i64_max_def i64_checked_add_def encode_record_ipc_def demo_claims_def)
qed




end
