(* ===== verification/Manager.thy ===== *)
theory Manager
  imports Session Partitions
begin

text \<open>
  The session manager (\<open>SessionManager\<close> of \<open>crates/grainlift-server/src/session.rs\<close>): admission
  against quotas, opening a session, lookup by principal with an idle lease, closing, reaping and
  shutdown. The registry is behind one mutex; an open releases it while the driver connects, so
  the segments of an open interleave with everything else, and the second half of the theory is
  the step relation of that interleaving. Instants and durations are nanoseconds.
\<close>

subsection \<open>State\<close>

record manager_config =
  mc_targets :: "(string, target_config) hash_map"
  mc_ttl :: nat
  mc_require_authentication :: bool
  mc_limits :: session_limits
  mc_authorizer :: target_authorizer
  mc_timeout :: nat
  mc_signer :: partition_signer

record 'S registry =
  sessions :: "(string, 'S) hash_map"
  opening_total :: nat
  opening_by_principal :: "(string, nat) hash_map"

text \<open>
  \<open>held\<close> counts, per session, the references that handlers hold besides the registry's own:
  \<open>Arc::strong_count\<close> minus one.
\<close>

record 'S manager =
  registry :: "'S registry mutex"
  closing :: bool
  held :: "string \<Rightarrow> nat"

record auth_context =
  authenticated :: bool
  auth_domain :: string
  auth_principal :: string

definition manager_new ::
  "(string, target_config) hash_map \<Rightarrow> nat \<Rightarrow> bool \<Rightarrow> session_limits \<Rightarrow> target_authorizer \<Rightarrow> nat \<Rightarrow>
   bytes \<Rightarrow> manager_config \<times> 'S manager" where
  "manager_new tgts ttl require limits authorizer deadline random_key =
     (\<lparr>mc_targets = tgts, mc_ttl = ttl, mc_require_authentication = require, mc_limits = limits,
       mc_authorizer = authorizer, mc_timeout = deadline, mc_signer = signer_new random_key ttl\<rparr>,
      \<lparr>registry = fresh_mutex \<lparr>sessions = [], opening_total = 0, opening_by_principal = []\<rparr>,
       closing = False, held = (\<lambda>_. 0)\<rparr>)"

definition registry_poisoned :: adbc_error where
  "registry_poisoned = internal [Lit ''session registry is poisoned'']"

definition shutting_down :: adbc_error where
  "shutting_down = busy [Lit ''proxy is shutting down'']"

definition wrong_principal :: adbc_error where
  "wrong_principal =
     with_message_and_status [Lit ''session does not belong to the authenticated principal''] Unauthorized"

abbreviation put_registry :: "'S registry mutex \<Rightarrow> 'S manager \<Rightarrow> 'S manager" where
  "put_registry r m \<equiv> m\<lparr>registry := r\<rparr>"

abbreviation with_registry ::
  "('S registry, adbc_error, 'a) step \<Rightarrow> ('S manager, adbc_error, 'a) step" where
  "with_registry f \<equiv> locked registry put_registry registry_poisoned f"

subsection \<open>Principals\<close>

text \<open>\<open>SessionManager::principal\<close>: \<open>None\<close> is the error of \<open>require_authenticated\<close>.\<close>

definition principal_of :: "bool \<Rightarrow> auth_context \<Rightarrow> string option" where
  "principal_of require a =
     (if require \<and> \<not> authenticated a then None
      else if authenticated a then Some (auth_domain a @ nul # auth_principal a)
      else Some (nul # ''anonymous''))"

subsection \<open>Leases\<close>

definition elapsed :: "nat \<Rightarrow> nat \<Rightarrow> nat" where
  "elapsed now since = now - since"

text \<open>The scan of \<open>reap_expired\<close>: sessions in use are skipped, a poisoned lease ends the scan.\<close>

fun expired_ids ::
  "nat \<Rightarrow> nat \<Rightarrow> (string \<Rightarrow> nat) \<Rightarrow> (string, ('c, 's, 'k, 'r, 'b, 'sch, 'w) session) hash_map \<Rightarrow>
   (adbc_error, string list) result" where
  "expired_ids ttl now refs [] = Inr []"
| "expired_ids ttl now refs ((sid, s) # rest) =
     (if refs sid > 0 then expired_ids ttl now refs rest
      else
        try_bind (lock (internal [Lit ''session lease is poisoned'']) (last_used s)) (\<lambda>used.
        try_bind (expired_ids ttl now refs rest) (\<lambda>ids.
        Inr (if elapsed now used > ttl then sid # ids else ids))))"

definition reap_expired ::
  "manager_config \<Rightarrow> nat \<Rightarrow>
   (('c, 's, 'k, 'r, 'b, 'sch, 'w) session manager, adbc_error, nat) step" where
  "reap_expired mc now m =
     with_registry
       (\<lambda>r. case expired_ids (mc_ttl mc) now (held m) (sessions r) of
              Inl e \<Rightarrow> (Inl e, r)
            | Inr ids \<Rightarrow> (Inr (length ids), r\<lparr>sessions := fold hm_remove ids (sessions r)\<rparr>)) m"

subsection \<open>Opening\<close>

definition release_open_reservation_locked :: "string \<Rightarrow> 'S registry \<Rightarrow> 'S registry" where
  "release_open_reservation_locked who r =
     (let r' = r\<lparr>opening_total := saturating_sub (opening_total r) 1\<rparr>
      in case hm_get (opening_by_principal r) who of
           None \<Rightarrow> r'
         | Some opening \<Rightarrow>
             (let opening' = saturating_sub opening 1
              in r'\<lparr>opening_by_principal :=
                     (if opening' = 0 then hm_remove who (opening_by_principal r)
                      else hm_insert who opening' (opening_by_principal r))\<rparr>))"

definition release_open_reservation :: "string \<Rightarrow> ('S manager, adbc_error, unit) step" where
  "release_open_reservation who =
     with_registry (\<lambda>r. (Inr (), release_open_reservation_locked who r))"

text \<open>The admission decision of \<open>reserve_open\<close> under the registry lock.\<close>

definition admit ::
  "manager_config \<Rightarrow> bool \<Rightarrow> string \<Rightarrow>
   (('c, 's, 'k, 'r, 'b, 'sch, 'w) session registry, adbc_error, unit) step" where
  "admit mc is_closing who r =
     (if is_closing then (Inl shutting_down, r)
      else if length (sessions r) + opening_total r \<ge> max_sessions (mc_limits mc)
      then (Inl (quota ''global session''), r)
      else
        (let active = hm_count (\<lambda>s. s_principal s = who) (sessions r);
             opening = (case hm_get (opening_by_principal r) who of None \<Rightarrow> 0 | Some n \<Rightarrow> n)
         in if active + opening \<ge> max_sessions_per_principal (mc_limits mc)
            then (Inl (quota ''per-principal session''), r)
            else (Inr (),
                  r\<lparr>opening_total := opening_total r + 1,
                    opening_by_principal := hm_insert who (opening + 1) (opening_by_principal r)\<rparr>)))"

definition reserve_open ::
  "manager_config \<Rightarrow> nat \<Rightarrow> string \<Rightarrow>
   (('c, 's, 'k, 'r, 'b, 'sch, 'w) session manager, adbc_error, unit) step" where
  "reserve_open mc now who m =
     (if closing m then (Inl shutting_down, m)
      else
        st_bind (reap_expired mc now)
          (\<lambda>_ m'. with_registry (admit mc (closing m') who) m') m)"

text \<open>\<open>open\<close> up to the point where it waits for the driver: the checks and the reservation.\<close>

definition open_admit ::
  "manager_config \<Rightarrow> nat \<Rightarrow> string \<Rightarrow> string \<Rightarrow>
   (('c, 's, 'k, 'r, 'b, 'sch, 'w) session manager, adbc_error, target_config) step" where
  "open_admit mc now who target_name m =
     (if \<not> authorizer_allows (mc_authorizer mc) who target_name
      then (Inl (with_message_and_status
              [Lit ''principal is not authorized for the requested target''] Unauthorized), m)
      else
        (case hm_get (mc_targets mc) target_name of
           None \<Rightarrow> (Inl (with_message_and_status [Lit ''target is not configured''] NotFound), m)
         | Some target \<Rightarrow> st_bind (reserve_open mc now who) (\<lambda>_ m'. (Inr target, m')) m))"

text \<open>What the waiting \<open>open\<close> sees of the thread that runs \<open>backend.open\<close>.\<close>

datatype open_outcome = OpenReplied | OpenTimedOut | OpenStopped | OpenSpawnFailed string

definition open_result ::
  "nat \<Rightarrow> open_outcome \<Rightarrow> (adbc_error, 'c) result \<Rightarrow> (adbc_error, 'c) result" where
  "open_result deadline oc backend_value =
     (case oc of
        OpenReplied \<Rightarrow> backend_value
      | OpenTimedOut \<Rightarrow> Inl (timeout [Lit ''downstream connection open exceeded '', Dur deadline])
      | OpenStopped \<Rightarrow> Inl (internal [Lit ''connection open worker stopped''])
      | OpenSpawnFailed e \<Rightarrow> Inl (internal [Lit ''start connection open worker: '', Str e]))"

definition new_session ::
  "('c, 's, 'k, 'r, 'b, 'sch, 'x) driver_ops \<Rightarrow> manager_config \<Rightarrow> nat \<Rightarrow> string \<Rightarrow> string \<Rightarrow>
   target_config \<Rightarrow> 'c \<Rightarrow> ('c, 's, 'k, 'r, 'b, 'sch, 'w) session" where
  "new_session D mc now who target_name target conn =
     \<lparr>s_principal = who, s_target = target_name, last_used = fresh_mutex now,
      connection = fresh_mutex conn, statements = fresh_mutex [], results = fresh_mutex [],
      bind_uploads = fresh_mutex [], connection_cancel = d_connection_cancel D conn,
      option_policy = connection_option_policy target, s_limits = mc_limits mc,
      s_timeout = mc_timeout mc\<rparr>"

text \<open>The last segment: give the reservation back and register the session, unless shutting down.\<close>

definition open_commit ::
  "string \<Rightarrow> string \<Rightarrow> 'S \<Rightarrow> ('S manager, adbc_error, string) step" where
  "open_commit uuid who session m =
     with_registry
       (\<lambda>r. let r' = release_open_reservation_locked who r
            in if closing m then (Inl shutting_down, r')
               else (Inr uuid, r'\<lparr>sessions := hm_insert uuid session (sessions r')\<rparr>)) m"

text \<open>
  An error after admission: the reservation is released first, and a poisoned registry takes
  precedence over the error itself.
\<close>

definition open_abort :: "string \<Rightarrow> adbc_error \<Rightarrow> ('S manager, adbc_error, 'a) step" where
  "open_abort who e = st_bind (release_open_reservation who) (\<lambda>_ m. (Inl e, m))"

text \<open>
  \<open>SessionManager::open\<close> without interference, with the value of \<open>backend.open\<close>, what became of
  the opening thread, whether the session worker could be spawned, and the drawn identifier.
\<close>

definition manager_open ::
  "('c, 's, 'k, 'r, 'b, 'sch, 'x) driver_ops \<Rightarrow> manager_config \<Rightarrow>
   (target_config \<Rightarrow> (adbc_error, 'c) result) \<Rightarrow> nat \<Rightarrow> open_outcome \<Rightarrow> (string, unit) result \<Rightarrow> string \<Rightarrow>
   string \<Rightarrow> string \<Rightarrow> (('c, 's, 'k, 'r, 'b, 'sch, 'w) session manager, adbc_error, string) step" where
  "manager_open D mc backend now oc worker_spawn uuid who target_name =
     st_bind (open_admit mc now who target_name)
       (\<lambda>target.
          case open_result (mc_timeout mc) oc (backend target) of
            Inl e \<Rightarrow> open_abort who e
          | Inr conn \<Rightarrow>
              (case worker_spawn of
                 Inl e \<Rightarrow> open_abort who (internal [Lit ''start session worker: '', Str e])
               | Inr _ \<Rightarrow>
                   open_commit uuid who (new_session D mc now who target_name target conn)))"

subsection \<open>Lookup, closing and shutdown\<close>

text \<open>
  \<open>get\<close>: under the registry lock the session is found, its owner and its lease are checked and
  the lease is refreshed; the caller then holds one more reference.
\<close>

definition lookup_job ::
  "manager_config \<Rightarrow> nat \<Rightarrow> (string \<Rightarrow> nat) \<Rightarrow> string \<Rightarrow> string \<Rightarrow>
   (('c, 's, 'k, 'r, 'b, 'sch, 'w) session registry, adbc_error,
    ('c, 's, 'k, 'r, 'b, 'sch, 'w) session) step" where
  "lookup_job mc now refs sid who r =
     (case hm_get (sessions r) sid of
        None \<Rightarrow> (Inl (not_found ''session''), r)
      | Some s \<Rightarrow>
          if s_principal s \<noteq> who then (Inl wrong_principal, r)
          else
            (case lock (internal [Lit ''session lease is poisoned'']) (last_used s) of
               Inl e \<Rightarrow> (Inl e, r)
             | Inr used \<Rightarrow>
                 if elapsed now used > mc_ttl mc \<and> refs sid = 0
                 then (Inl (not_found ''expired session''),
                       r\<lparr>sessions := hm_remove sid (sessions r)\<rparr>)
                 else
                   (let s' = s\<lparr>last_used := store (last_used s) now\<rparr>
                    in (Inr s', r\<lparr>sessions := hm_insert sid s' (sessions r)\<rparr>))))"

definition manager_get ::
  "manager_config \<Rightarrow> nat \<Rightarrow> string \<Rightarrow> string \<Rightarrow>
   (('c, 's, 'k, 'r, 'b, 'sch, 'w) session manager, adbc_error,
    ('c, 's, 'k, 'r, 'b, 'sch, 'w) session) step" where
  "manager_get mc now sid who m =
     (case with_registry (lookup_job mc now (held m) sid who) m of
        (Inr s, m') \<Rightarrow> (Inr s, m'\<lparr>held := (held m')(sid := held m' sid + 1)\<rparr>)
      | (Inl e, m') \<Rightarrow> (Inl e, m'))"

definition manager_close ::
  "string \<Rightarrow> string \<Rightarrow>
   (('c, 's, 'k, 'r, 'b, 'sch, 'w) session manager, adbc_error, unit) step" where
  "manager_close sid who =
     with_registry
       (\<lambda>r. case hm_get (sessions r) sid of
              None \<Rightarrow> (Inl (not_found ''session''), r)
            | Some s \<Rightarrow>
                if s_principal s \<noteq> who then (Inl wrong_principal, r)
                else (Inr (), r\<lparr>sessions := hm_remove sid (sessions r)\<rparr>))"

text \<open>\<open>close_all\<close>: the flag is raised before the registry is locked.\<close>

definition begin_closing :: "'S manager \<Rightarrow> 'S manager" where
  "begin_closing m = m\<lparr>closing := True\<rparr>"

definition take_sessions :: "('S manager, adbc_error, nat) step" where
  "take_sessions =
     with_registry (\<lambda>r. (Inr (length (sessions r)), r\<lparr>sessions := []\<rparr>))"

definition close_all :: "('S manager, adbc_error, nat) step" where
  "close_all m = take_sessions (begin_closing m)"

record resource_counts =
  rc_sessions :: nat
  rc_statements :: nat
  rc_results :: nat
  rc_bind_uploads :: nat
  rc_opening_sessions :: nat

fun count_resources ::
  "('c, 's, 'k, 'r, 'b, 'sch, 'w) session list \<Rightarrow> resource_counts \<Rightarrow>
   (adbc_error, resource_counts) result" where
  "count_resources [] c = Inr c"
| "count_resources (s # ss) c =
     try_bind (lock statements_poisoned (statements s)) (\<lambda>st.
     try_bind (lock results_poisoned (results s)) (\<lambda>rs.
     try_bind (lock uploads_poisoned (bind_uploads s)) (\<lambda>us.
     count_resources ss
       (c\<lparr>rc_statements := rc_statements c + length st, rc_results := rc_results c + length rs,
          rc_bind_uploads := rc_bind_uploads c + length us\<rparr>))))"

definition manager_resource_counts ::
  "('c, 's, 'k, 'r, 'b, 'sch, 'w) session manager \<Rightarrow> (adbc_error, resource_counts) result" where
  "manager_resource_counts m =
     try_bind (lock registry_poisoned (registry m)) (\<lambda>r.
     count_resources (hm_values (sessions r))
       \<lparr>rc_sessions = length (sessions r), rc_statements = 0, rc_results = 0, rc_bind_uploads = 0,
        rc_opening_sessions = opening_total r\<rparr>)"

subsection \<open>Partition tokens of a session\<close>

definition seal_partition ::
  "arrow_ipc \<Rightarrow> partition_claims vgi_arrow \<Rightarrow> (bytes \<Rightarrow> bytes \<Rightarrow> bytes) \<Rightarrow> nat option \<Rightarrow> manager_config \<Rightarrow>
   ('c, 's, 'k, 'r, 'b, 'sch, 'w) session \<Rightarrow> bytes \<Rightarrow> nat \<Rightarrow> (adbc_error, bytes) result" where
  "seal_partition A T hmac now mc s descriptor limit =
     seal A T hmac now (mc_signer mc) (s_target s) (s_principal s) descriptor limit"

definition open_partition ::
  "arrow_ipc \<Rightarrow> partition_claims vgi_arrow \<Rightarrow> (bytes \<Rightarrow> bytes \<Rightarrow> bytes) \<Rightarrow> nat option \<Rightarrow> manager_config \<Rightarrow>
   ('c, 's, 'k, 'r, 'b, 'sch, 'w) session \<Rightarrow> bytes \<Rightarrow> nat \<Rightarrow> (adbc_error, bytes) result" where
  "open_partition A T hmac now mc s token limit =
     unseal A T hmac now (mc_signer mc) (s_target s) (s_principal s) token limit"

subsection \<open>Interleaving\<close>

text \<open>
  The manager with the opens that wait for their driver. \<open>drained\<close> records that shutdown has
  taken the sessions.
\<close>

record 'S world =
  mgr :: "'S manager"
  pending :: "(string \<times> string \<times> target_config) list"
  drained :: bool

definition world_start :: "'S world \<Rightarrow> bool" where
  "world_start w \<longleftrightarrow>
     inner (registry (mgr w)) = \<lparr>sessions = [], opening_total = 0, opening_by_principal = []\<rparr>
     \<and> pending w = [] \<and> \<not> drained w"

text \<open>
  One step: a segment of an open, a lookup, a handler that uses or drops the session it holds, a
  close, a reap, or a half of a shutdown. A drawn identifier is one that is not registered.
\<close>

inductive world_step ::
  "('c, 's, 'k, 'r, 'b, 'sch, 'x) driver_ops \<Rightarrow> ('w, 'b, 'f, 'r) arrow_stream \<Rightarrow> manager_config \<Rightarrow>
   ('c, 's, 'k, 'r, 'b, 'sch, 'w) session world \<Rightarrow>
   ('c, 's, 'k, 'r, 'b, 'sch, 'w) session world \<Rightarrow> bool"
  for D :: "('c, 's, 'k, 'r, 'b, 'sch, 'x) driver_ops" and A :: "('w, 'b, 'f, 'r) arrow_stream" and mc
  where
  w_admitted: "open_admit mc now who tn (mgr w) = (Inr t, m') \<Longrightarrow>
     world_step D A mc w (w\<lparr>mgr := m', pending := pending w @ [(who, tn, t)]\<rparr>)"
| w_refused: "open_admit mc now who tn (mgr w) = (Inl e, m') \<Longrightarrow>
     world_step D A mc w (w\<lparr>mgr := m'\<rparr>)"
| w_abort: "(who, tn, t) \<in> set (pending w) \<Longrightarrow>
     open_abort who e (mgr w) = (r :: (adbc_error, unit) result, m') \<Longrightarrow>
     world_step D A mc w (w\<lparr>mgr := m', pending := remove1 (who, tn, t) (pending w)\<rparr>)"
| w_commit: "(who, tn, t) \<in> set (pending w) \<Longrightarrow>
     \<not> hm_contains (sessions (inner (registry (mgr w)))) uuid \<Longrightarrow>
     open_commit uuid who (new_session D mc now who tn t conn) (mgr w) = (r', m') \<Longrightarrow>
     world_step D A mc w (w\<lparr>mgr := m', pending := remove1 (who, tn, t) (pending w)\<rparr>)"
| w_get: "manager_get mc now sid who (mgr w) = (rs, m') \<Longrightarrow>
     world_step D A mc w (w\<lparr>mgr := m'\<rparr>)"
| w_work: "held (mgr w) sid > 0 \<Longrightarrow>
     hm_get (sessions (inner (registry (mgr w)))) sid = Some s \<Longrightarrow> session_step D A s s' \<Longrightarrow>
     world_step D A mc w (w\<lparr>mgr := put_registry
       (store (registry (mgr w)) ((inner (registry (mgr w)))\<lparr>sessions :=
          hm_insert sid s' (sessions (inner (registry (mgr w))))\<rparr>)) (mgr w)\<rparr>)"
| w_drop: "held (mgr w) sid > 0 \<Longrightarrow>
     world_step D A mc w (w\<lparr>mgr := (mgr w)\<lparr>held := (held (mgr w))(sid := held (mgr w) sid - 1)\<rparr>\<rparr>)"
| w_close: "manager_close sid who (mgr w) = (ru, m') \<Longrightarrow>
     world_step D A mc w (w\<lparr>mgr := m'\<rparr>)"
| w_reap: "reap_expired mc now (mgr w) = (rn, m') \<Longrightarrow>
     world_step D A mc w (w\<lparr>mgr := m'\<rparr>)"
| w_begin: "world_step D A mc w (w\<lparr>mgr := begin_closing (mgr w)\<rparr>)"
| w_take: "closing (mgr w) \<Longrightarrow> take_sessions (mgr w) = (Inr n, m') \<Longrightarrow>
     world_step D A mc w (w\<lparr>mgr := m', drained := True\<rparr>)"

subsection \<open>The registry invariant\<close>

definition opening_of :: "'S registry \<Rightarrow> string \<Rightarrow> nat" where
  "opening_of r who = (case hm_get (opening_by_principal r) who of None \<Rightarrow> 0 | Some n \<Rightarrow> n)"

definition active_of :: "('c, 's, 'k, 'r, 'b, 'sch, 'w) session registry \<Rightarrow> string \<Rightarrow> nat" where
  "active_of r who = hm_count (\<lambda>s. s_principal s = who) (sessions r)"

text \<open>What holds of every registered session.\<close>

definition session_ok :: "manager_config \<Rightarrow> ('c, 's, 'k, 'r, 'b, 'sch, 'w) session \<Rightarrow> bool" where
  "session_ok mc s \<longleftrightarrow>
     session_inv s \<and> s_limits s = mc_limits mc
     \<and> authorizer_allows (mc_authorizer mc) (s_principal s) (s_target s)
     \<and> (\<exists>t. hm_get (mc_targets mc) (s_target s) = Some t \<and> option_policy s = connection_option_policy t)"

definition registry_ok ::
  "manager_config \<Rightarrow> ('c, 's, 'k, 'r, 'b, 'sch, 'w) session registry \<Rightarrow> bool" where
  "registry_ok mc r \<longleftrightarrow>
     hm_wf (sessions r) \<and> hm_wf (opening_by_principal r)
     \<and> length (sessions r) + opening_total r \<le> max_sessions (mc_limits mc)
     \<and> (\<forall>who. active_of r who + opening_of r who \<le> max_sessions_per_principal (mc_limits mc))
     \<and> (\<forall>sid s. hm_get (sessions r) sid = Some s \<longrightarrow> session_ok mc s)"

definition reserves :: "'S registry \<Rightarrow> (string \<times> 'a) list \<Rightarrow> bool" where
  "reserves r pend \<longleftrightarrow>
     opening_total r = length pend
     \<and> (\<forall>who. opening_of r who = length (filter (\<lambda>p. fst p = who) pend))"

lemma registry_ok_shrink:
  assumes "registry_ok mc r" and "hm_wf ss" and "length ss \<le> length (sessions r)"
    and "\<And>P. hm_count P ss \<le> hm_count P (sessions r)"
    and "\<And>sid s. hm_get ss sid = Some s \<Longrightarrow> hm_get (sessions r) sid = Some s"
  shows "registry_ok mc (r\<lparr>sessions := ss\<rparr>)"
proof -
  have "active_of (r\<lparr>sessions := ss\<rparr>) who + opening_of (r\<lparr>sessions := ss\<rparr>) who
      \<le> max_sessions_per_principal (mc_limits mc)" for who
  proof -
    have "active_of (r\<lparr>sessions := ss\<rparr>) who \<le> active_of r who"
      using assms(4) by (simp add: active_of_def)
    moreover have "opening_of (r\<lparr>sessions := ss\<rparr>) who = opening_of r who"
      by (simp add: opening_of_def)
    moreover have "active_of r who + opening_of r who \<le> max_sessions_per_principal (mc_limits mc)"
      using assms(1) by (simp add: registry_ok_def)
    ultimately show ?thesis by linarith
  qed
  moreover have "session_ok mc s" if "hm_get ss sid = Some s" for sid s
    using assms(1) assms(5) [OF that] by (auto simp: registry_ok_def)
  ultimately show ?thesis using assms(1-3) by (simp add: registry_ok_def)
qed

lemma registry_ok_remove:
  "registry_ok mc r \<Longrightarrow> registry_ok mc (r\<lparr>sessions := hm_remove sid (sessions r)\<rparr>)"
  by (rule registry_ok_shrink)
    (auto simp: registry_ok_def hm_len_remove_le hm_count_remove_le split: if_splits)

lemma registry_ok_removes:
  "registry_ok mc r \<Longrightarrow> registry_ok mc (r\<lparr>sessions := fold hm_remove ids (sessions r)\<rparr>)"
  by (rule registry_ok_shrink)
    (auto simp: registry_ok_def fold_remove_length fold_remove_count fold_remove_get fold_remove_wf
      split: if_splits)

lemma registry_ok_clear: "registry_ok mc r \<Longrightarrow> registry_ok mc (r\<lparr>sessions := []\<rparr>)"
  by (rule registry_ok_shrink) auto

lemma registry_ok_replace:
  assumes "registry_ok mc r" and "hm_get (sessions r) sid = Some s" and "session_ok mc s'"
    and "s_principal s' = s_principal s"
  shows "registry_ok mc (r\<lparr>sessions := hm_insert sid s' (sessions r)\<rparr>)"
proof -
  have wf: "hm_wf (sessions r)" using assms(1) by (simp add: registry_ok_def)
  have "active_of (r\<lparr>sessions := hm_insert sid s' (sessions r)\<rparr>) who = active_of r who" for who
    unfolding active_of_def using hm_count_replace [OF wf assms(2)] assms(4) by simp
  moreover have "opening_of (r\<lparr>sessions := hm_insert sid s' (sessions r)\<rparr>) who = opening_of r who" for who
    by (simp add: opening_of_def)
  ultimately show ?thesis
    using assms hm_get_Some_contains [OF assms(2)]
    by (auto simp: registry_ok_def hm_len_insert)
qed

lemma reserves_sessions [simp]: "reserves (r\<lparr>sessions := ss\<rparr>) pend = reserves r pend"
  by (simp add: reserves_def opening_of_def)

lemma release_simps [simp]:
  "sessions (release_open_reservation_locked who r) = sessions r"
  "opening_total (release_open_reservation_locked who r) = opening_total r - 1"
  by (simp_all add: release_open_reservation_locked_def Let_def split: option.split)

lemma release_opening:
  "opening_of (release_open_reservation_locked who r) p =
     (if p = who then opening_of r who - 1 else opening_of r p)"
  by (auto simp: release_open_reservation_locked_def Let_def opening_of_def split: option.split)

lemma release_wf:
  "hm_wf (opening_by_principal r) \<Longrightarrow>
   hm_wf (opening_by_principal (release_open_reservation_locked who r))"
  by (simp add: release_open_reservation_locked_def Let_def split: option.split)

lemma release_ok:
  assumes "registry_ok mc r"
  shows "registry_ok mc (release_open_reservation_locked who r)"
proof -
  have "active_of (release_open_reservation_locked who r) p = active_of r p" for p
    by (simp add: active_of_def)
  moreover have "opening_of (release_open_reservation_locked who r) p \<le> opening_of r p" for p
    by (simp add: release_opening)
  moreover have "active_of r p + opening_of r p \<le> max_sessions_per_principal (mc_limits mc)" for p
    using assms by (simp add: registry_ok_def)
  ultimately have "active_of (release_open_reservation_locked who r) p
      + opening_of (release_open_reservation_locked who r) p
      \<le> max_sessions_per_principal (mc_limits mc)" for p
    by (metis add_left_mono le_trans)
  with assms show ?thesis by (auto simp: registry_ok_def release_wf)
qed

lemma reserves_release:
  assumes "reserves r pend" and "(who, x) \<in> set pend"
  shows "reserves (release_open_reservation_locked who r) (remove1 (who, x) pend)"
proof -
  have "length (filter (\<lambda>p. fst p = q) (remove1 (who, x) pend)) =
      (if q = who then length (filter (\<lambda>p. fst p = who) pend) - 1
       else length (filter (\<lambda>p. fst p = q) pend))" for q
    using assms(2) by (auto simp: filter_remove1 length_remove1 remove1_idem)
  with assms show ?thesis
    by (simp add: reserves_def release_opening length_remove1)
qed

lemma commit_ok:
  assumes "registry_ok mc r" and "reserves r pend" and "(s_principal s, x) \<in> set pend"
    and "\<not> hm_contains (sessions r) uuid" and "session_ok mc s"
  shows "registry_ok mc ((release_open_reservation_locked (s_principal s) r)
    \<lparr>sessions := hm_insert uuid s (sessions r)\<rparr>)"
proof -
  let ?who = "s_principal s"
  let ?r = "(release_open_reservation_locked ?who r)\<lparr>sessions := hm_insert uuid s (sessions r)\<rparr>"
  have "0 < opening_total r" using assms(2,3) by (auto simp: reserves_def)
  moreover have "(?who, x) \<in> set (filter (\<lambda>p. fst p = ?who) pend)" using assms(3) by simp
  then have "0 < length (filter (\<lambda>p. fst p = ?who) pend)" by (rule length_pos_if_in_set)
  then have pos: "0 < opening_of r ?who" using assms(2) by (simp add: reserves_def)
  have "active_of ?r p = active_of r p + (if p = ?who then 1 else 0)" for p
    using hm_count_insert_fresh [OF assms(4)] by (auto simp: active_of_def)
  moreover have "opening_of ?r p = (if p = ?who then opening_of r p - 1 else opening_of r p)" for p
    using release_opening [of ?who r p] by (simp add: opening_of_def)
  moreover have "active_of r p + opening_of r p \<le> max_sessions_per_principal (mc_limits mc)" for p
    using assms(1) by (simp add: registry_ok_def)
  ultimately have "active_of ?r p + opening_of ?r p \<le> max_sessions_per_principal (mc_limits mc)" for p
    using pos by (auto simp: Suc_le_eq)
  with assms \<open>0 < opening_total r\<close> show ?thesis
    by (auto simp: registry_ok_def release_wf hm_len_insert)
qed

lemma admit_ok:
  assumes "admit mc cl who r = (res, r')" and "registry_ok mc r" and "reserves r pend"
  shows "registry_ok mc r' \<and> reserves r' (if res = Inr () then pend @ [(who, x)] else pend)
    \<and> sessions r' = sessions r \<and> (res = Inr () \<longrightarrow> \<not> cl)"
proof (cases "res = Inr ()")
  case False
  with assms show ?thesis by (auto simp: admit_def Let_def split: if_splits)
next
  case True
  have opening_eq: "(case hm_get (opening_by_principal r) who of None \<Rightarrow> 0 | Some n \<Rightarrow> n) = opening_of r who"
    by (simp add: opening_of_def)
  from assms(1) True have guards: "\<not> cl"
    "length (sessions r) + opening_total r < max_sessions (mc_limits mc)"
    "active_of r who + opening_of r who < max_sessions_per_principal (mc_limits mc)"
    and r': "r' = r\<lparr>opening_total := opening_total r + 1,
      opening_by_principal := hm_insert who (opening_of r who + 1) (opening_by_principal r)\<rparr>"
    by (auto simp: admit_def Let_def active_of_def opening_eq split: if_splits)
  have "opening_of r' p = (if p = who then opening_of r who + 1 else opening_of r p)" for p
    unfolding r' by (simp add: opening_of_def)
  moreover have "active_of r' p = active_of r p" for p
    unfolding r' by (simp add: active_of_def)
  ultimately show ?thesis
    using True guards assms(2,3) unfolding registry_ok_def reserves_def
    by (auto simp: r')
qed

subsection \<open>The invariant of the interleaving\<close>

definition world_inv ::
  "manager_config \<Rightarrow> ('c, 's, 'k, 'r, 'b, 'sch, 'w) session world \<Rightarrow> bool" where
  "world_inv mc w \<longleftrightarrow>
     registry_ok mc (inner (registry (mgr w)))
     \<and> (\<not> poisoned (registry (mgr w)) \<longrightarrow> reserves (inner (registry (mgr w))) (pending w))
     \<and> (\<forall>who tn t. (who, tn, t) \<in> set (pending w) \<longrightarrow>
          authorizer_allows (mc_authorizer mc) who tn \<and> hm_get (mc_targets mc) tn = Some t)
     \<and> (drained w \<longrightarrow> closing (mgr w) \<and> sessions (inner (registry (mgr w))) = [])"

lemma with_registry_cases:
  assumes "with_registry f m = (res, m')"
  obtains (broken) "poisoned (registry m)" "m' = m" "res = Inl registry_poisoned"
  | (locked) r' where "\<not> poisoned (registry m)" "f (inner (registry m)) = (res, r')"
      "m' = put_registry (store (registry m) r') m"
  using assms by (cases "poisoned (registry m)") (auto simp: locked_def split: prod.splits)

text \<open>A step that runs under the registry lock, with the pending opens it leaves.\<close>

lemma world_inv_locked:
  assumes inv: "world_inv mc w" and step: "with_registry f (mgr w) = (res, m')"
    and ok: "\<And>r r'. r = inner (registry (mgr w)) \<Longrightarrow> f r = (res, r') \<Longrightarrow>
        registry_ok mc r \<Longrightarrow> reserves r (pending w) \<Longrightarrow>
        registry_ok mc r' \<and> reserves r' pend' \<and> (closing (mgr w) \<longrightarrow> sessions r = [] \<longrightarrow> sessions r' = [])"
    and pend': "set pend' \<subseteq> set (pending w)"
  shows "world_inv mc (w\<lparr>mgr := m', pending := pend'\<rparr>)"
  using step
proof (cases rule: with_registry_cases)
  case broken
  with inv pend' show ?thesis by (auto simp: world_inv_def)
next
  case (locked r')
  with inv have "registry_ok mc r' \<and> reserves r' pend'
      \<and> (closing (mgr w) \<longrightarrow> sessions (inner (registry (mgr w))) = [] \<longrightarrow> sessions r' = [])"
    by (intro ok) (auto simp: world_inv_def)
  with inv locked pend' show ?thesis by (auto simp: world_inv_def)
qed

lemma reserve_open_cases:
  assumes "reserve_open mc now who m = (res, m')"
  obtains (early) e where "res = Inl e" "m' = m"
  | (decided) ids r' where "\<not> poisoned (registry m)" "\<not> closing m"
      "admit mc False who ((inner (registry m))\<lparr>sessions :=
         fold hm_remove ids (sessions (inner (registry m)))\<rparr>) = (res, r')"
      "m' = put_registry (store (registry m) r') m"
proof (cases "closing m \<or> poisoned (registry m)")
  case True
  with assms early show ?thesis
    by (auto simp: reserve_open_def reap_expired_def st_bind_def locked_def split: if_splits)
next
  case False
  show ?thesis
  proof (cases "expired_ids (mc_ttl mc) now (held m) (sessions (inner (registry m)))")
    case (Inl e)
    with assms False early show ?thesis
      by (auto simp: reserve_open_def reap_expired_def st_bind_def locked_def)
  next
    case (Inr ids)
    obtain r' where "admit mc False who ((inner (registry m))\<lparr>sessions :=
         fold hm_remove ids (sessions (inner (registry m)))\<rparr>) = (res, r')"
      "m' = put_registry (store (registry m) r') m"
      using assms False Inr
      by (auto simp: reserve_open_def reap_expired_def st_bind_def locked_def split: prod.splits)
    with False decided show ?thesis by blast
  qed
qed

lemma open_admit_inv:
  assumes "world_inv mc w" and "open_admit mc now who tn (mgr w) = (res, m')"
  shows "case res of
      Inl e \<Rightarrow> world_inv mc (w\<lparr>mgr := m'\<rparr>)
    | Inr t \<Rightarrow> world_inv mc (w\<lparr>mgr := m', pending := pending w @ [(who, tn, t)]\<rparr>)"
proof (cases "authorizer_allows (mc_authorizer mc) who tn \<and> hm_get (mc_targets mc) tn \<noteq> None")
  case False
  with assms show ?thesis by (auto simp: open_admit_def split: option.splits if_splits)
next
  case True
  then obtain t where t: "hm_get (mc_targets mc) tn = Some t" by auto
  obtain res1 where res1: "reserve_open mc now who (mgr w) = (res1, m')"
    and res: "res = (case res1 of Inl e \<Rightarrow> Inl e | Inr _ \<Rightarrow> Inr t)"
    using assms(2) True t
    by (cases "reserve_open mc now who (mgr w)"; cases "fst (reserve_open mc now who (mgr w))")
      (auto simp: open_admit_def st_bind_def)
  from res1 show ?thesis
  proof (cases rule: reserve_open_cases)
    case (early e)
    with assms(1) res show ?thesis by simp
  next
    case (decided ids r')
    let ?r = "(inner (registry (mgr w)))\<lparr>sessions := fold hm_remove ids (sessions (inner (registry (mgr w))))\<rparr>"
    have "registry_ok mc ?r" "reserves ?r (pending w)"
      using assms(1) decided(1) by (auto simp: world_inv_def intro: registry_ok_removes)
    from admit_ok [OF decided(3) this, of "(tn, t)"]
    have ok: "registry_ok mc r'" "reserves r' (if res1 = Inr () then pending w @ [(who, tn, t)] else pending w)"
      "sessions r' = sessions ?r" by auto
    have "\<not> drained w" using assms(1) decided(2) by (auto simp: world_inv_def)
    with assms(1) decided ok res True t show ?thesis
      by (cases res1) (auto simp: world_inv_def)
  qed
qed

lemma lookup_job_cases:
  assumes "lookup_job mc now refs sid who r = (res, r')"
  obtains (refused) e where "res = Inl e" "r' = r"
  | (expired) s e where "hm_get (sessions r) sid = Some s" "res = Inl e"
      "r' = r\<lparr>sessions := hm_remove sid (sessions r)\<rparr>"
  | (found) s s' where "hm_get (sessions r) sid = Some s" "s_principal s = who" "res = Inr s'"
      "s' = s\<lparr>last_used := store (last_used s) now\<rparr>"
      "r' = r\<lparr>sessions := hm_insert sid s' (sessions r)\<rparr>"
proof (cases "hm_get (sessions r) sid")
  case None
  with assms refused show ?thesis by (auto simp: lookup_job_def)
next
  case (Some s)
  show ?thesis
  proof (cases "s_principal s \<noteq> who \<or> poisoned (last_used s)")
    case True
    with assms Some refused show ?thesis
      by (auto simp: lookup_job_def lock_def split: if_splits)
  next
    case False
    with assms Some expired found show ?thesis
      by (cases "elapsed now (inner (last_used s)) > mc_ttl mc \<and> refs sid = 0")
        (auto simp: lookup_job_def lock_def Let_def)
  qed
qed

lemma session_ok_identity:
  assumes "session_ok mc s" and "session_inv s'"
    and "s_principal s' = s_principal s" "s_target s' = s_target s"
    "option_policy s' = option_policy s" "s_limits s' = s_limits s"
  shows "session_ok mc s'"
  using assms by (simp add: session_ok_def)

lemma lookup_job_ok:
  assumes "lookup_job mc now refs sid who r = (res, r')" and "registry_ok mc r"
  shows "registry_ok mc r' \<and> (sessions r = [] \<longrightarrow> sessions r' = []) \<and> reserves r' pend = reserves r pend"
  using assms(1)
proof (cases rule: lookup_job_cases)
  case (refused e)
  with assms(2) show ?thesis by simp
next
  case (expired s e)
  with assms(2) show ?thesis by (auto intro: registry_ok_remove)
next
  case (found s s')
  have "session_ok mc s" using assms(2) found(1) by (auto simp: registry_ok_def)
  then have "session_ok mc s'"
    by (rule session_ok_identity) (use \<open>session_ok mc s\<close> found(4) in \<open>auto simp: session_ok_def session_inv_def\<close>)
  with assms(2) found show ?thesis
    using registry_ok_replace [OF assms(2) found(1), of s'] by auto
qed

lemma new_session_ok:
  assumes "authorizer_allows (mc_authorizer mc) who tn" and "hm_get (mc_targets mc) tn = Some t"
  shows "session_ok mc (new_session D mc now who tn t conn)"
  using assms by (simp add: session_ok_def new_session_def session_inv_def table_within_def)

lemma world_step_inv:
  assumes "world_step D A mc w w'" and inv: "world_inv mc w"
  shows "world_inv mc w'"
  using assms(1)
proof (cases rule: world_step.cases)
  case (w_admitted now who tn t m')
  with open_admit_inv [OF inv w_admitted(2)] show ?thesis by simp
next
  case (w_refused now who tn e m')
  with open_admit_inv [OF inv w_refused(2)] show ?thesis by simp
next
  case (w_abort who tn t e r m')
  have "with_registry (\<lambda>r. (Inr (), release_open_reservation_locked who r)) (mgr w)
      = (fst (release_open_reservation who (mgr w)), m')"
    using w_abort(3)
    by (auto simp: open_abort_def st_bind_def release_open_reservation_def split: prod.splits sum.splits)
  from world_inv_locked [OF inv this, of "remove1 (who, tn, t) (pending w)"] w_abort(1,2) show ?thesis
    using set_remove1_subset [of "(who, tn, t)" "pending w"]
    by (auto intro: release_ok reserves_release)
next
  case (w_commit who tn t uuid now conn r' m')
  let ?s = "new_session D mc now who tn t conn"
  have ok: "session_ok mc ?s"
    using inv w_commit(2) by (intro new_session_ok) (auto simp: world_inv_def)
  have who: "s_principal ?s = who" by (simp add: new_session_def)
  show ?thesis
    unfolding w_commit(1)
  proof (rule world_inv_locked [OF inv w_commit(4) [unfolded open_commit_def]])
    fix r r1
    assume r: "r = inner (registry (mgr w))" "registry_ok mc r" "reserves r (pending w)"
      and step: "(let r' = release_open_reservation_locked who r
        in if closing (mgr w) then (Inl shutting_down, r')
           else (Inr uuid, r'\<lparr>sessions := hm_insert uuid ?s (sessions r')\<rparr>)) = (r', r1)"
    have "registry_ok mc r1"
      using step release_ok [OF r(2), of who] commit_ok [OF r(2,3) _ _ ok, unfolded who, of "(tn, t)" uuid]
        w_commit(2,3) r(1)
      by (auto simp: Let_def split: if_splits)
    with step reserves_release [OF r(3) w_commit(2)]
    show "registry_ok mc r1 \<and> reserves r1 (remove1 (who, tn, t) (pending w))
        \<and> (closing (mgr w) \<longrightarrow> sessions r = [] \<longrightarrow> sessions r1 = [])"
      by (auto simp: Let_def split: if_splits)
  qed (rule set_remove1_subset)
next
  case (w_get now sid who rs m')
  obtain m1 where m1: "with_registry (lookup_job mc now (held (mgr w)) sid who) (mgr w) = (rs, m1)"
    and same: "registry m' = registry m1" "closing m' = closing m1"
    using w_get(2)
    by (cases "with_registry (lookup_job mc now (held (mgr w)) sid who) (mgr w)")
      (auto simp: manager_get_def split: sum.splits)
  have "world_inv mc (w\<lparr>mgr := m1, pending := pending w\<rparr>)"
    using lookup_job_ok by (intro world_inv_locked [OF inv m1]) blast+
  with w_get(1) same show ?thesis by (simp add: world_inv_def)
next
  case (w_work sid s s')
  have ok: "session_ok mc s" "registry_ok mc (inner (registry (mgr w)))"
    using inv w_work(3) by (auto simp: world_inv_def registry_ok_def)
  have same: "s_principal s' = s_principal s" "s_target s' = s_target s"
    "option_policy s' = option_policy s" "s_limits s' = s_limits s"
    using session_step_identity [OF w_work(4)] by (auto simp: identity_def)
  have "session_inv s'" using session_step_inv [OF w_work(4)] ok(1) by (simp add: session_ok_def)
  then have "session_ok mc s'" using session_ok_identity [OF ok(1)] same by blast
  from registry_ok_replace [OF ok(2) w_work(3) this same(1)] inv w_work(1,3) show ?thesis
    by (auto simp: world_inv_def)
next
  case (w_drop sid)
  with inv show ?thesis by (simp add: world_inv_def)
next
  case (w_close sid who ru m')
  have "world_inv mc (w\<lparr>mgr := m', pending := pending w\<rparr>)"
    by (rule world_inv_locked [OF inv w_close(2) [unfolded manager_close_def]])
      (auto intro: registry_ok_remove split: option.splits if_splits)
  with w_close(1) show ?thesis by simp
next
  case (w_reap now rn m')
  have "world_inv mc (w\<lparr>mgr := m', pending := pending w\<rparr>)"
    by (rule world_inv_locked [OF inv w_reap(2) [unfolded reap_expired_def]])
      (auto intro: registry_ok_removes split: sum.splits)
  with w_reap(1) show ?thesis by simp
next
  case w_begin
  with inv show ?thesis by (simp add: world_inv_def begin_closing_def)
next
  case (w_take n m')
  have "world_inv mc (w\<lparr>mgr := m', pending := pending w\<rparr>)"
    by (rule world_inv_locked [OF inv w_take(3) [unfolded take_sessions_def]])
      (auto intro: registry_ok_clear)
  moreover have "closing m'" "sessions (inner (registry m')) = []"
    using w_take(2,3) by (auto simp: take_sessions_def locked_def split: if_splits)
  ultimately show ?thesis using w_take(1) by (simp add: world_inv_def)
qed

interpretation manager_machine: inductive_invariant world_start "world_step D A mc" "world_inv mc"
  for D :: "('c, 's, 'k, 'r, 'b, 'sch, 'x) driver_ops" and A :: "('w, 'b, 'f, 'r) arrow_stream" and mc
proof
  show "world_inv mc w" if "world_start w" for w :: "('c, 's, 'k, 'r, 'b, 'sch, 'w) session world"
    using that
    by (simp add: world_start_def world_inv_def registry_ok_def reserves_def active_of_def opening_of_def)
qed (rule world_step_inv)

subsection \<open>Properties\<close>

text \<open>
  C10: session quotas hold under every interleaving. However opens, lookups, closes, reaps, driver
  work and shutdown interleave, the registered sessions together with the opens in flight never
  exceed the global limit, and for each principal never exceed the per-principal limit; while
  the registry is usable the counters of opens in flight are exact, so no reservation leaks and
  none is given back twice.
\<close>

theorem admission_quotas_hold:
  assumes "reaches world_start (world_step D A mc) w"
  shows "length (sessions (inner (registry (mgr w)))) + opening_total (inner (registry (mgr w)))
      \<le> max_sessions (mc_limits mc)
    \<and> (\<forall>who. active_of (inner (registry (mgr w))) who + opening_of (inner (registry (mgr w))) who
         \<le> max_sessions_per_principal (mc_limits mc))
    \<and> (\<not> poisoned (registry (mgr w)) \<longrightarrow>
         opening_total (inner (registry (mgr w))) = length (pending w)
         \<and> (\<forall>who. opening_of (inner (registry (mgr w))) who =
              length (filter (\<lambda>p. fst p = who) (pending w))))"
proof -
  from assms have "world_inv mc w" by (rule manager_machine.inv_reaches)
  then show ?thesis by (auto simp: world_inv_def registry_ok_def reserves_def)
qed

text \<open>A manager with one target, and the run that opens one session on it.\<close>

definition demo_mc :: manager_config where
  "demo_mc =
     \<lparr>mc_targets = [(''duck'', demo_target)], mc_ttl = 10, mc_require_authentication = True,
      mc_limits = \<lparr>max_sessions = 2, max_sessions_per_principal = 1,
                   max_statements_per_session = 1, max_results_per_session = 1\<rparr>,
      mc_authorizer = None, mc_timeout = 270, mc_signer = demo_signer\<rparr>"

type_synonym demo_world =
  "(nat, bytes list, nat, bytes list, bytes, nat, bytes counting_file) session world"

definition demo_world0 :: demo_world where
  "demo_world0 =
     \<lparr>mgr = \<lparr>registry = fresh_mutex \<lparr>sessions = [], opening_total = 0, opening_by_principal = []\<rparr>,
             closing = False, held = (\<lambda>_. 0)\<rparr>,
      pending = [], drained = False\<rparr>"

definition demo_world1 :: demo_world where
  "demo_world1 =
     \<lparr>mgr = \<lparr>registry = fresh_mutex \<lparr>sessions = [], opening_total = 1,
                opening_by_principal = [(''al'', 1)]\<rparr>,
             closing = False, held = (\<lambda>_. 0)\<rparr>,
      pending = [(''al'', ''duck'', demo_target)], drained = False\<rparr>"

definition demo_world2 :: demo_world where
  "demo_world2 =
     \<lparr>mgr = \<lparr>registry = fresh_mutex
               \<lparr>sessions = [(''s1'', new_session demo_driver demo_mc 5 ''al'' ''duck'' demo_target 0)],
                opening_total = 0, opening_by_principal = []\<rparr>,
             closing = False, held = (\<lambda>_. 0)\<rparr>,
      pending = [], drained = False\<rparr>"

lemma demo_admit:
  "open_admit demo_mc 5 ''al'' ''duck'' (mgr demo_world0) = (Inr demo_target, mgr demo_world1)"
  by (simp add: open_admit_def demo_mc_def demo_world0_def demo_world1_def authorizer_allows_def
      st_bind_def reserve_open_def reap_expired_def locked_def admit_def)

lemma demo_commit:
  "open_commit ''s1'' ''al'' (new_session demo_driver demo_mc 5 ''al'' ''duck'' demo_target 0)
     (mgr demo_world1) = (Inr ''s1'', mgr demo_world2)"
  by (simp add: open_commit_def demo_world1_def demo_world2_def locked_def
      release_open_reservation_locked_def Let_def)

lemma demo_world_steps:
  "world_step demo_driver demo_stream demo_mc demo_world0 demo_world1"
  "world_step demo_driver demo_stream demo_mc demo_world1 demo_world2"
proof -
  have "demo_world0\<lparr>mgr := mgr demo_world1, pending := pending demo_world0 @ [(''al'', ''duck'', demo_target)]\<rparr>
      = demo_world1"
    by (simp add: demo_world0_def demo_world1_def)
  with w_admitted [OF demo_admit, of demo_driver demo_stream]
  show "world_step demo_driver demo_stream demo_mc demo_world0 demo_world1" by simp
  have "demo_world1\<lparr>mgr := mgr demo_world2,
      pending := remove1 (''al'', ''duck'', demo_target) (pending demo_world1)\<rparr> = demo_world2"
    by (simp add: demo_world1_def demo_world2_def)
  with w_commit [OF _ _ demo_commit, of demo_stream] show
    "world_step demo_driver demo_stream demo_mc demo_world1 demo_world2"
    by (simp add: demo_world1_def)
qed

lemma demo_world_reaches:
  "reaches world_start (world_step demo_driver demo_stream demo_mc) demo_world1"
  "reaches world_start (world_step demo_driver demo_stream demo_mc) demo_world2"
proof -
  have "reaches world_start (world_step demo_driver demo_stream demo_mc) demo_world0"
    by (rule reaches_init) (simp add: world_start_def demo_world0_def)
  from reaches_step [OF this demo_world_steps(1)]
  show one: "reaches world_start (world_step demo_driver demo_stream demo_mc) demo_world1" .
  from reaches_step [OF this demo_world_steps(2)]
  show "reaches world_start (world_step demo_driver demo_stream demo_mc) demo_world2" .
qed

theorem admission_quotas_hold_witness:
  "opening_total (inner (registry (mgr demo_world1))) = 1
   \<and> fst (open_admit demo_mc 6 ''al'' ''duck'' (mgr demo_world1)) = Inl (quota ''per-principal session'')"
proof -
  have "opening_total (inner (registry (mgr demo_world1))) = length (pending demo_world1)"
    using admission_quotas_hold [OF demo_world_reaches(1)] by (simp add: demo_world1_def)
  then show ?thesis
    by (simp add: demo_world1_def open_admit_def demo_mc_def authorizer_allows_def st_bind_def
        reserve_open_def reap_expired_def locked_def admit_def hm_count_def)
qed

text \<open>
  C9: a session serves its principal only. In every reachable state, the session a lookup
  returns belongs to the principal that asked, that principal is authorized for the target of
  the session, the target is configured, and the option policy in force is the policy of that
  target. Anybody else who presents the identifier of a live session, to use it or to close it,
  is answered unauthorized, and neither the session nor its lease changes.
\<close>

theorem sessions_isolated_by_principal:
  assumes "reaches world_start (world_step D A mc) w"
  shows "(\<forall>now sid who s m'. manager_get mc now sid who (mgr w) = (Inr s, m') \<longrightarrow>
       s_principal s = who \<and> authorizer_allows (mc_authorizer mc) who (s_target s)
       \<and> (\<exists>t. hm_get (mc_targets mc) (s_target s) = Some t
            \<and> option_policy s = connection_option_policy t))
    \<and> (\<forall>now sid who s. \<not> poisoned (registry (mgr w)) \<longrightarrow>
       hm_get (sessions (inner (registry (mgr w)))) sid = Some s \<longrightarrow> s_principal s \<noteq> who \<longrightarrow>
       manager_get mc now sid who (mgr w) = (Inl wrong_principal, mgr w)
       \<and> manager_close sid who (mgr w) = (Inl wrong_principal, mgr w))"
proof (intro conjI allI impI)
  have inv: "world_inv mc w" using assms by (rule manager_machine.inv_reaches)
  fix now sid who s m'
  assume get: "manager_get mc now sid who (mgr w) = (Inr s, m')"
  obtain res m1 where m1: "with_registry (lookup_job mc now (held (mgr w)) sid who) (mgr w) = (res, m1)"
    by fastforce
  with get have "res = Inr s" by (cases res) (auto simp: manager_get_def)
  with m1 obtain r' where "lookup_job mc now (held (mgr w)) sid who (inner (registry (mgr w))) = (Inr s, r')"
    by (auto elim!: with_registry_cases)
  then obtain s0 where s0: "hm_get (sessions (inner (registry (mgr w)))) sid = Some s0"
    "s_principal s0 = who" "s = s0\<lparr>last_used := store (last_used s0) now\<rparr>"
    by (cases rule: lookup_job_cases) auto
  have "session_ok mc s0" using inv s0(1) by (auto simp: world_inv_def registry_ok_def)
  with s0 show "s_principal s = who" "authorizer_allows (mc_authorizer mc) who (s_target s)"
    "\<exists>t. hm_get (mc_targets mc) (s_target s) = Some t \<and> option_policy s = connection_option_policy t"
    by (auto simp: session_ok_def)
next
  fix now sid who s
  assume live: "\<not> poisoned (registry (mgr w))"
    "hm_get (sessions (inner (registry (mgr w)))) sid = Some s" "s_principal s \<noteq> who"
  then show "manager_get mc now sid who (mgr w) = (Inl wrong_principal, mgr w)"
    by (simp add: manager_get_def locked_def lookup_job_def)
  from live show "manager_close sid who (mgr w) = (Inl wrong_principal, mgr w)"
    by (simp add: manager_close_def locked_def)
qed

theorem sessions_isolated_by_principal_witness:
  "fst (manager_get demo_mc 6 ''s1'' ''mallory'' (mgr demo_world2)) = Inl wrong_principal
   \<and> (\<exists>s. fst (manager_get demo_mc 6 ''s1'' ''al'' (mgr demo_world2)) = Inr s
        \<and> s_principal s = ''al'' \<and> s_target s = ''duck'')"
proof -
  note iso = sessions_isolated_by_principal [OF demo_world_reaches(2)]
  have "fst (manager_get demo_mc 6 ''s1'' ''mallory'' (mgr demo_world2)) = Inl wrong_principal"
    using iso by (simp add: demo_world2_def new_session_def)
  moreover obtain s m' where got: "manager_get demo_mc 6 ''s1'' ''al'' (mgr demo_world2) = (Inr s, m')"
    and "s_target s = ''duck''"
    by (simp add: manager_get_def locked_def lookup_job_def demo_world2_def new_session_def
        elapsed_def demo_mc_def Let_def)
  moreover have "s_principal s = ''al''" using iso got by blast
  ultimately show ?thesis using got by (metis fst_conv)
qed

text \<open>
  Shutdown is final. Once shutdown has taken the sessions, no continuation of the run, not
  even an open that was waiting for its driver at that moment, registers a session again: the
  registry stays empty and every lookup fails.
\<close>

lemma shutdown_is_final:
  assumes "reaches world_start (world_step D A mc) w" and "drained w"
    and "(world_step D A mc)\<^sup>*\<^sup>* w w'"
  shows "sessions (inner (registry (mgr w'))) = []
    \<and> (\<forall>now sid who. \<exists>e. fst (manager_get mc now sid who (mgr w')) = Inl e)"
proof -
  have "drained w'"
    using assms(3,2)
  proof (induction rule: rtranclp_induct)
    case (step y z)
    from step.hyps(2) step.IH [OF step.prems] show ?case by (cases rule: world_step.cases) auto
  qed
  moreover have "world_inv mc w'"
    using assms(3) manager_machine.inv_reaches [OF assms(1)] by (rule manager_machine.inv_run)
  ultimately have empty: "sessions (inner (registry (mgr w'))) = []"
    by (simp add: world_inv_def)
  have "\<exists>e. fst (manager_get mc now sid who (mgr w')) = Inl e" for now sid who
    using empty by (cases "poisoned (registry (mgr w'))")
      (auto simp: manager_get_def locked_def lookup_job_def)
  with empty show ?thesis by blast
qed

lemma expired_ids_ok:
  "\<forall>kv \<in> set ss. \<not> poisoned (last_used (snd kv)) \<Longrightarrow>
   expired_ids ttl now refs ss =
     Inr (map fst (filter (\<lambda>(sid, s). refs sid = 0 \<and> elapsed now (inner (last_used s)) > ttl) ss))"
proof (induction ss)
  case Nil
  then show ?case by simp
next
  case (Cons kv ss)
  then show ?case
    by (cases kv; cases "refs (fst kv) = 0") (simp_all add: lock_unpoisoned)
qed

text \<open>
  Reaping removes exactly the idle expired sessions. When no lease is poisoned, a reap
  deletes the sessions that no handler holds and whose last use is longer ago than the lease,
  reports how many these were, and leaves every other session untouched; in particular a
  session in use is never reaped, however long its operation takes.
\<close>

lemma reap_removes_exactly_expired:
  assumes "\<not> poisoned (registry m)" and "hm_wf (sessions (inner (registry m)))"
    and "\<forall>kv \<in> set (sessions (inner (registry m))). \<not> poisoned (last_used (snd kv))"
  shows "\<exists>n m'. reap_expired mc now m = (Inr n, m')
    \<and> (\<forall>sid. hm_get (sessions (inner (registry m'))) sid =
         (case hm_get (sessions (inner (registry m))) sid of
            None \<Rightarrow> None
          | Some s \<Rightarrow>
              if held m sid = 0 \<and> elapsed now (inner (last_used s)) > mc_ttl mc then None else Some s))
    \<and> n = length (filter (\<lambda>(sid, s). held m sid = 0 \<and> elapsed now (inner (last_used s)) > mc_ttl mc)
        (sessions (inner (registry m))))"
proof -
  let ?ss = "sessions (inner (registry m))"
  let ?dead = "\<lambda>(sid, s). held m sid = 0 \<and> elapsed now (inner (last_used s)) > mc_ttl mc"
  let ?ids = "map fst (filter ?dead ?ss)"
  have "hm_get (fold hm_remove ?ids ?ss) sid =
      (case hm_get ?ss sid of None \<Rightarrow> None | Some s \<Rightarrow> if ?dead (sid, s) then None else Some s)" for sid
  proof (cases "hm_get ?ss sid")
    case None
    then show ?thesis by (simp add: fold_remove_get)
  next
    case (Some s)
    have "sid \<in> set ?ids \<longleftrightarrow> ?dead (sid, s)"
      using Some hm_wf_entry_iff [OF assms(2)] by (auto simp: image_iff)
    with Some show ?thesis by (simp add: fold_remove_get)
  qed
  note lookup = this
  define m' where "m' = put_registry
    (store (registry m) ((inner (registry m))\<lparr>sessions := fold hm_remove ?ids ?ss\<rparr>)) m"
  have "reap_expired mc now m = (Inr (length ?ids), m')"
    unfolding m'_def using assms(1) expired_ids_ok [OF assms(3)]
    by (simp add: reap_expired_def locked_def)
  moreover have "sessions (inner (registry m')) = fold hm_remove ?ids ?ss"
    by (simp add: m'_def)
  ultimately show ?thesis
    using lookup by (intro exI [of _ "length ?ids"] exI [of _ m'])
      (simp add: case_prod_unfold split: option.split)
qed

lemma admit_failed: "admit mc cl who r = (Inl e, r') \<Longrightarrow> r' = r"
  by (auto simp: admit_def Let_def split: if_splits)

lemma admit_then_release:
  assumes "admit mc cl who r = (Inr u, r')"
  shows "opening_total (release_open_reservation_locked who r') = opening_total r
    \<and> opening_of (release_open_reservation_locked who r') p = opening_of r p
    \<and> sessions r' = sessions r"
proof -
  have r': "r' = r\<lparr>opening_total := opening_total r + 1,
      opening_by_principal := hm_insert who (opening_of r who + 1) (opening_by_principal r)\<rparr>"
    using assms by (auto simp: admit_def Let_def opening_of_def split: if_splits)
  then have "opening_of r' q = (if q = who then opening_of r who + 1 else opening_of r q)" for q
    by (simp add: opening_of_def)
  with r' show ?thesis by (simp add: release_opening)
qed

lemma open_admit_cases:
  assumes "open_admit mc now who tn m = (res, m')"
  obtains (early) e where "res = Inl e" "m' = m"
  | (decided) t res1 ids r' where "\<not> poisoned (registry m)" "\<not> closing m"
      "res = (case res1 of Inl e \<Rightarrow> Inl e | Inr _ \<Rightarrow> Inr t)"
      "admit mc False who ((inner (registry m))\<lparr>sessions :=
         fold hm_remove ids (sessions (inner (registry m)))\<rparr>) = (res1, r')"
      "m' = put_registry (store (registry m) r') m"
proof (cases "authorizer_allows (mc_authorizer mc) who tn \<and> hm_get (mc_targets mc) tn \<noteq> None")
  case False
  with assms early show ?thesis by (auto simp: open_admit_def split: option.splits if_splits)
next
  case True
  then obtain t where t: "hm_get (mc_targets mc) tn = Some t" by auto
  obtain res1 where res1: "reserve_open mc now who m = (res1, m')"
    and res: "res = (case res1 of Inl e \<Rightarrow> Inl e | Inr _ \<Rightarrow> Inr t)"
    using assms True t
    by (cases "reserve_open mc now who m"; cases "fst (reserve_open mc now who m)")
      (auto simp: open_admit_def st_bind_def)
  from res1 show ?thesis
    by (cases rule: reserve_open_cases) (use res early decided in \<open>auto split: sum.splits\<close>)
qed

text \<open>
  C29: a failed open leaves no trace. If opening a session fails for any reason while the registry
  is usable, be it authorization, an unknown target, a quota, the driver, a deadline, a thread
  that cannot be started or a shutdown, then the counters of opens in flight are what they were
  for every principal, and no session was added.
\<close>

theorem failed_open_leaves_no_trace:
  assumes "manager_open D mc backend now oc spawn uuid who tn m = (Inl e, m')"
    and "\<not> poisoned (registry m)"
  shows "opening_total (inner (registry m')) = opening_total (inner (registry m))
    \<and> (\<forall>p. opening_of (inner (registry m')) p = opening_of (inner (registry m)) p)
    \<and> (\<forall>sid s. hm_get (sessions (inner (registry m'))) sid = Some s \<longrightarrow>
         hm_get (sessions (inner (registry m))) sid = Some s)"
proof -
  obtain res m1 where adm: "open_admit mc now who tn m = (res, m1)" by fastforce
  from adm show ?thesis
  proof (cases rule: open_admit_cases)
    case (early e')
    with adm assms(1) show ?thesis by (simp add: manager_open_def st_bind_def)
  next
    case (decided t res1 ids r1)
    let ?r = "(inner (registry m))\<lparr>sessions := fold hm_remove ids (sessions (inner (registry m)))\<rparr>"
    have sub: "hm_get (sessions ?r) sid = Some s \<Longrightarrow> hm_get (sessions (inner (registry m))) sid = Some s"
      for sid s by (auto simp: fold_remove_get split: if_splits)
    have same: "opening_of ?r p = opening_of (inner (registry m)) p" for p
      by (simp add: opening_of_def)
    show ?thesis
    proof (cases res1)
      case (Inl e1)
      with adm assms(1) decided have "m' = m1" by (simp add: manager_open_def st_bind_def)
      moreover have "r1 = ?r" using decided(4) Inl by (auto dest: admit_failed)
      ultimately show ?thesis using decided(5) sub same by auto
    next
      case (Inr u)
      have m1: "m1 = put_registry (store (registry m) r1) m" "\<not> poisoned (registry m1)"
        "inner (registry m1) = r1" "\<not> closing m1"
        using decided(1,2,5) by auto
      have abort: "open_abort who e1 m1 = (Inl e1 :: (adbc_error, string) result,
          put_registry (store (registry m1) (release_open_reservation_locked who r1)) m1)"
        for e1 :: adbc_error
        using m1(2,3) by (simp add: open_abort_def st_bind_def release_open_reservation_def locked_def)
      have "m' = put_registry (store (registry m1) (release_open_reservation_locked who r1)) m1"
        using assms(1) adm decided(3) Inr abort m1(2-4)
        by (cases "open_result (mc_timeout mc) oc (backend t)"; cases spawn)
          (auto simp: manager_open_def st_bind_def open_commit_def locked_def Let_def)
      then have "inner (registry m') = release_open_reservation_locked who r1" by simp
      moreover have "admit mc False who ?r = (Inr u, r1)" using decided(4) Inr by simp
      note released = admit_then_release [OF this]
      ultimately show ?thesis using released sub same by auto
    qed
  qed
qed

theorem failed_open_leaves_no_trace_witness:
  "\<exists>m'. manager_open demo_driver demo_mc (\<lambda>_. Inr 0) 5 OpenTimedOut (Inr ()) ''s1'' ''al'' ''duck''
       (mgr demo_world0) = (Inl (timeout [Lit ''downstream connection open exceeded '', Dur 270]), m')
     \<and> opening_total (inner (registry m')) = 0"
proof -
  have mc: "mc_timeout demo_mc = 270" by (simp add: demo_mc_def)
  obtain m' where m': "manager_open demo_driver demo_mc (\<lambda>_. Inr 0) 5 OpenTimedOut (Inr ()) ''s1'' ''al''
      ''duck'' (mgr demo_world0) = (Inl (timeout [Lit ''downstream connection open exceeded '', Dur 270]), m')"
    by (simp add: manager_open_def st_bind_def demo_admit open_result_def mc open_abort_def
        release_open_reservation_def locked_def demo_world1_def)
  have "\<not> poisoned (registry (mgr demo_world0))" by (simp add: demo_world0_def)
  from failed_open_leaves_no_trace [OF m' this] m' show ?thesis by (simp add: demo_world0_def)
qed

lemma count_resources_bounds:
  assumes "count_resources ss c = Inr c'"
    and "\<And>s. s \<in> set ss \<Longrightarrow> length (inner (statements s)) \<le> a \<and> length (inner (results s)) \<le> b"
  shows "rc_statements c' \<le> rc_statements c + length ss * a
    \<and> rc_results c' \<le> rc_results c + length ss * b
    \<and> rc_sessions c' = rc_sessions c \<and> rc_opening_sessions c' = rc_opening_sessions c"
  using assms
proof (induction ss arbitrary: c)
  case Nil
  then show ?case by simp
next
  case (Cons s ss)
  let ?c = "c\<lparr>rc_statements := rc_statements c + length (inner (statements s)),
    rc_results := rc_results c + length (inner (results s)),
    rc_bind_uploads := rc_bind_uploads c + length (inner (bind_uploads s))\<rparr>"
  have "count_resources ss ?c = Inr c'"
    using Cons.prems(1) by (auto simp: result_iffs lock_Inr_iff)
  from Cons.IH [OF this] Cons.prems(2) [of s] Cons.prems(2) show ?case by fastforce
qed

text \<open>
  C30: the whole service is bounded. In every reachable state, whenever the resource counts can
  be taken, there are at most as many statements and results in total as the session limit times
  the limit per session, and at most as many sessions and pending opens as the session limit.
\<close>

theorem service_resources_bounded:
  assumes "reaches world_start (world_step D A mc) w"
    and "manager_resource_counts (mgr w) = Inr c"
  shows "rc_sessions c + rc_opening_sessions c \<le> max_sessions (mc_limits mc)
    \<and> rc_statements c \<le> max_sessions (mc_limits mc) * max_statements_per_session (mc_limits mc)
    \<and> rc_results c \<le> max_sessions (mc_limits mc) * max_results_per_session (mc_limits mc)"
proof -
  let ?r = "inner (registry (mgr w))"
  have inv: "registry_ok mc ?r"
    using manager_machine.inv_reaches [OF assms(1)] by (simp add: world_inv_def)
  have count: "count_resources (hm_values (sessions ?r))
      \<lparr>rc_sessions = length (sessions ?r), rc_statements = 0, rc_results = 0, rc_bind_uploads = 0,
       rc_opening_sessions = opening_total ?r\<rparr> = Inr c"
    using assms(2) by (auto simp: manager_resource_counts_def result_iffs lock_Inr_iff)
  have each: "length (inner (statements s)) \<le> max_statements_per_session (mc_limits mc)
      \<and> length (inner (results s)) \<le> max_results_per_session (mc_limits mc)"
    if s: "s \<in> set (hm_values (sessions ?r))" for s
  proof -
    obtain sid where "(sid, s) \<in> set (sessions ?r)" using s by auto
    then have "session_ok mc s"
      using inv hm_wf_entry_iff [of "sessions ?r" sid s] by (auto simp: registry_ok_def)
    then show ?thesis by (auto simp: session_ok_def session_inv_def table_within_def)
  qed
  have total: "length (sessions ?r) + opening_total ?r \<le> max_sessions (mc_limits mc)"
    using inv by (simp add: registry_ok_def)
  then have "length (sessions ?r) \<le> max_sessions (mc_limits mc)" by linarith
  then have "length (sessions ?r) * n \<le> max_sessions (mc_limits mc) * n" for n
    by (rule mult_le_mono1)
  note scaled = this
  have "rc_statements c \<le> length (sessions ?r) * max_statements_per_session (mc_limits mc)"
    "rc_results c \<le> length (sessions ?r) * max_results_per_session (mc_limits mc)"
    "rc_sessions c = length (sessions ?r)" "rc_opening_sessions c = opening_total ?r"
    using count_resources_bounds [OF count each] by simp_all
  with scaled total show ?thesis by (metis le_trans)
qed

theorem service_resources_bounded_witness:
  "\<exists>c. manager_resource_counts (mgr demo_world2) = Inr c \<and> rc_sessions c = 1 \<and> rc_statements c \<le> 2"
proof -
  obtain c where c: "manager_resource_counts (mgr demo_world2) = Inr c" "rc_sessions c = 1"
    by (simp add: manager_resource_counts_def demo_world2_def new_session_def)
  from service_resources_bounded [OF demo_world_reaches(2) c(1)] c show ?thesis
    by (simp add: demo_mc_def)
qed

text \<open>
  Principals do not collide. With authentication required, an unauthenticated caller gets no
  principal at all; two authenticated callers whose domains contain no NUL share a principal
  exactly when they have the same domain and the same name; and the anonymous principal is
  shared only with a caller of the empty domain named \<open>anonymous\<close>.
\<close>

lemma principals_identify_callers:
  assumes "authenticated a" and "nul \<notin> set (auth_domain a)"
  shows "(\<forall>b. authenticated b \<longrightarrow> nul \<notin> set (auth_domain b) \<longrightarrow>
       (principal_of require a = principal_of require b) =
       (auth_domain a = auth_domain b \<and> auth_principal a = auth_principal b))
    \<and> (\<forall>b. \<not> authenticated b \<longrightarrow> principal_of True b = None
         \<and> (principal_of False a = principal_of False b) =
           (auth_domain a = [] \<and> auth_principal a = ''anonymous''))"
proof (intro conjI allI impI)
  have inj: "d @ nul # n = d' @ nul # n' \<longleftrightarrow> d = d' \<and> n = n'"
    if "nul \<notin> set d" "nul \<notin> set d'" for d d' n n'
    using that by (metis split_once_append option.inject prod.inject)
  show "(principal_of require a = principal_of require b) =
       (auth_domain a = auth_domain b \<and> auth_principal a = auth_principal b)"
    if "authenticated b" "nul \<notin> set (auth_domain b)" for b
    using assms that inj by (simp add: principal_of_def)
  show "principal_of True b = None" if "\<not> authenticated b" for b
    using that by (simp add: principal_of_def)
  show "(principal_of False a = principal_of False b) =
      (auth_domain a = [] \<and> auth_principal a = ''anonymous'')" if "\<not> authenticated b" for b
    using assms that inj [of "auth_domain a" "[]" "auth_principal a" "''anonymous''"]
    by (simp add: principal_of_def)
qed

end
