(* ===== verification/Service.thy ===== *)
theory Service
  imports Manager
begin

text \<open>
  The RPC service (\<open>crates/grainlift-server/src/service.rs\<close>): one handler per method over the
  session manager. A handler checks the protocol version, decodes its arguments, authenticates
  the caller, looks the session up, runs session operations and encodes the reply; an error at
  any point ends it. What the sources take from elsewhere is collected in parameter records: the
  driver calls (\<open>driver_calls\<close>), the derived Arrow conversions (\<open>vgi_types\<close>) and the IPC, base64
  and HMAC functions (\<open>library\<close>). The circumstances of one call (the clock, the outcomes of its
  worker calls, the drawn identifier) are the record \<open>ambient\<close>.
\<close>

subsection \<open>Parameters\<close>

record ('c, 's, 'r, 'sch) driver_calls =
  c_get_option_string :: "string \<Rightarrow> ('c, adbc_error, string) step"
  c_get_option_bytes :: "string \<Rightarrow> ('c, adbc_error, bytes) step"
  c_get_option_int :: "string \<Rightarrow> ('c, adbc_error, int) step"
  c_get_option_double :: "string \<Rightarrow> ('c, adbc_error, 64 word) step"
  c_get_info :: "nat set option \<Rightarrow> ('c, adbc_error, 'r) step"
  c_get_objects :: "nat \<Rightarrow> string option \<Rightarrow> string option \<Rightarrow> string option \<Rightarrow> string list option \<Rightarrow>
    string option \<Rightarrow> ('c, adbc_error, 'r) step"
  c_get_table_schema :: "string option \<Rightarrow> string option \<Rightarrow> string \<Rightarrow> ('c, adbc_error, 'sch) step"
  c_get_table_types :: "('c, adbc_error, 'r) step"
  c_get_statistic_names :: "('c, adbc_error, 'r) step"
  c_get_statistics :: "string option \<Rightarrow> string option \<Rightarrow> string option \<Rightarrow> bool \<Rightarrow>
    ('c, adbc_error, 'r) step"
  c_read_partition :: "bytes \<Rightarrow> ('c, adbc_error, 'r) step"
  s_set_option :: "string \<Rightarrow> option_value \<Rightarrow> ('s, adbc_error, unit) step"
  s_get_option_string :: "string \<Rightarrow> ('s, adbc_error, string) step"
  s_get_option_bytes :: "string \<Rightarrow> ('s, adbc_error, bytes) step"
  s_get_option_int :: "string \<Rightarrow> ('s, adbc_error, int) step"
  s_get_option_double :: "string \<Rightarrow> ('s, adbc_error, 64 word) step"
  s_set_sql_query :: "string \<Rightarrow> ('s, adbc_error, unit) step"
  s_set_substrait_plan :: "bytes \<Rightarrow> ('s, adbc_error, unit) step"
  s_prepare :: "('s, adbc_error, unit) step"
  s_execute_query :: "('s, adbc_error, 'r) step"
  s_execute_update :: "('s, adbc_error, int option) step"
  s_execute_schema :: "('s, adbc_error, 'sch) step"
  s_get_parameter_schema :: "('s, adbc_error, 'sch) step"
  s_execute_partitions :: "('s, adbc_error, 'sch \<times> int \<times> bytes list) step"
  info_code_from :: "u32 \<Rightarrow> nat"
  object_depth_try_from :: "int \<Rightarrow> (adbc_error, nat) result"

record vgi_types =
  t_ok :: "ok_response vgi_arrow"
  t_session :: "session_response vgi_arrow"
  t_statement :: "statement_response vgi_arrow"
  t_schema :: "schema_response vgi_arrow"
  t_update :: "update_response vgi_arrow"
  t_value :: "value_response vgi_arrow"
  t_execute :: "execute_response vgi_arrow"
  t_partitions :: "partitions_response vgi_arrow"
  t_claims :: "partition_claims vgi_arrow"
  t_open_connection :: "open_connection_request vgi_arrow"
  t_set_connection_option :: "set_connection_option_request vgi_arrow"
  t_set_statement_option :: "set_statement_option_request vgi_arrow"
  t_get_info :: "get_info_request vgi_arrow"
  t_get_objects :: "get_objects_request vgi_arrow"
  t_get_table_schema :: "get_table_schema_request vgi_arrow"
  t_get_statistics :: "get_statistics_request vgi_arrow"

text \<open>
  \<open>header_as_schema bs\<close> is \<open>None\<close> when the bytes are no IPC message and \<open>Some None\<close> when the message
  is not a schema.
\<close>

record 'sch library =
  l_ipc :: arrow_ipc
  l_types :: vgi_types
  l_base64 :: "bytes \<Rightarrow> string"
  l_hmac :: "bytes \<Rightarrow> bytes \<Rightarrow> bytes"
  schema_to_bytes :: "'sch \<Rightarrow> bytes"
  header_as_schema :: "bytes \<Rightarrow> 'sch option option"

record ('c, 's, 'k, 'r, 'sch, 'x, 'w, 'f) service =
  sv_mc :: manager_config
  sv_ops :: "('c, 's, 'k, 'r, record_batch, 'sch, 'x) driver_ops"
  sv_calls :: "('c, 's, 'r, 'sch) driver_calls"
  sv_stream :: "('w, record_batch, 'f, 'r) arrow_stream"
  sv_writer :: "'sch \<Rightarrow> 'f \<Rightarrow> (string, 'w) result"
  sv_backend :: "target_config \<Rightarrow> (string \<times> option_value) list \<Rightarrow> (string \<times> option_value) list \<Rightarrow>
    (adbc_error, 'c) result"
  sv_lib :: "'sch library"
  sv_max_bind_bytes :: nat

record 'f ambient =
  a_now :: nat
  a_wall :: "nat option"
  a_outcome :: "nat \<Rightarrow> call_outcome"
  a_uuid :: string
  a_open :: open_outcome
  a_spawn :: "(string, unit) result"
  a_tempfile :: "(string, 'f) result"

type_synonym ('c, 's, 'k, 'r, 'sch, 'w) service_session =
  "('c, 's, 'k, 'r, record_batch, 'sch, 'w) session"

type_synonym ('c, 's, 'k, 'r, 'sch, 'w) service_manager =
  "('c, 's, 'k, 'r, record_batch, 'sch, 'w) session manager"

record request =
  batch :: record_batch
  metadata :: "(string, string) hash_map"

record call_context =
  auth :: auth_context
  response_limit_bytes :: "nat option"

definition max_control_bytes :: nat where
  "max_control_bytes = 256 * 1024 * 1024"

subsection \<open>Errors\<close>

text \<open>
  \<open>RpcError\<close> by its constructors. The JSON text of an ADBC error stands for the record it
  encodes; serialising it cannot fail.
\<close>

datatype rpc_error =
    VersionError string
  | Unauthenticated_Caller
  | ValueError message
  | AdbcRpcError (error_kind: string) wire_adbc_error
  | ProtocolRpcError message
  | RuntimeRpcError message

definition adbc_rpc_error :: "'sch library \<Rightarrow> adbc_error \<Rightarrow> rpc_error" where
  "adbc_rpc_error L e = AdbcRpcError (''adbc.'' @ status_name (status e)) (wire_error_from (l_base64 L) e)"

definition protocol_rpc_error :: "protocol_error \<Rightarrow> rpc_error" where
  "protocol_rpc_error e = ValueError [Proto e]"

text \<open>The two ways an error reaches a handler: from a step of the session layer, from a result.\<close>

definition adbc :: "'sch library \<Rightarrow> ('m, adbc_error, 'a) step \<Rightarrow> ('m, rpc_error, 'a) step" where
  "adbc L f m = (case f m of (r, m') \<Rightarrow> (map_err (adbc_rpc_error L) r, m'))"

definition ret :: "('e, 'a) result \<Rightarrow> ('m, 'e, 'a) step" where
  "ret r m = (r, m)"

definition proto :: "(protocol_error, 'a) result \<Rightarrow> ('m, rpc_error, 'a) step" where
  "proto r = ret (map_err protocol_rpc_error r)"

subsection \<open>Arguments\<close>

definition compatible_version :: "string option \<Rightarrow> bool" where
  "compatible_version v =
     (case v of
        None \<Rightarrow> False
      | Some version \<Rightarrow>
          (case strip_prefix ''0.4.'' version of
             None \<Rightarrow> False
           | Some patch \<Rightarrow> patch \<noteq> [] \<and> list_all is_ascii_digit patch))"

definition validate_protocol_version :: "request \<Rightarrow> (rpc_error, unit) result" where
  "validate_protocol_version req =
     (if compatible_version (hm_get (metadata req) ''vgi_rpc.protocol_version'') then Inr ()
      else Inl (VersionError ''Grainlift requires an explicit 0.4.x protocol version''))"

definition string_arg :: "request \<Rightarrow> string \<Rightarrow> (rpc_error, string) result" where
  "string_arg req name =
     try_bind (map_err protocol_rpc_error (string_value (batch req) name)) (\<lambda>v.
     try_bind
       (map_err protocol_rpc_error
          (if name \<in> {''session_id'', ''statement_id'', ''result_id'', ''key''} then validate_handle v
           else validate_text v)) (\<lambda>_.
     Inr v))"

definition binary_arg :: "request \<Rightarrow> string \<Rightarrow> (rpc_error, bytes) result" where
  "binary_arg req name = map_err protocol_rpc_error (binary_value (batch req) name)"

definition typed_request ::
  "'sch library \<Rightarrow> 'a vgi_arrow \<Rightarrow> ('a \<Rightarrow> (protocol_error, unit) result) \<Rightarrow> request \<Rightarrow>
   (rpc_error, 'a) result" where
  "typed_request L T val req =
     try_bind (validate_protocol_version req) (\<lambda>_.
     map_err protocol_rpc_error (decode_request (l_ipc L) T val (batch req) max_control_bytes))"

subsection \<open>Replies\<close>

definition encode_schema :: "'sch library \<Rightarrow> 'sch \<Rightarrow> (protocol_error, bytes) result" where
  "encode_schema L sch = Inr (schema_to_bytes L sch)"

definition decode_schema :: "'sch library \<Rightarrow> bytes \<Rightarrow> (protocol_error, 'sch) result" where
  "decode_schema L bs =
     try_bind (ok_or InvalidSchemaMessage (header_as_schema L bs)) (\<lambda>header.
     ok_or InvalidSchemaMessage header)"

definition response_limit :: "call_context \<Rightarrow> nat" where
  "response_limit ctx =
     min (case response_limit_bytes ctx of None \<Rightarrow> max_control_bytes | Some n \<Rightarrow> n) max_control_bytes"

definition bounded_response ::
  "'sch library \<Rightarrow> 'a vgi_arrow \<Rightarrow> ('a \<Rightarrow> (protocol_error, unit) result) \<Rightarrow> 'a \<Rightarrow> nat \<Rightarrow>
   (protocol_error, record_batch) result" where
  "bounded_response L T val v limit =
     try_bind (encode_response (l_ipc L) T val v limit) (\<lambda>response.
     try_bind (encode_batch_ipc (l_ipc L) response limit) (\<lambda>_. Inr response))"

definition handle_response ::
  "'sch library \<Rightarrow> 'a vgi_arrow \<Rightarrow> ('a \<Rightarrow> (protocol_error, unit) result) \<Rightarrow> 'a \<Rightarrow> nat \<Rightarrow>
   ('m \<Rightarrow> 'm) \<Rightarrow> ('m, rpc_error, record_batch) step" where
  "handle_response L T val v limit cleanup m =
     (case bounded_response L T val v limit of
        Inl e \<Rightarrow> (Inl (protocol_rpc_error e), cleanup m)
      | Inr response \<Rightarrow> (Inr response, m))"

definition typed_response ::
  "'sch library \<Rightarrow> 'a vgi_arrow \<Rightarrow> ('a \<Rightarrow> (protocol_error, unit) result) \<Rightarrow> 'a \<Rightarrow>
   (rpc_error, record_batch) result" where
  "typed_response L T val v =
     map_err protocol_rpc_error (encode_response (l_ipc L) T val v max_control_bytes)"

definition ok_batch :: "'sch library \<Rightarrow> (rpc_error, record_batch) result" where
  "ok_batch L = typed_response L (t_ok (l_types L)) response_validate \<lparr>or_ok = True\<rparr>"

definition schema_response :: "'sch library \<Rightarrow> 'sch \<Rightarrow> (rpc_error, record_batch) result" where
  "schema_response L sch =
     try_bind (map_err protocol_rpc_error (encode_schema L sch)) (\<lambda>bs.
     typed_response L (t_schema (l_types L)) response_validate \<lparr>sm_schema_ipc = bs\<rparr>)"

definition value_response :: "'sch library \<Rightarrow> option_value \<Rightarrow> (rpc_error, record_batch) result" where
  "value_response L v =
     (let w = wire_value_from v
      in try_bind (map_err protocol_rpc_error (wire_value_into_adbc w)) (\<lambda>_.
         typed_response L (t_value (l_types L)) value_response_validate \<lparr>vr_value = w\<rparr>))"

definition bind_ack :: record_batch where
  "bind_ack =
     \<lparr>schema_fields = empty_response_schema, columns = [BooleanArray [Some True]], num_rows = 1\<rparr>"

text \<open>The reply that carries a result handle: a result whose handle cannot be sent is closed.\<close>

definition result_response ::
  "'sch library \<Rightarrow> call_outcome \<Rightarrow> string \<Rightarrow> 'sch \<Rightarrow> nat \<Rightarrow>
   (('c, 's, 'k, 'r, 'sch, 'w) service_session, rpc_error, record_batch) step" where
  "result_response L oc hid sch limit s =
     (case try_bind (encode_schema L sch) (\<lambda>bs.
             bounded_response L (t_execute (l_types L)) execute_response_validate
               \<lparr>er_result_id = hid, er_rows_affected = None, er_schema_ipc = bs\<rparr> limit) of
        Inl e \<Rightarrow> (Inl (protocol_rpc_error e), snd (close_result oc hid s))
      | Inr response \<Rightarrow> (Inr response, s))"

text \<open>\<open>grainlift_protocol::execute_response\<close>: the same reply at the full control limit.\<close>

definition protocol_execute_response ::
  "'sch library \<Rightarrow> string \<Rightarrow> int option \<Rightarrow> 'sch \<Rightarrow> (protocol_error, record_batch) result" where
  "protocol_execute_response L rid rows sch =
     try_bind (encode_schema L sch) (\<lambda>bs.
     encode_response (l_ipc L) (t_execute (l_types L)) execute_response_validate
       \<lparr>er_result_id = rid, er_rows_affected = rows, er_schema_ipc = bs\<rparr> max_control_bytes)"

definition insert_reader_response ::
  "('c, 's, 'k, 'r, 'sch, 'x, 'w, 'f) service \<Rightarrow> call_outcome \<Rightarrow> call_outcome \<Rightarrow> string \<Rightarrow> 'r \<Rightarrow>
   call_context \<Rightarrow> (('c, 's, 'k, 'r, 'sch, 'w) service_session, rpc_error, record_batch) step" where
  "insert_reader_response E oc1 oc2 uuid rd ctx =
     st_bind (adbc (sv_lib E) (insert_result (sv_ops E) oc1 uuid rd)) (\<lambda>(hid, sch).
     result_response (sv_lib E) oc2 hid sch (response_limit ctx))"

subsection \<open>Sessions\<close>

text \<open>\<open>manager.principal(&ctx.auth)?\<close>\<close>

definition caller ::
  "('c, 's, 'k, 'r, 'sch, 'x, 'w, 'f) service \<Rightarrow> call_context \<Rightarrow> (rpc_error, string) result" where
  "caller E ctx =
     ok_or Unauthenticated_Caller (principal_of (mc_require_authentication (sv_mc E)) (auth ctx))"

definition session_by_id ::
  "('c, 's, 'k, 'r, 'sch, 'x, 'w, 'f) service \<Rightarrow> 'f ambient \<Rightarrow> string \<Rightarrow> call_context \<Rightarrow>
   (('c, 's, 'k, 'r, 'sch, 'w) service_manager, rpc_error,
    ('c, 's, 'k, 'r, 'sch, 'w) service_session) step" where
  "session_by_id E a sid ctx =
     st_bind (ret (caller E ctx)) (\<lambda>who. adbc (sv_lib E) (manager_get (sv_mc E) (a_now a) sid who))"

definition get_session ::
  "('c, 's, 'k, 'r, 'sch, 'x, 'w, 'f) service \<Rightarrow> 'f ambient \<Rightarrow> request \<Rightarrow> call_context \<Rightarrow>
   (('c, 's, 'k, 'r, 'sch, 'w) service_manager, rpc_error,
    ('c, 's, 'k, 'r, 'sch, 'w) service_session \<times> string) step" where
  "get_session E a req ctx =
     st_bind (ret (validate_protocol_version req)) (\<lambda>_.
     st_bind (ret (caller E ctx)) (\<lambda>who.
     st_bind (ret (string_arg req ''session_id'')) (\<lambda>sid.
     st_bind (adbc (sv_lib E) (manager_get (sv_mc E) (a_now a) sid who)) (\<lambda>s.
     ret (Inr (s, sid))))))"

text \<open>
  A handler works on the session it holds, which is the registered one, and drops its reference
  at the end.
\<close>

definition give_back ::
  "string \<Rightarrow> ('c, 's, 'k, 'r, 'b, 'sch, 'w) session \<Rightarrow>
   ('c, 's, 'k, 'r, 'b, 'sch, 'w) session manager \<Rightarrow> ('c, 's, 'k, 'r, 'b, 'sch, 'w) session manager"
  where
  "give_back sid s m =
     m\<lparr>registry := store (registry m) ((inner (registry m))\<lparr>sessions :=
          hm_insert sid s (sessions (inner (registry m)))\<rparr>),
       held := (held m)(sid := held m sid - 1)\<rparr>"

definition use_session ::
  "(('c, 's, 'k, 'r, 'b, 'sch, 'w) session, rpc_error, 'a) step \<Rightarrow>
   ('c, 's, 'k, 'r, 'b, 'sch, 'w) session \<times> string \<Rightarrow>
   (('c, 's, 'k, 'r, 'b, 'sch, 'w) session manager, rpc_error, 'a) step" where
  "use_session body h m =
     (case h of (s, sid) \<Rightarrow> (case body s of (r, s') \<Rightarrow> (r, give_back sid s' m)))"

definition on_session ::
  "('c, 's, 'k, 'r, 'sch, 'x, 'w, 'f) service \<Rightarrow> 'f ambient \<Rightarrow> request \<Rightarrow> call_context \<Rightarrow>
   (string \<Rightarrow> (('c, 's, 'k, 'r, 'sch, 'w) service_session, rpc_error, 'a) step) \<Rightarrow>
   (('c, 's, 'k, 'r, 'sch, 'w) service_manager, rpc_error, 'a) step" where
  "on_session E a req ctx body =
     st_bind (get_session E a req ctx) (\<lambda>h. use_session (body (snd h)) h)"

definition on_session_id ::
  "('c, 's, 'k, 'r, 'sch, 'x, 'w, 'f) service \<Rightarrow> 'f ambient \<Rightarrow> string \<Rightarrow> call_context \<Rightarrow>
   (('c, 's, 'k, 'r, 'sch, 'w) service_session, rpc_error, 'a) step \<Rightarrow>
   (('c, 's, 'k, 'r, 'sch, 'w) service_manager, rpc_error, 'a) step" where
  "on_session_id E a sid ctx body =
     st_bind (session_by_id E a sid ctx) (\<lambda>s. use_session body (s, sid))"

definition on_typed ::
  "('c, 's, 'k, 'r, 'sch, 'x, 'w, 'f) service \<Rightarrow> 'f ambient \<Rightarrow> 'q vgi_arrow \<Rightarrow>
   ('q \<Rightarrow> (protocol_error, unit) result) \<Rightarrow> ('q \<Rightarrow> string) \<Rightarrow> request \<Rightarrow> call_context \<Rightarrow>
   ('q \<Rightarrow> (('c, 's, 'k, 'r, 'sch, 'w) service_session, rpc_error, 'a) step) \<Rightarrow>
   (('c, 's, 'k, 'r, 'sch, 'w) service_manager, rpc_error, 'a) step" where
  "on_typed E a T val sid_of req ctx body =
     st_bind (ret (typed_request (sv_lib E) T val req)) (\<lambda>args.
     on_session_id E a (sid_of args) ctx (body args))"

text \<open>A session operation whose reply is \<open>ok_batch\<close>, and an argument of the method.\<close>

definition then_ok ::
  "'sch library \<Rightarrow> ('m, adbc_error, unit) step \<Rightarrow> ('m, rpc_error, record_batch) step" where
  "then_ok L f = st_bind (adbc L f) (\<lambda>_. ret (ok_batch L))"

definition arg :: "request \<Rightarrow> string \<Rightarrow> (string \<Rightarrow> ('m, rpc_error, 'a) step) \<Rightarrow> ('m, rpc_error, 'a) step" where
  "arg req name = st_bind (ret (string_arg req name))"

text \<open>A result reply within the full control limit is the execute response of the protocol.\<close>

lemma result_response_is_execute_response:
  "result_response L oc hid sch max_control_bytes s = (Inr reply, s') \<Longrightarrow> protocol_execute_response L hid None sch = Inr reply \<and> s' = s"
  by (auto simp: result_response_def protocol_execute_response_def bounded_response_def result_iffs split: sum.splits)

subsection \<open>What handlers keep\<close>

text \<open>
  The contract of a preorder on states: a relation that holds between a state and what each
  part of a handler makes of it holds across the handler. It is interpreted for the steps of a
  session, for the steps of the manager and for the sessions of other principals.
\<close>

locale state_preorder =
  fixes R :: "'m \<Rightarrow> 'm \<Rightarrow> bool"
  assumes stays: "R m m"
    and chains: "R m m' \<Longrightarrow> R m' m'' \<Longrightarrow> R m m''"
begin

lemma keeps_ret: "R m (snd (ret r m))"
  by (simp add: ret_def stays)

lemma keeps_proto: "R m (snd (proto r m))"
  by (simp add: proto_def keeps_ret)

lemma keeps_adbc: "R m (snd (f m)) \<Longrightarrow> R m (snd (adbc L f m))"
  by (simp add: adbc_def case_prod_beta)

lemma keeps_bind_after:
  assumes "R m (snd (f m))" and "\<And>a m'. f m = (Inr a, m') \<Longrightarrow> R m' (snd (g a m'))"
  shows "R m (snd (st_bind f g m))"
proof -
  obtain r m' where f: "f m = (r, m')" by fastforce
  show ?thesis
  proof (cases r)
    case (Inl e)
    with f assms(1) show ?thesis by (simp add: st_bind_def)
  next
    case (Inr a)
    with f assms have "R m m'" "R m' (snd (g a m'))" by simp_all
    with Inr f show ?thesis by (auto simp: st_bind_def intro: chains)
  qed
qed

lemma keeps_bind:
  "R m (snd (f m)) \<Longrightarrow> (\<And>a m. R m (snd (g a m))) \<Longrightarrow> R m (snd (st_bind f g m))"
  by (rule keeps_bind_after)

lemma keeps_arg: "(\<And>v. R m (snd (body v m))) \<Longrightarrow> R m (snd (arg req name body m))"
  unfolding arg_def by (rule keeps_bind_after) (auto simp: ret_def stays)

lemma keeps_ret_bind: "(\<And>v. R m (snd (body v m))) \<Longrightarrow> R m (snd (st_bind (ret r) body m))"
  by (rule keeps_bind_after) (auto simp: ret_def stays)

lemma keeps_then_ok: "R m (snd (f m)) \<Longrightarrow> R m (snd (then_ok L f m))"
  unfolding then_ok_def by (rule keeps_bind) (auto intro: keeps_adbc keeps_ret)

lemma keeps_handle_response:
  "R m (cleanup m) \<Longrightarrow> R m (snd (handle_response L T val v limit cleanup m))"
  by (simp add: handle_response_def stays split: sum.split)

end

subsection \<open>Session operations as session steps\<close>

text \<open>What a driver call returns does not matter for the state it leaves.\<close>

lemma with_connection_unit:
  "snd (with_connection oc f s) = snd (with_connection oc (\<lambda>c. (Inr (), snd (f c))) s)"
  by (simp add: with_connection_def worker_call_def locked_def split: call_outcome.split prod.split)

lemma statement_job_unit:
  "snd (statement_job hid f sts) = snd (statement_job hid (\<lambda>x. (Inr (), snd (f x))) sts)"
  by (simp add: statement_job_def locked_def split: option.split prod.split)

lemma with_statement_unit:
  "snd (with_statement oc hid f s) = snd (with_statement oc hid (\<lambda>x. (Inr (), snd (f x))) s)"
  using statement_job_unit [of hid f "inner (statements s)"]
  by (auto simp: with_statement_def worker_call_def locked_def split: call_outcome.split prod.split)

interpretation session_walk: state_preorder "(session_step D A)\<^sup>*\<^sup>*"
  for D :: "('c, 's, 'k, 'r, 'b, 'sch, 'x) driver_ops" and A :: "('w, 'b, 'f, 'r) arrow_stream"
  by unfold_locales auto

lemma walk_connection: "(session_step D A)\<^sup>*\<^sup>* s (snd (with_connection oc f s))"
  unfolding with_connection_unit [of oc f] by (rule r_into_rtranclp) (rule step_connection)

lemma walk_statement: "(session_step D A)\<^sup>*\<^sup>* s (snd (with_statement oc hid f s))"
  unfolding with_statement_unit [of oc hid f] by (rule r_into_rtranclp) (rule step_statement)

lemma walk_commit: "(session_step D A)\<^sup>*\<^sup>* s (snd (commit D oc s))"
  unfolding commit_def by (rule walk_connection)

lemma walk_rollback: "(session_step D A)\<^sup>*\<^sup>* s (snd (rollback D oc s))"
  unfolding rollback_def by (rule walk_connection)

lemma walk_operations:
  "(session_step D A)\<^sup>*\<^sup>* s (snd (set_connection_option D oc key v s))"
  "(session_step D A)\<^sup>*\<^sup>* s (snd (new_statement D oc uuid s))"
  "(session_step D A)\<^sup>*\<^sup>* s (snd (close_statement oc1 oc2 hid s))"
  "(session_step D A)\<^sup>*\<^sup>* s (snd (invalidate_statement_results oc hid s))"
  "(session_step D A)\<^sup>*\<^sup>* s (snd (insert_result D oc uuid rd s))"
  "(session_step D A)\<^sup>*\<^sup>* s (snd (insert_statement_result D oc1 oc2 uuid hid rd s))"
  "(session_step D A)\<^sup>*\<^sup>* s (snd (result_schema oc hid s))"
  "(session_step D A)\<^sup>*\<^sup>* s (snd (next_result D oc hid n s))"
  "(session_step D A)\<^sup>*\<^sup>* s (snd (close_result oc hid s))"
  "(session_step D A)\<^sup>*\<^sup>* s (snd (start_bind_upload uuid hid mode start mx s))"
  "(session_step D A)\<^sup>*\<^sup>* s (snd (push_bind_upload A hid b s))"
  "(session_step D A)\<^sup>*\<^sup>* s (snd (finish_bind_upload A D oc hid s))"
  "(session_step D A)\<^sup>*\<^sup>* s (cancel_bind_upload hid s)"
  by (rule r_into_rtranclp, rule session_step.intros)+

lemma walk_result_response:
  "(session_step D A)\<^sup>*\<^sup>* s (snd (result_response L oc hid sch limit s))"
  by (simp add: result_response_def walk_operations split: sum.split)

lemma walk_insert_reader:
  "(session_step (sv_ops E) A)\<^sup>*\<^sup>* s (snd (insert_reader_response E oc1 oc2 uuid rd ctx s))"
  unfolding insert_reader_response_def
  by (rule session_walk.keeps_bind)
    (auto intro: session_walk.keeps_adbc walk_operations walk_result_response split: prod.split)

lemmas walk_intros =
  walk_connection walk_statement walk_commit walk_rollback walk_operations walk_result_response
  walk_insert_reader

end
