(* ===== verification/Handlers.thy ===== *)
theory Handlers
  imports Service "HOL-Library.Multiset"
begin

text \<open>
  The unary methods of the service, one definition per registered closure of
  \<open>crates/grainlift-server/src/service.rs\<close>, and the table they are registered in.
\<close>

type_synonym ('c, 's, 'k, 'r, 'sch, 'x, 'w, 'f) handler =
  "('c, 's, 'k, 'r, 'sch, 'x, 'w, 'f) service \<Rightarrow> 'f ambient \<Rightarrow> request \<Rightarrow> call_context \<Rightarrow>
   (('c, 's, 'k, 'r, 'sch, 'w) service_manager, rpc_error, record_batch) step"

subsection \<open>Connections\<close>

definition open_connection :: "('c, 's, 'k, 'r, 'sch, 'x, 'w, 'f) handler" where
  "open_connection E a req ctx =
     st_bind (ret (typed_request (sv_lib E) (t_open_connection (l_types (sv_lib E)))
       open_request_validate req)) (\<lambda>args.
     st_bind (ret (caller E ctx)) (\<lambda>who.
     st_bind (proto (named_options_into_adbc (oc_database_options args))) (\<lambda>dbo.
     st_bind (proto (named_options_into_adbc (oc_connection_options args))) (\<lambda>co.
     st_bind (adbc (sv_lib E)
       (manager_open (sv_ops E) (sv_mc E) (\<lambda>t. sv_backend E t dbo co) (a_now a) (a_open a)
          (a_spawn a) (a_uuid a) who (oc_target args))) (\<lambda>sid.
     handle_response (sv_lib E) (t_session (l_types (sv_lib E))) response_validate
       \<lparr>sr_session_id = sid\<rparr> (response_limit ctx) (\<lambda>m. snd (manager_close sid who m)))))))"

definition commit_connection :: "('c, 's, 'k, 'r, 'sch, 'x, 'w, 'f) handler" where
  "commit_connection E a req ctx =
     on_session E a req ctx (\<lambda>_. then_ok (sv_lib E) (commit (sv_ops E) (a_outcome a 0)))"

definition rollback_connection :: "('c, 's, 'k, 'r, 'sch, 'x, 'w, 'f) handler" where
  "rollback_connection E a req ctx =
     on_session E a req ctx (\<lambda>_. then_ok (sv_lib E) (rollback (sv_ops E) (a_outcome a 0)))"

definition cancel_connection_call :: "('c, 's, 'k, 'r, 'sch, 'x, 'w, 'f) handler" where
  "cancel_connection_call E a req ctx =
     on_session E a req ctx (\<lambda>_. then_ok (sv_lib E) (\<lambda>s. (cancel_connection (sv_ops E) s, s)))"

definition close_connection :: "('c, 's, 'k, 'r, 'sch, 'x, 'w, 'f) handler" where
  "close_connection E a req ctx =
     st_bind (ret (validate_protocol_version req)) (\<lambda>_.
     st_bind (ret (caller E ctx)) (\<lambda>who.
     arg req ''session_id'' (\<lambda>sid.
     then_ok (sv_lib E) (manager_close sid who))))"

definition set_connection_option_call :: "('c, 's, 'k, 'r, 'sch, 'x, 'w, 'f) handler" where
  "set_connection_option_call E a req ctx =
     on_typed E a (t_set_connection_option (l_types (sv_lib E))) set_connection_option_validate
       sc_session_id req ctx (\<lambda>args.
     st_bind (proto (wire_value_into_adbc (sc_value args))) (\<lambda>v.
     then_ok (sv_lib E) (set_connection_option (sv_ops E) (a_outcome a 0) (sc_key args) v)))"

text \<open>The typed getters of an option: the requested type selects the driver call.\<close>

definition unknown_value_type :: adbc_error where
  "unknown_value_type =
     with_message_and_status [Lit ''unknown option value type''] InvalidArguments"

definition get_option_as ::
  "(string \<Rightarrow> ('t, adbc_error, string) step) \<Rightarrow> (string \<Rightarrow> ('t, adbc_error, bytes) step) \<Rightarrow>
   (string \<Rightarrow> ('t, adbc_error, int) step) \<Rightarrow> (string \<Rightarrow> ('t, adbc_error, 64 word) step) \<Rightarrow>
   string \<Rightarrow> string \<Rightarrow> ('t, adbc_error, option_value) step" where
  "get_option_as get_string get_bytes get_int get_double value_type key =
     (if value_type = ''string'' then st_bind (get_string key) (\<lambda>v. ret (Inr (StringValue v)))
      else if value_type = ''bytes'' then st_bind (get_bytes key) (\<lambda>v. ret (Inr (BytesValue v)))
      else if value_type = ''int'' then st_bind (get_int key) (\<lambda>v. ret (Inr (IntValue v)))
      else if value_type = ''double'' then st_bind (get_double key) (\<lambda>v. ret (Inr (DoubleValue v)))
      else ret (Inl unknown_value_type))"

definition get_connection_option_call :: "('c, 's, 'k, 'r, 'sch, 'x, 'w, 'f) handler" where
  "get_connection_option_call E a req ctx =
     on_session E a req ctx (\<lambda>_.
     arg req ''key'' (\<lambda>key.
     arg req ''value_type'' (\<lambda>value_type.
     st_bind (adbc (sv_lib E) (with_connection (a_outcome a 0)
       (get_option_as (c_get_option_string (sv_calls E)) (c_get_option_bytes (sv_calls E))
          (c_get_option_int (sv_calls E)) (c_get_option_double (sv_calls E)) value_type key))) (\<lambda>v.
     ret (value_response (sv_lib E) v)))))"

text \<open>A connection call that returns a reader, which becomes a result of the session.\<close>

definition reader_of_connection ::
  "('c, 's, 'k, 'r, 'sch, 'x, 'w, 'f) service \<Rightarrow> 'f ambient \<Rightarrow> call_context \<Rightarrow>
   ('c, adbc_error, 'r) step \<Rightarrow>
   (('c, 's, 'k, 'r, 'sch, 'w) service_session, rpc_error, record_batch) step" where
  "reader_of_connection E a ctx call =
     st_bind (adbc (sv_lib E) (with_connection (a_outcome a 0) call)) (\<lambda>rd.
     insert_reader_response E (a_outcome a 1) (a_outcome a 2) (a_uuid a) rd ctx)"

definition as_u32 :: "int \<Rightarrow> u32" where
  "as_u32 n = word_of_int n"

definition as_i32 :: "int \<Rightarrow> int" where
  "as_i32 n = sint (word_of_int n :: 32 word)"

definition get_info_call :: "('c, 's, 'k, 'r, 'sch, 'x, 'w, 'f) handler" where
  "get_info_call E a req ctx =
     on_typed E a (t_get_info (l_types (sv_lib E))) get_info_validate gi_session_id req ctx (\<lambda>args.
     reader_of_connection E a ctx
       (c_get_info (sv_calls E)
          (map_option (\<lambda>codes. set (map (\<lambda>c. info_code_from (sv_calls E) (as_u32 c)) codes))
             (gi_codes args))))"

definition get_objects_call :: "('c, 's, 'k, 'r, 'sch, 'x, 'w, 'f) handler" where
  "get_objects_call E a req ctx =
     on_typed E a (t_get_objects (l_types (sv_lib E))) get_objects_validate go_session_id req ctx (\<lambda>args.
     st_bind (adbc (sv_lib E) (ret (object_depth_try_from (sv_calls E) (as_i32 (go_depth args))))) (\<lambda>depth.
     reader_of_connection E a ctx
       (c_get_objects (sv_calls E) depth (go_catalog args) (go_db_schema args) (go_table_name args)
          (go_table_types args) (go_column_name args))))"

definition get_table_schema_call :: "('c, 's, 'k, 'r, 'sch, 'x, 'w, 'f) handler" where
  "get_table_schema_call E a req ctx =
     on_typed E a (t_get_table_schema (l_types (sv_lib E))) get_table_schema_validate gt_session_id
       req ctx (\<lambda>args.
     st_bind (adbc (sv_lib E) (with_connection (a_outcome a 0)
       (c_get_table_schema (sv_calls E) (gt_catalog args) (gt_db_schema args) (gt_table_name args)))) (\<lambda>sch.
     ret (schema_response (sv_lib E) sch)))"

definition get_table_types_call :: "('c, 's, 'k, 'r, 'sch, 'x, 'w, 'f) handler" where
  "get_table_types_call E a req ctx =
     on_session E a req ctx (\<lambda>_. reader_of_connection E a ctx (c_get_table_types (sv_calls E)))"

definition get_statistic_names_call :: "('c, 's, 'k, 'r, 'sch, 'x, 'w, 'f) handler" where
  "get_statistic_names_call E a req ctx =
     on_session E a req ctx (\<lambda>_. reader_of_connection E a ctx (c_get_statistic_names (sv_calls E)))"

definition get_statistics_call :: "('c, 's, 'k, 'r, 'sch, 'x, 'w, 'f) handler" where
  "get_statistics_call E a req ctx =
     on_typed E a (t_get_statistics (l_types (sv_lib E))) get_statistics_validate gs_session_id
       req ctx (\<lambda>args.
     reader_of_connection E a ctx
       (c_get_statistics (sv_calls E) (gs_catalog args) (gs_db_schema args) (gs_table_name args)
          (gs_approximate args)))"

definition read_partition_call :: "('c, 's, 'k, 'r, 'sch, 'x, 'w, 'f) handler" where
  "read_partition_call E a req ctx =
     on_session E a req ctx (\<lambda>_.
     st_bind (ret (binary_arg req ''payload'')) (\<lambda>token.
     st_bind (adbc (sv_lib E) (\<lambda>s.
       (open_partition (l_ipc (sv_lib E)) (t_claims (l_types (sv_lib E))) (l_hmac (sv_lib E)) (a_wall a)
          (sv_mc E) s token max_control_bytes, s))) (\<lambda>descriptor.
     reader_of_connection E a ctx (c_read_partition (sv_calls E) descriptor))))"

subsection \<open>Statements\<close>

definition new_statement_call :: "('c, 's, 'k, 'r, 'sch, 'x, 'w, 'f) handler" where
  "new_statement_call E a req ctx =
     on_session E a req ctx (\<lambda>sid.
     st_bind (adbc (sv_lib E) (new_statement (sv_ops E) (a_outcome a 0) (a_uuid a))) (\<lambda>hid.
     handle_response (sv_lib E) (t_statement (l_types (sv_lib E))) response_validate
       \<lparr>st_session_id = sid, st_statement_id = hid\<rparr> (response_limit ctx)
       (\<lambda>s. snd (close_statement (a_outcome a 1) (a_outcome a 2) hid s))))"

definition set_statement_option_call :: "('c, 's, 'k, 'r, 'sch, 'x, 'w, 'f) handler" where
  "set_statement_option_call E a req ctx =
     on_typed E a (t_set_statement_option (l_types (sv_lib E))) set_statement_option_validate
       ss_session_id req ctx (\<lambda>args.
     st_bind (proto (wire_value_into_adbc (ss_value args))) (\<lambda>v.
     then_ok (sv_lib E) (with_statement (a_outcome a 0) (ss_statement_id args)
       (s_set_option (sv_calls E) (ss_key args) v))))"

definition get_statement_option_call :: "('c, 's, 'k, 'r, 'sch, 'x, 'w, 'f) handler" where
  "get_statement_option_call E a req ctx =
     on_session E a req ctx (\<lambda>_.
     arg req ''statement_id'' (\<lambda>hid.
     arg req ''key'' (\<lambda>key.
     arg req ''value_type'' (\<lambda>value_type.
     st_bind (adbc (sv_lib E) (with_statement (a_outcome a 0) hid
       (get_option_as (s_get_option_string (sv_calls E)) (s_get_option_bytes (sv_calls E))
          (s_get_option_int (sv_calls E)) (s_get_option_double (sv_calls E)) value_type key))) (\<lambda>v.
     ret (value_response (sv_lib E) v))))))"

definition set_sql_query_call :: "('c, 's, 'k, 'r, 'sch, 'x, 'w, 'f) handler" where
  "set_sql_query_call E a req ctx =
     on_session E a req ctx (\<lambda>_.
     arg req ''statement_id'' (\<lambda>hid.
     arg req ''sql'' (\<lambda>sql.
     then_ok (sv_lib E) (with_statement (a_outcome a 0) hid (s_set_sql_query (sv_calls E) sql)))))"

definition set_substrait_plan_call :: "('c, 's, 'k, 'r, 'sch, 'x, 'w, 'f) handler" where
  "set_substrait_plan_call E a req ctx =
     on_session E a req ctx (\<lambda>_.
     arg req ''statement_id'' (\<lambda>hid.
     st_bind (ret (binary_arg req ''payload'')) (\<lambda>plan.
     then_ok (sv_lib E) (with_statement (a_outcome a 0) hid (s_set_substrait_plan (sv_calls E) plan)))))"

definition prepare_call :: "('c, 's, 'k, 'r, 'sch, 'x, 'w, 'f) handler" where
  "prepare_call E a req ctx =
     on_session E a req ctx (\<lambda>_.
     arg req ''statement_id'' (\<lambda>hid.
     then_ok (sv_lib E) (with_statement (a_outcome a 0) hid (s_prepare (sv_calls E)))))"

definition cancel_statement_call :: "('c, 's, 'k, 'r, 'sch, 'x, 'w, 'f) handler" where
  "cancel_statement_call E a req ctx =
     on_session E a req ctx (\<lambda>_.
     arg req ''statement_id'' (\<lambda>hid.
     then_ok (sv_lib E) (\<lambda>s. (cancel_statement (sv_ops E) hid s, s))))"

text \<open>
  The four ways to execute a statement begin alike: the results of the statement are dropped
  and the driver is called.
\<close>

definition execute_with ::
  "('c, 's, 'k, 'r, 'sch, 'x, 'w, 'f) service \<Rightarrow> 'f ambient \<Rightarrow> request \<Rightarrow> ('s, adbc_error, 'a) step \<Rightarrow>
   (string \<Rightarrow> 'a \<Rightarrow> (('c, 's, 'k, 'r, 'sch, 'w) service_session, rpc_error, record_batch) step) \<Rightarrow>
   (('c, 's, 'k, 'r, 'sch, 'w) service_session, rpc_error, record_batch) step" where
  "execute_with E a req call reply =
     arg req ''statement_id'' (\<lambda>hid.
     st_bind (adbc (sv_lib E) (invalidate_statement_results (a_outcome a 0) hid)) (\<lambda>_.
     st_bind (adbc (sv_lib E) (with_statement (a_outcome a 1) hid call)) (\<lambda>v. reply hid v)))"

definition execute_call :: "('c, 's, 'k, 'r, 'sch, 'x, 'w, 'f) handler" where
  "execute_call E a req ctx =
     on_session E a req ctx (\<lambda>_.
     execute_with E a req (s_execute_query (sv_calls E)) (\<lambda>hid rd.
     st_bind (adbc (sv_lib E) (insert_statement_result (sv_ops E) (a_outcome a 2) (a_outcome a 3)
       (a_uuid a) hid rd)) (\<lambda>(rid, sch).
     result_response (sv_lib E) (a_outcome a 4) rid sch (response_limit ctx))))"

definition execute_update_call :: "('c, 's, 'k, 'r, 'sch, 'x, 'w, 'f) handler" where
  "execute_update_call E a req ctx =
     on_session E a req ctx (\<lambda>_.
     execute_with E a req (s_execute_update (sv_calls E)) (\<lambda>_ affected.
     ret (typed_response (sv_lib E) (t_update (l_types (sv_lib E))) update_response_validate
       \<lparr>up_rows_affected = affected\<rparr>)))"

definition execute_schema_call :: "('c, 's, 'k, 'r, 'sch, 'x, 'w, 'f) handler" where
  "execute_schema_call E a req ctx =
     on_session E a req ctx (\<lambda>_.
     execute_with E a req (s_execute_schema (sv_calls E)) (\<lambda>_ sch.
     ret (schema_response (sv_lib E) sch)))"

definition get_parameter_schema_call :: "('c, 's, 'k, 'r, 'sch, 'x, 'w, 'f) handler" where
  "get_parameter_schema_call E a req ctx =
     on_session E a req ctx (\<lambda>_.
     arg req ''statement_id'' (\<lambda>hid.
     st_bind (adbc (sv_lib E) (with_statement (a_outcome a 0) hid (s_get_parameter_schema (sv_calls E)))) (\<lambda>sch.
     ret (schema_response (sv_lib E) sch))))"

text \<open>
  The tokens of a partitioned execution share the response budget; each also pays for its entry
  of the vector, three machine words.
\<close>

definition size_of_bytes :: nat where
  "size_of_bytes = 24"

definition exceeds_limit :: rpc_error where
  "exceeds_limit = ValueError [Lit ''partition response exceeds limit'']"

fun seal_all ::
  "(bytes \<Rightarrow> nat \<Rightarrow> (rpc_error, bytes) result) \<Rightarrow> nat \<Rightarrow> bytes list \<Rightarrow> (rpc_error, bytes list) result" where
  "seal_all seal_one remaining [] = Inr []"
| "seal_all seal_one remaining (descriptor # rest) =
     try_bind (seal_one descriptor remaining) (\<lambda>token.
     try_bind (ok_or exceeds_limit (checked_sub remaining (length token + size_of_bytes))) (\<lambda>left.
     try_bind (seal_all seal_one left rest) (\<lambda>tokens. Inr (token # tokens))))"

definition partitions_reply ::
  "('c, 's, 'k, 'r, 'sch, 'x, 'w, 'f) service \<Rightarrow> 'f ambient \<Rightarrow> call_context \<Rightarrow>
   'sch \<times> int \<times> bytes list \<Rightarrow> ('c, 's, 'k, 'r, 'sch, 'w) service_session \<Rightarrow>
   (rpc_error, record_batch) result" where
  "partitions_reply E a ctx result s =
     (case result of (sch, rows, descriptors) \<Rightarrow>
        try_bind (map_err protocol_rpc_error (encode_schema (sv_lib E) sch)) (\<lambda>schema.
        try_bind (ok_or exceeds_limit (checked_sub (response_limit ctx) (length schema))) (\<lambda>remaining.
        try_bind
          (seal_all
             (\<lambda>descriptor left.
                map_err (adbc_rpc_error (sv_lib E))
                  (seal_partition (l_ipc (sv_lib E)) (t_claims (l_types (sv_lib E))) (l_hmac (sv_lib E))
                     (a_wall a) (sv_mc E) s descriptor left))
             remaining descriptors) (\<lambda>tokens.
        map_err protocol_rpc_error
          (bounded_response (sv_lib E) (t_partitions (l_types (sv_lib E))) partitions_response_validate
             \<lparr>pr_rows_affected = rows, pr_schema_ipc = schema, pr_partitions = tokens\<rparr>
             (response_limit ctx))))))"

definition execute_partitions_call :: "('c, 's, 'k, 'r, 'sch, 'x, 'w, 'f) handler" where
  "execute_partitions_call E a req ctx =
     on_session E a req ctx (\<lambda>_.
     execute_with E a req (s_execute_partitions (sv_calls E)) (\<lambda>_ result s.
     (partitions_reply E a ctx result s, s)))"

definition close_statement_call :: "('c, 's, 'k, 'r, 'sch, 'x, 'w, 'f) handler" where
  "close_statement_call E a req ctx =
     on_session E a req ctx (\<lambda>_.
     arg req ''statement_id'' (\<lambda>hid.
     then_ok (sv_lib E) (close_statement (a_outcome a 0) (a_outcome a 1) hid)))"

definition close_result_call :: "('c, 's, 'k, 'r, 'sch, 'x, 'w, 'f) handler" where
  "close_result_call E a req ctx =
     on_session E a req ctx (\<lambda>_.
     arg req ''result_id'' (\<lambda>hid.
     then_ok (sv_lib E) (close_result (a_outcome a 0) hid)))"

subsection \<open>Registration\<close>

definition unary_methods :: "(string \<times> ('c, 's, 'k, 'r, 'sch, 'x, 'w, 'f) handler) list" where
  "unary_methods =
     [(''open_connection'', open_connection), (''commit'', commit_connection),
      (''rollback'', rollback_connection), (''cancel_connection'', cancel_connection_call),
      (''close_connection'', close_connection), (''new_statement'', new_statement_call),
      (''set_connection_option'', set_connection_option_call),
      (''get_connection_option'', get_connection_option_call), (''get_info'', get_info_call),
      (''get_objects'', get_objects_call), (''get_table_schema'', get_table_schema_call),
      (''get_table_types'', get_table_types_call), (''get_statistic_names'', get_statistic_names_call),
      (''get_statistics'', get_statistics_call), (''read_partition'', read_partition_call),
      (''set_statement_option'', set_statement_option_call),
      (''get_statement_option'', get_statement_option_call), (''set_sql_query'', set_sql_query_call),
      (''set_substrait_plan'', set_substrait_plan_call), (''prepare'', prepare_call),
      (''cancel_statement'', cancel_statement_call), (''execute'', execute_call),
      (''execute_update'', execute_update_call), (''execute_schema'', execute_schema_call),
      (''get_parameter_schema'', get_parameter_schema_call),
      (''execute_partitions'', execute_partitions_call), (''close_statement'', close_statement_call),
      (''close_result'', close_result_call)]"

text \<open>The server runs the handler registered under the method name.\<close>

definition unary_call :: "string \<Rightarrow> ('c, 's, 'k, 'r, 'sch, 'x, 'w, 'f) handler option" where
  "unary_call name = hm_get unary_methods name"

subsection \<open>Handlers as steps of the manager\<close>

text \<open>
  What one manager makes of another by a run of the interleaving machine that leaves no open
  in flight of its own.
\<close>

definition runs ::
  "('c, 's, 'k, 'r, 'b, 'sch, 'x) driver_ops \<Rightarrow> ('w, 'b, 'f, 'r) arrow_stream \<Rightarrow> manager_config \<Rightarrow>
   ('c, 's, 'k, 'r, 'b, 'sch, 'w) session manager \<Rightarrow>
   ('c, 's, 'k, 'r, 'b, 'sch, 'w) session manager \<Rightarrow> bool" where
  "runs D A mc m m' \<longleftrightarrow>
     (\<forall>w. mgr w = m \<longrightarrow>
        (\<exists>w'. (world_step D A mc)\<^sup>*\<^sup>* w w' \<and> mgr w' = m'
           \<and> mset (pending w') = mset (pending w) \<and> drained w' = drained w))"

lemma runsI:
  fixes D :: "('c, 's, 'k, 'r, 'b, 'sch, 'x) driver_ops" and A :: "('w, 'b, 'f, 'r) arrow_stream"
  assumes "\<And>w. mgr w = m \<Longrightarrow> world_step D A mc w (w\<lparr>mgr := m'\<rparr>)"
  shows "runs D A mc m m'"
  unfolding runs_def
proof (intro allI impI)
  fix w :: "('c, 's, 'k, 'r, 'b, 'sch, 'w) session world"
  assume "mgr w = m"
  from assms [OF this]
  show "\<exists>w'. (world_step D A mc)\<^sup>*\<^sup>* w w' \<and> mgr w' = m'
      \<and> mset (pending w') = mset (pending w) \<and> drained w' = drained w"
    by (intro exI [of _ "w\<lparr>mgr := m'\<rparr>"]) auto
qed

lemma runs_refl: "runs D A mc m m"
  unfolding runs_def by blast

lemma runs_trans:
  fixes D :: "('c, 's, 'k, 'r, 'b, 'sch, 'x) driver_ops" and A :: "('w, 'b, 'f, 'r) arrow_stream"
  assumes "runs D A mc m m'" and "runs D A mc m' m''"
  shows "runs D A mc m m''"
  unfolding runs_def
proof (intro allI impI)
  fix w :: "('c, 's, 'k, 'r, 'b, 'sch, 'w) session world"
  assume "mgr w = m"
  with assms(1) obtain w1 where w1: "(world_step D A mc)\<^sup>*\<^sup>* w w1" "mgr w1 = m'"
    "mset (pending w1) = mset (pending w)" "drained w1 = drained w"
    unfolding runs_def by blast
  with assms(2) obtain w2 where "(world_step D A mc)\<^sup>*\<^sup>* w1 w2" "mgr w2 = m''"
    "mset (pending w2) = mset (pending w1)" "drained w2 = drained w1"
    unfolding runs_def by blast
  with w1 show "\<exists>w'. (world_step D A mc)\<^sup>*\<^sup>* w w' \<and> mgr w' = m''
      \<and> mset (pending w') = mset (pending w) \<and> drained w' = drained w"
    by (metis rtranclp_trans)
qed

interpretation manager_run: state_preorder "runs D A mc"
  for D :: "('c, 's, 'k, 'r, 'b, 'sch, 'x) driver_ops" and A :: "('w, 'b, 'f, 'r) arrow_stream" and mc
  by unfold_locales (rule runs_refl, rule runs_trans)

lemma runs_get: "runs D A mc m (snd (manager_get mc now sid who m))"
  by (rule runsI, rule w_get [where rs = "fst (manager_get mc now sid who m)"]) simp

lemma runs_close: "runs D A mc m (snd (manager_close sid who m))"
  by (rule runsI, rule w_close [where ru = "fst (manager_close sid who m)"]) simp

lemma manager_get_found:
  assumes "manager_get mc now sid who m = (Inr s, m')"
  shows "held m' sid > 0" "hm_get (sessions (inner (registry m'))) sid = Some s" "s_principal s = who"
proof -
  from assms obtain m1 where m1: "with_registry (lookup_job mc now (held m) sid who) m = (Inr s, m1)"
    and m': "m' = m1\<lparr>held := (held m1)(sid := held m1 sid + 1)\<rparr>"
    by (auto simp: manager_get_def split: prod.splits sum.splits)
  from m1 show "held m' sid > 0" "hm_get (sessions (inner (registry m'))) sid = Some s"
    "s_principal s = who"
    by (elim with_registry_cases lookup_job_cases; simp add: m')+
qed

text \<open>A handler that holds a session and works on it.\<close>

definition put_session ::
  "string \<Rightarrow> ('c, 's, 'k, 'r, 'b, 'sch, 'w) session \<Rightarrow>
   ('c, 's, 'k, 'r, 'b, 'sch, 'w) session manager \<Rightarrow> ('c, 's, 'k, 'r, 'b, 'sch, 'w) session manager"
  where
  "put_session sid s m =
     put_registry (store (registry m) ((inner (registry m))\<lparr>sessions :=
       hm_insert sid s (sessions (inner (registry m)))\<rparr>)) m"

lemma hm_insert_same: "hm_get m k = Some v \<Longrightarrow> hm_insert k v m = m"
  by (induction m) (auto split: if_splits)

lemma hm_insert_twice: "hm_insert k v (hm_insert k v' m) = hm_insert k v m"
  by (induction m) auto

lemma put_session_simps [simp]:
  "held (put_session sid s m) = held m"
  "sessions (inner (registry (put_session sid s m))) = hm_insert sid s (sessions (inner (registry m)))"
  "put_session sid s (put_session sid s' m) = put_session sid s m"
  by (simp_all add: put_session_def hm_insert_twice)

lemma put_session_same:
  "hm_get (sessions (inner (registry m))) sid = Some s \<Longrightarrow> put_session sid s m = m"
  by (simp add: put_session_def hm_insert_same)

lemma runs_work:
  fixes D :: "('c, 's, 'k, 'r, 'b, 'sch, 'x) driver_ops" and A :: "('w, 'b, 'f, 'r) arrow_stream"
  assumes "(session_step D A)\<^sup>*\<^sup>* s s'" and "held m sid > 0"
    and "hm_get (sessions (inner (registry m))) sid = Some s"
  shows "runs D A mc m (put_session sid s' m)"
  using assms(1)
proof (induction rule: rtranclp_induct)
  case base
  with assms(3) show ?case by (simp add: put_session_same runs_refl)
next
  case (step t u)
  have "runs D A mc (put_session sid t m) (put_session sid u (put_session sid t m))"
  proof (rule runsI)
    fix w :: "('c, 's, 'k, 'r, 'b, 'sch, 'w) session world"
    assume w: "mgr w = put_session sid t m"
    with assms(2) have "held (mgr w) sid > 0" by simp
    moreover have "hm_get (sessions (inner (registry (mgr w)))) sid = Some t" by (simp add: w)
    ultimately show "world_step D A mc w (w\<lparr>mgr := put_session sid u (put_session sid t m)\<rparr>)"
      using w_work [OF _ _ step.hyps(2)] unfolding w [symmetric] put_session_def [of sid u] by blast
  qed
  with step.IH show ?case by (simp add: runs_trans)
qed

lemma give_back_eq:
  "give_back sid s m = (put_session sid s m)\<lparr>held := (held m)(sid := held m sid - 1)\<rparr>"
  by (simp add: give_back_def put_session_def)

lemma runs_give_back:
  fixes D :: "('c, 's, 'k, 'r, 'b, 'sch, 'x) driver_ops" and A :: "('w, 'b, 'f, 'r) arrow_stream"
  assumes "(session_step D A)\<^sup>*\<^sup>* s s'" and "held m sid > 0"
    and "hm_get (sessions (inner (registry m))) sid = Some s"
  shows "runs D A mc m (give_back sid s' m)"
proof -
  have "runs D A mc (put_session sid s' m) (give_back sid s' m)"
    unfolding give_back_eq
  proof (rule runsI)
    fix w :: "('c, 's, 'k, 'r, 'b, 'sch, 'w) session world"
    assume w: "mgr w = put_session sid s' m"
    with assms(2) have "held (mgr w) sid > 0" by simp
    from w_drop [OF this] show "world_step D A mc w
        (w\<lparr>mgr := put_session sid s' m\<lparr>held := (held m)(sid := held m sid - 1)\<rparr>\<rparr>)"
      by (simp add: w)
  qed
  with runs_work [OF assms] show ?thesis by (rule runs_trans)
qed

lemma runs_use_session:
  assumes "manager_get mc now sid who m0 = (Inr s, m)"
    and "(session_step D A)\<^sup>*\<^sup>* s (snd (body s))"
  shows "runs D A mc m (snd (use_session body (s, sid) m))"
  using runs_give_back [OF assms(2) manager_get_found(1,2) [OF assms(1)]]
  by (simp add: use_session_def case_prod_beta)

lemma open_admit_fresh:
  assumes "open_admit mc now who tn m = (res, m')"
    and "\<not> hm_contains (sessions (inner (registry m))) uuid"
  shows "\<not> hm_contains (sessions (inner (registry m'))) uuid"
  using assms(1)
proof (cases rule: open_admit_cases)
  case (early e)
  with assms(2) show ?thesis by simp
next
  case (decided t res1 ids r')
  have "sessions r' = fold hm_remove ids (sessions (inner (registry m)))"
    using decided(4) by (auto simp: admit_def Let_def split: if_splits)
  moreover have "hm_get (fold hm_remove ids (sessions (inner (registry m)))) uuid = None"
    using assms(2) by (simp add: fold_remove_get hm_get_None_iff)
  ultimately show ?thesis using decided(5) by (simp add: hm_get_None_iff)
qed

lemma open_abort_unit:
  "snd (open_abort who e m :: (adbc_error, 'a) result \<times> 'S manager) =
   snd (open_abort who e m :: (adbc_error, unit) result \<times> 'S manager)"
  by (simp add: open_abort_def st_bind_def split: prod.split sum.split)

lemma mset_pending_back: "mset (remove1 p (ps @ [p])) = mset ps"
  by simp

lemma runs_open:
  fixes D :: "('c, 's, 'k, 'r, 'b, 'sch, 'x) driver_ops" and A :: "('w, 'b, 'f, 'r) arrow_stream"
  assumes fresh: "\<not> hm_contains (sessions (inner (registry m))) uuid"
  shows "runs D A mc m (snd (manager_open D mc backend now oc spawn uuid who tn m))"
  unfolding runs_def
proof (intro allI impI)
  fix w :: "('c, 's, 'k, 'r, 'b, 'sch, 'w) session world"
  assume w: "mgr w = m"
  let ?goal = "\<lambda>m'. \<exists>w'. (world_step D A mc)\<^sup>*\<^sup>* w w' \<and> mgr w' = m'
      \<and> mset (pending w') = mset (pending w) \<and> drained w' = drained w"
  obtain res m1 where adm: "open_admit mc now who tn m = (res, m1)" by fastforce
  show "?goal (snd (manager_open D mc backend now oc spawn uuid who tn m))"
  proof (cases res)
    case (Inl e)
    with adm w have "world_step D A mc w (w\<lparr>mgr := m1\<rparr>)" by (auto intro: w_refused)
    with Inl adm show ?thesis
      by (intro exI [of _ "w\<lparr>mgr := m1\<rparr>"]) (auto simp: manager_open_def st_bind_def)
  next
    case (Inr t)
    let ?w1 = "w\<lparr>mgr := m1, pending := pending w @ [(who, tn, t)]\<rparr>"
    have step1: "world_step D A mc w ?w1" using Inr adm w by (auto intro: w_admitted)
    have member: "(who, tn, t) \<in> set (pending ?w1)" by simp
    have finish: "?goal m2" if "world_step D A mc ?w1
        (?w1\<lparr>mgr := m2, pending := remove1 (who, tn, t) (pending ?w1)\<rparr>)" for m2
      using step1 that mset_pending_back [of "(who, tn, t)" "pending w"]
      by (intro exI [of _ "?w1\<lparr>mgr := m2, pending := remove1 (who, tn, t) (pending ?w1)\<rparr>"]) auto
    have abort: "?goal (snd (open_abort who e m1 :: (adbc_error, string) result \<times> _))" for e
    proof (rule finish)
      show "world_step D A mc ?w1 (?w1\<lparr>mgr := snd (open_abort who e m1 :: (adbc_error, string) result \<times> _),
          pending := remove1 (who, tn, t) (pending ?w1)\<rparr>)"
        unfolding open_abort_unit [where ?'a = string]
        by (rule w_abort [OF member, of e "fst (open_abort who e m1 :: (adbc_error, unit) result \<times> _)"])
          simp
    qed
    have commit: "?goal (snd (open_commit uuid who (new_session D mc now who tn t conn) m1))" for conn
    proof (rule finish)
      have "\<not> hm_contains (sessions (inner (registry (mgr ?w1)))) uuid"
        using open_admit_fresh [OF adm fresh] by simp
      then show "world_step D A mc ?w1
          (?w1\<lparr>mgr := snd (open_commit uuid who (new_session D mc now who tn t conn) m1),
             pending := remove1 (who, tn, t) (pending ?w1)\<rparr>)"
        by (rule w_commit [OF member,
            where r' = "fst (open_commit uuid who (new_session D mc now who tn t conn) m1)"]) simp
    qed
    show ?thesis
      using Inr adm abort commit
      by (auto simp: manager_open_def st_bind_def split: sum.split)
  qed
qed

subsection \<open>Looking sessions up\<close>

lemma ret_bind [simp]:
  "st_bind (ret (Inl e)) f m = (Inl e, m)"
  "st_bind (ret (Inr v)) f m = f v m"
  by (simp_all add: st_bind_def ret_def)

lemma session_by_id_cases:
  assumes "session_by_id E a sid ctx m = (r, m')"
  obtains (anonymous) "caller E ctx = Inl Unauthenticated_Caller" "r = Inl Unauthenticated_Caller" "m' = m"
  | (looked) who rg where "caller E ctx = Inr who" "manager_get (sv_mc E) (a_now a) sid who m = (rg, m')"
      "r = map_err (adbc_rpc_error (sv_lib E)) rg"
proof (cases "caller E ctx")
  case (Inl e)
  then have "e = Unauthenticated_Caller" by (auto simp: caller_def ok_or_def split: option.splits)
  with Inl assms anonymous show ?thesis by (simp add: session_by_id_def)
next
  case (Inr who)
  with assms looked show ?thesis by (auto simp: session_by_id_def adbc_def split: prod.splits)
qed

lemma get_session_cases:
  assumes "get_session E a req ctx m = (r, m')"
  obtains (refused) e where "r = Inl e" "m' = m"
  | (looked) who sid rg where "validate_protocol_version req = Inr ()" "caller E ctx = Inr who"
      "string_arg req ''session_id'' = Inr sid" "manager_get (sv_mc E) (a_now a) sid who m = (rg, m')"
      "r = (case rg of Inl e \<Rightarrow> Inl (adbc_rpc_error (sv_lib E) e) | Inr s \<Rightarrow> Inr (s, sid))"
proof (cases "validate_protocol_version req")
  case (Inl e)
  with assms refused show ?thesis by (auto simp: get_session_def)
next
  case version: (Inr u)
  show ?thesis
  proof (cases "caller E ctx")
    case (Inl e)
    with version assms refused show ?thesis by (auto simp: get_session_def)
  next
    case who: (Inr who)
    show ?thesis
    proof (cases "string_arg req ''session_id''")
      case (Inl e)
      with version who assms refused show ?thesis by (auto simp: get_session_def)
    next
      case (Inr sid)
      obtain rg m1 where "manager_get (sv_mc E) (a_now a) sid who m = (rg, m1)" by fastforce
      with version who Inr assms looked show ?thesis
        by (cases rg) (auto simp: get_session_def adbc_def st_bind_def ret_def)
    qed
  qed
qed

lemma runs_session_by_id:
  "runs D A (sv_mc E) m (snd (session_by_id E a sid ctx m))"
  unfolding session_by_id_def
  by (rule manager_run.keeps_ret_bind) (rule manager_run.keeps_adbc [OF runs_get])

lemma runs_get_session: "runs D A (sv_mc E) m (snd (get_session E a req ctx m))"
  unfolding get_session_def
  by (intro manager_run.keeps_ret_bind manager_run.keeps_bind manager_run.keeps_adbc
      manager_run.keeps_ret runs_get)

lemma runs_on_session_id:
  assumes "\<And>s. (session_step (sv_ops E) (sv_stream E))\<^sup>*\<^sup>* s (snd (body s))"
  shows "runs (sv_ops E) (sv_stream E) (sv_mc E) m (snd (on_session_id E a sid ctx body m))"
  unfolding on_session_id_def
proof (rule manager_run.keeps_bind_after [OF runs_session_by_id])
  fix s m'
  assume "session_by_id E a sid ctx m = (Inr s, m')"
  then obtain who where "manager_get (sv_mc E) (a_now a) sid who m = (Inr s, m')"
    by (cases rule: session_by_id_cases) (auto simp: map_err_def split: sum.splits)
  then show "runs (sv_ops E) (sv_stream E) (sv_mc E) m' (snd (use_session body (s, sid) m'))"
    by (rule runs_use_session) (rule assms)
qed

lemma runs_on_session:
  assumes "\<And>sid s. (session_step (sv_ops E) (sv_stream E))\<^sup>*\<^sup>* s (snd (body sid s))"
  shows "runs (sv_ops E) (sv_stream E) (sv_mc E) m (snd (on_session E a req ctx body m))"
  unfolding on_session_def
proof (rule manager_run.keeps_bind_after [OF runs_get_session])
  fix h m'
  assume "get_session E a req ctx m = (Inr h, m')"
  then obtain who s sid where "manager_get (sv_mc E) (a_now a) sid who m = (Inr s, m')" "h = (s, sid)"
    by (cases rule: get_session_cases) (auto split: sum.splits)
  then show "runs (sv_ops E) (sv_stream E) (sv_mc E) m' (snd (use_session (body (snd h)) h m'))"
    using assms by (auto intro: runs_use_session)
qed

lemma runs_on_typed:
  assumes "\<And>args s. (session_step (sv_ops E) (sv_stream E))\<^sup>*\<^sup>* s (snd (body args s))"
  shows "runs (sv_ops E) (sv_stream E) (sv_mc E) m (snd (on_typed E a T val sid_of req ctx body m))"
  unfolding on_typed_def
  by (rule manager_run.keeps_ret_bind) (rule runs_on_session_id [OF assms])

subsection \<open>Every method\<close>

lemma walk_reader_of_connection:
  "(session_step (sv_ops E) A)\<^sup>*\<^sup>* s (snd (reader_of_connection E a ctx call s))"
  unfolding reader_of_connection_def
  by (intro session_walk.keeps_bind session_walk.keeps_adbc walk_intros)

lemma walk_execute_with:
  assumes "\<And>hid v s. (session_step D A)\<^sup>*\<^sup>* s (snd (reply hid v s))"
  shows "(session_step D A)\<^sup>*\<^sup>* s (snd (execute_with E a req call reply s))"
  unfolding execute_with_def
  by (intro session_walk.keeps_arg session_walk.keeps_bind session_walk.keeps_adbc walk_intros assms)

lemmas walk_rules =
  session_walk.keeps_arg session_walk.keeps_ret_bind session_walk.keeps_bind
  session_walk.keeps_then_ok session_walk.keeps_handle_response session_walk.keeps_adbc
  session_walk.keeps_ret session_walk.keeps_proto walk_intros walk_reader_of_connection
  walk_execute_with

lemmas connection_call_defs =
  commit_connection_def rollback_connection_def cancel_connection_call_def
  set_connection_option_call_def get_connection_option_call_def get_info_call_def
  get_objects_call_def get_table_schema_call_def get_table_types_call_def
  get_statistic_names_call_def get_statistics_call_def read_partition_call_def

lemmas statement_call_defs =
  new_statement_call_def set_statement_option_call_def get_statement_option_call_def
  set_sql_query_call_def set_substrait_plan_call_def prepare_call_def cancel_statement_call_def
  execute_update_call_def execute_schema_call_def get_parameter_schema_call_def
  close_statement_call_def close_result_call_def

lemma walk_cancel: "(session_step D A)\<^sup>*\<^sup>* s (snd ((\<lambda>s. (f s, s)) s))"
  by simp

lemma runs_execute:
  "runs (sv_ops E) (sv_stream E) (sv_mc E) m (snd (execute_call E a req ctx m))"
  "runs (sv_ops E) (sv_stream E) (sv_mc E) m (snd (execute_partitions_call E a req ctx m))"
  unfolding execute_call_def execute_partitions_call_def
  by (rule runs_on_session; rule walk_execute_with; auto intro!: walk_rules)+

lemma runs_connection_calls:
  "runs (sv_ops E) (sv_stream E) (sv_mc E) m (snd (commit_connection E a req ctx m))"
  "runs (sv_ops E) (sv_stream E) (sv_mc E) m (snd (rollback_connection E a req ctx m))"
  "runs (sv_ops E) (sv_stream E) (sv_mc E) m (snd (cancel_connection_call E a req ctx m))"
  "runs (sv_ops E) (sv_stream E) (sv_mc E) m (snd (set_connection_option_call E a req ctx m))"
  "runs (sv_ops E) (sv_stream E) (sv_mc E) m (snd (get_connection_option_call E a req ctx m))"
  "runs (sv_ops E) (sv_stream E) (sv_mc E) m (snd (get_info_call E a req ctx m))"
  "runs (sv_ops E) (sv_stream E) (sv_mc E) m (snd (get_objects_call E a req ctx m))"
  "runs (sv_ops E) (sv_stream E) (sv_mc E) m (snd (get_table_schema_call E a req ctx m))"
  "runs (sv_ops E) (sv_stream E) (sv_mc E) m (snd (get_table_types_call E a req ctx m))"
  "runs (sv_ops E) (sv_stream E) (sv_mc E) m (snd (get_statistic_names_call E a req ctx m))"
  "runs (sv_ops E) (sv_stream E) (sv_mc E) m (snd (get_statistics_call E a req ctx m))"
  "runs (sv_ops E) (sv_stream E) (sv_mc E) m (snd (read_partition_call E a req ctx m))"
  unfolding connection_call_defs
  by (rule runs_on_session runs_on_typed; auto intro!: walk_rules walk_cancel)+

lemma runs_statement_calls:
  "runs (sv_ops E) (sv_stream E) (sv_mc E) m (snd (new_statement_call E a req ctx m))"
  "runs (sv_ops E) (sv_stream E) (sv_mc E) m (snd (set_statement_option_call E a req ctx m))"
  "runs (sv_ops E) (sv_stream E) (sv_mc E) m (snd (get_statement_option_call E a req ctx m))"
  "runs (sv_ops E) (sv_stream E) (sv_mc E) m (snd (set_sql_query_call E a req ctx m))"
  "runs (sv_ops E) (sv_stream E) (sv_mc E) m (snd (set_substrait_plan_call E a req ctx m))"
  "runs (sv_ops E) (sv_stream E) (sv_mc E) m (snd (prepare_call E a req ctx m))"
  "runs (sv_ops E) (sv_stream E) (sv_mc E) m (snd (cancel_statement_call E a req ctx m))"
  "runs (sv_ops E) (sv_stream E) (sv_mc E) m (snd (execute_update_call E a req ctx m))"
  "runs (sv_ops E) (sv_stream E) (sv_mc E) m (snd (execute_schema_call E a req ctx m))"
  "runs (sv_ops E) (sv_stream E) (sv_mc E) m (snd (get_parameter_schema_call E a req ctx m))"
  "runs (sv_ops E) (sv_stream E) (sv_mc E) m (snd (close_statement_call E a req ctx m))"
  "runs (sv_ops E) (sv_stream E) (sv_mc E) m (snd (close_result_call E a req ctx m))"
  unfolding statement_call_defs
  by (rule runs_on_session runs_on_typed; auto intro!: walk_rules walk_cancel)+

lemma runs_open_connection:
  assumes "\<not> hm_contains (sessions (inner (registry m))) (a_uuid a)"
  shows "runs (sv_ops E) (sv_stream E) (sv_mc E) m (snd (open_connection E a req ctx m))"
  unfolding open_connection_def proto_def
  by (intro manager_run.keeps_ret_bind manager_run.keeps_bind manager_run.keeps_adbc
      manager_run.keeps_handle_response runs_close runs_open assms)

lemma runs_close_connection:
  "runs (sv_ops E) (sv_stream E) (sv_mc E) m (snd (close_connection E a req ctx m))"
  unfolding close_connection_def
  by (intro manager_run.keeps_ret_bind manager_run.keeps_arg manager_run.keeps_then_ok runs_close)

lemmas runs_calls =
  runs_connection_calls runs_statement_calls runs_execute runs_open_connection runs_close_connection

lemma runs_unary:
  assumes "(name, h) \<in> set unary_methods"
    and "\<not> hm_contains (sessions (inner (registry m))) (a_uuid a)"
  shows "runs (sv_ops E) (sv_stream E) (sv_mc E) m (snd (h E a req ctx m))"
  using assms(1) runs_calls [where E = E and a = a and req = req and ctx = ctx and m = m] assms(2)
  unfolding unary_methods_def by auto

subsection \<open>Refused calls\<close>

definition version_error :: rpc_error where
  "version_error = VersionError ''Grainlift requires an explicit 0.4.x protocol version''"

text \<open>A caller that is refused before anything is looked up.\<close>

definition refused ::
  "('c, 's, 'k, 'r, 'sch, 'x, 'w, 'f) service \<Rightarrow> request \<Rightarrow> call_context \<Rightarrow> bool" where
  "refused E req ctx \<longleftrightarrow>
     validate_protocol_version req = Inl version_error \<or> caller E ctx = Inl Unauthenticated_Caller"

definition turned_away :: "request \<Rightarrow> ('m, rpc_error, 'a) step \<Rightarrow> 'm \<Rightarrow> bool" where
  "turned_away req f m \<longleftrightarrow>
     (\<exists>e. f m = (Inl e, m) \<and> (validate_protocol_version req = Inl version_error \<longrightarrow> e = version_error))"

lemma turned_away_on_session: "refused E req ctx \<Longrightarrow> turned_away req (on_session E a req ctx body) m"
  by (cases "validate_protocol_version req")
    (auto simp: refused_def turned_away_def on_session_def get_session_def st_bind_def ret_def
      version_error_def validate_protocol_version_def split: if_splits)

lemma turned_away_on_typed:
  "refused E req ctx \<Longrightarrow> turned_away req (on_typed E a T val sid_of req ctx body) m"
  by (cases "validate_protocol_version req";
      cases "decode_request (l_ipc (sv_lib E)) T val (batch req) max_control_bytes")
    (auto simp: refused_def turned_away_def on_typed_def typed_request_def on_session_id_def
      session_by_id_def st_bind_def ret_def version_error_def validate_protocol_version_def
      split: if_splits)

lemma turned_away_open: "refused E req ctx \<Longrightarrow> turned_away req (open_connection E a req ctx) m"
  by (cases "validate_protocol_version req";
      cases "decode_request (l_ipc (sv_lib E)) (t_open_connection (l_types (sv_lib E)))
        open_request_validate (batch req) max_control_bytes")
    (auto simp: refused_def turned_away_def open_connection_def typed_request_def st_bind_def
      ret_def version_error_def validate_protocol_version_def split: if_splits)

lemma turned_away_close: "refused E req ctx \<Longrightarrow> turned_away req (close_connection E a req ctx) m"
  by (cases "validate_protocol_version req")
    (auto simp: refused_def turned_away_def close_connection_def st_bind_def ret_def
      version_error_def validate_protocol_version_def split: if_splits)

lemma turned_away_unary:
  assumes "(name, h) \<in> set unary_methods" and "refused E req ctx"
  shows "turned_away req (h E a req ctx) m"
  using assms(1) turned_away_open [OF assms(2)] turned_away_close [OF assms(2)]
  unfolding unary_methods_def
  by (auto simp: connection_call_defs statement_call_defs execute_call_def execute_partitions_call_def
      intro: turned_away_on_session [OF assms(2)] turned_away_on_typed [OF assms(2)])

subsection \<open>Sessions of other principals\<close>

text \<open>
  From \<open>m\<close> to \<open>m'\<close> no session of a principal other than \<open>who\<close> changes or goes away, except those that
  \<open>stale\<close> allows to go.
\<close>

definition spares ::
  "(string \<Rightarrow> ('c, 's, 'k, 'r, 'b, 'sch, 'w) session \<Rightarrow> bool) \<Rightarrow> string \<Rightarrow>
   ('c, 's, 'k, 'r, 'b, 'sch, 'w) session manager \<Rightarrow>
   ('c, 's, 'k, 'r, 'b, 'sch, 'w) session manager \<Rightarrow> bool" where
  "spares stale who m m' \<longleftrightarrow>
     (\<forall>sid s. hm_get (sessions (inner (registry m))) sid = Some s \<longrightarrow> s_principal s \<noteq> who \<longrightarrow>
        hm_get (sessions (inner (registry m'))) sid = Some s \<or> stale sid s)"

interpretation others: state_preorder "spares stale who"
  for stale :: "string \<Rightarrow> ('c, 's, 'k, 'r, 'b, 'sch, 'w) session \<Rightarrow> bool" and who
  by unfold_locales (auto simp: spares_def)

lemma spares_put:
  "hm_get (sessions (inner (registry m))) sid = Some s \<Longrightarrow> s_principal s = who \<Longrightarrow>
   spares stale who m (m\<lparr>registry := store (registry m) ((inner (registry m))\<lparr>sessions :=
     hm_insert sid s' (sessions (inner (registry m)))\<rparr>), held := refs\<rparr>)"
  by (auto simp: spares_def)

lemma spares_get: "spares stale who m (snd (manager_get mc now sid who m))"
proof -
  obtain rg m1 where m1: "with_registry (lookup_job mc now (held m) sid who) m = (rg, m1)" by fastforce
  from m1 have "spares stale who m m1"
  proof (cases rule: with_registry_cases)
    case broken
    then show ?thesis by (simp add: others.stays)
  next
    case (locked r')
    have "hm_get (sessions r') k = Some s \<or> s_principal s = who"
      if "hm_get (sessions (inner (registry m))) k = Some s" for k s
      using locked(2) that
      by (auto simp: lookup_job_def lock_def Let_def split: option.splits if_splits)
    with locked(3) show ?thesis by (auto simp: spares_def)
  qed
  with m1 show ?thesis
    by (cases rg) (auto simp: manager_get_def spares_def)
qed

lemma spares_close: "spares stale who m (snd (manager_close sid who m))"
proof -
  obtain rg m1 where m1: "manager_close sid who m = (rg, m1)" by fastforce
  from m1 [unfolded manager_close_def] have "spares stale who m m1"
    by (cases rule: with_registry_cases)
      (auto simp: spares_def split: option.splits if_splits)
  with m1 show ?thesis by simp
qed

lemma spares_use_session:
  assumes "manager_get mc now sid who m0 = (Inr s, m)"
  shows "spares stale who m (snd (use_session body (s, sid) m))"
  using spares_put [OF manager_get_found(2,3) [OF assms]]
  by (simp add: use_session_def give_back_def case_prod_beta)

lemma spares_on_session_id:
  assumes "caller E ctx = Inr who"
  shows "spares stale who m (snd (on_session_id E a sid ctx body m))"
  unfolding on_session_id_def
proof (rule others.keeps_bind_after)
  show "spares stale who m (snd (session_by_id E a sid ctx m))"
    unfolding session_by_id_def assms ret_bind by (rule others.keeps_adbc [OF spares_get])
  fix s m'
  assume "session_by_id E a sid ctx m = (Inr s, m')"
  then have "manager_get (sv_mc E) (a_now a) sid who m = (Inr s, m')"
    using assms by (cases rule: session_by_id_cases) (auto simp: map_err_def split: sum.splits)
  then show "spares stale who m' (snd (use_session body (s, sid) m'))"
    by (rule spares_use_session)
qed

lemma spares_on_typed:
  "caller E ctx = Inr who \<Longrightarrow> spares stale who m (snd (on_typed E a T val sid_of req ctx body m))"
  unfolding on_typed_def by (rule others.keeps_ret_bind) (rule spares_on_session_id)

lemma spares_on_session:
  assumes "caller E ctx = Inr who"
  shows "spares stale who m (snd (on_session E a req ctx body m))"
  unfolding on_session_def
proof (rule others.keeps_bind_after)
  show "spares stale who m (snd (get_session E a req ctx m))"
    unfolding get_session_def assms ret_bind
    by (intro others.keeps_ret_bind)
      (simp, intro others.keeps_ret_bind others.keeps_bind others.keeps_adbc spares_get others.keeps_ret)
  fix h m'
  assume "get_session E a req ctx m = (Inr h, m')"
  then obtain s sid where "manager_get (sv_mc E) (a_now a) sid who m = (Inr s, m')" "h = (s, sid)"
    using assms by (cases rule: get_session_cases) (auto split: sum.splits)
  then show "spares stale who m' (snd (use_session (body (snd h)) h m'))"
    by (auto intro: spares_use_session)
qed

lemma spares_close_connection:
  "caller E ctx = Inr who \<Longrightarrow> spares stale who m (snd (close_connection E a req ctx m))"
  unfolding close_connection_def
  by (rule others.keeps_ret_bind) (simp, intro others.keeps_arg others.keeps_then_ok spares_close)

text \<open>An open first reaps: what it may take away are idle expired sessions.\<close>

definition idle_expired ::
  "manager_config \<Rightarrow> nat \<Rightarrow> ('c, 's, 'k, 'r, 'b, 'sch, 'w) session manager \<Rightarrow> string \<Rightarrow>
   ('c, 's, 'k, 'r, 'b, 'sch, 'w) session \<Rightarrow> bool" where
  "idle_expired mc now m sid s \<longleftrightarrow> held m sid = 0 \<and> elapsed now (inner (last_used s)) > mc_ttl mc"

lemma expired_ids_stale:
  assumes "expired_ids ttl now refs ss = Inr ids" and "sid \<in> set ids" and "hm_wf ss"
    and "hm_get ss sid = Some s"
  shows "refs sid = 0 \<and> elapsed now (inner (last_used s)) > ttl"
  using assms
proof (induction ss arbitrary: ids)
  case Nil
  then show ?case by simp
next
  case (Cons kv ss)
  obtain k t where kv: "kv = (k, t)" by fastforce
  have wf: "hm_wf ss" and new: "\<not> hm_contains ss k" using Cons.prems(3) kv by (auto simp: hm_wf_def)
  show ?case
  proof (cases "sid = k")
    case False
    with Cons.prems(4) kv have "hm_get ss sid = Some s" by simp
    with False Cons.prems(1,2) kv Cons.IH [OF _ _ wf] show ?thesis
      by (auto simp: result_iffs split: if_splits)
  next
    case True
    have absent: "sid \<notin> set ids'" if "expired_ids ttl now refs ss = Inr ids'" for ids'
      using that new True
    proof (induction ss arbitrary: ids')
      case (Cons kv' ss')
      then show ?case by (cases kv') (auto simp: result_iffs split: if_splits)
    qed simp
    from True Cons.prems(4) kv have "s = t" by simp
    with True Cons.prems(1,2) kv absent show ?thesis
      by (auto simp: result_iffs lock_Inr_iff split: if_splits)
  qed
qed

lemma spares_reap:
  assumes "hm_wf (sessions (inner (registry m)))"
  shows "spares (idle_expired mc now m) who m (snd (reap_expired mc now m))"
proof (cases "poisoned (registry m)")
  case True
  then show ?thesis by (simp add: reap_expired_def locked_def others.stays)
next
  case False
  show ?thesis
  proof (cases "expired_ids (mc_ttl mc) now (held m) (sessions (inner (registry m)))")
    case (Inl e)
    with False show ?thesis by (simp add: reap_expired_def locked_def spares_def)
  next
    case (Inr ids)
    from expired_ids_stale [OF Inr _ assms] False Inr show ?thesis
      by (auto simp: reap_expired_def locked_def spares_def fold_remove_get idle_expired_def)
  qed
qed

lemma spares_locked:
  assumes "\<And>r. sessions (snd (f r)) = sessions r"
  shows "spares stale who m (snd (with_registry f m))"
proof -
  obtain rg m1 where m1: "with_registry f m = (rg, m1)" by fastforce
  then have "spares stale who m m1"
    by (cases rule: with_registry_cases) (use assms in \<open>auto simp: spares_def dest!: arg_cong [of _ _ snd]\<close>)
  with m1 show ?thesis by simp
qed

lemma admit_sessions: "sessions (snd (admit mc cl who r)) = sessions r"
  by (simp add: admit_def Let_def)

lemma spares_open_admit:
  assumes "hm_wf (sessions (inner (registry m)))"
  shows "spares (idle_expired mc now m) who m (snd (open_admit mc now p tn m))"
proof -
  have "spares (idle_expired mc now m) who m (snd (reserve_open mc now p m))"
    by (auto simp: reserve_open_def others.stays
        intro!: others.keeps_bind spares_reap [OF assms] spares_locked admit_sessions)
  then show ?thesis
    by (auto simp: open_admit_def others.stays split: option.split
        intro!: others.keeps_bind)
qed

lemma spares_open:
  assumes "hm_wf (sessions (inner (registry m)))"
    and "\<not> hm_contains (sessions (inner (registry m))) uuid"
  shows "spares (idle_expired mc now m) who m
    (snd (manager_open D mc backend now oc spawn uuid p tn m))"
  unfolding manager_open_def
proof (rule others.keeps_bind_after)
  show "spares (idle_expired mc now m) who m (snd (open_admit mc now p tn m))"
    by (rule spares_open_admit [OF assms(1)])
  fix t m'
  assume adm: "open_admit mc now p tn m = (Inr t, m')"
  have abort: "spares stale who m' (snd (open_abort p e m'))" for stale e
    unfolding open_abort_def release_open_reservation_def
    by (rule others.keeps_bind) (auto intro: spares_locked others.stays)
  have fresh: "\<not> hm_contains (sessions (inner (registry m'))) uuid"
    by (rule open_admit_fresh [OF adm assms(2)])
  have commit: "spares stale who m' (snd (open_commit uuid p s m'))" for stale s
    using fresh hm_get_Some_contains [of "sessions (inner (registry m'))"]
    by (auto simp: open_commit_def locked_def spares_def Let_def)
  show "spares (idle_expired mc now m) who m'
      (snd ((case open_result (mc_timeout mc) oc (backend t) of
          Inl e \<Rightarrow> open_abort p e
        | Inr conn \<Rightarrow> (case spawn of
            Inl e \<Rightarrow> open_abort p (internal [Lit ''start session worker: '', Str e])
          | Inr _ \<Rightarrow> open_commit uuid p (new_session D mc now p tn t conn))) m'))"
    using abort commit by (auto split: sum.split)
qed

lemma spares_open_connection:
  assumes "hm_wf (sessions (inner (registry m)))"
    and "\<not> hm_contains (sessions (inner (registry m))) (a_uuid a)" and "caller E ctx = Inr who"
  shows "spares (idle_expired (sv_mc E) (a_now a) m) who m (snd (open_connection E a req ctx m))"
  unfolding open_connection_def proto_def assms(3)
  by (rule others.keeps_ret_bind)
    (simp, intro others.keeps_ret_bind others.keeps_bind others.keeps_adbc
      others.keeps_handle_response spares_close spares_open assms(1,2))

lemma spares_unary:
  assumes "(name, h) \<in> set unary_methods" and "name \<noteq> ''open_connection''" and "caller E ctx = Inr who"
  shows "spares stale who m (snd (h E a req ctx m))"
proof -
  have "h \<in> set (map snd (tl unary_methods))"
    using assms(1,2) unfolding unary_methods_def by auto
  then show ?thesis
    unfolding unary_methods_def
    by (auto simp: connection_call_defs statement_call_defs execute_call_def execute_partitions_call_def
        intro: spares_on_session [OF assms(3)] spares_on_typed [OF assms(3)]
          spares_close_connection [OF assms(3)])
qed

end
