(* ===== verification/List_Service.thy ===== *)
theory List_Service
  imports Handlers
begin

text \<open>
  A small service over lists: the concrete instance of the parameters at which the properties of
  the service are evaluated. A driver's connection is a counter, a statement the batches bound to
  it, a reader the list of its batches.
\<close>

text \<open>Records as one binary column, with a coder for each type that builds the values it can read back.\<close>

definition coded :: "('a \<Rightarrow> bytes) \<Rightarrow> (bytes \<Rightarrow> 'a) \<Rightarrow> 'a vgi_arrow" where
  "coded enc dec =
     \<lparr>build_singleton =
        (\<lambda>v. if dec (enc v) = v
             then Inr (StructArray [True] [(binary_field ''request'', BinaryArray [Some (enc v)])])
             else Inl ''value''),
      arrow_data_type = Struct [binary_field ''request''],
      read_row = (\<lambda>a i. case a of
          StructArray _ [(_, BinaryArray [Some bs])] \<Rightarrow> Inr (dec bs) | _ \<Rightarrow> Inl ''type'')\<rparr>"

lemma coded_round_trips: "vgi_round_trips (coded enc dec)"
  by (auto simp: vgi_round_trips_def coded_def)

text \<open>Two strings, and a schema with one token, as length-prefixed bytes.\<close>

definition enc2 :: "bytes \<Rightarrow> bytes \<Rightarrow> bytes" where
  "enc2 x y = of_nat (length x) # x @ y"

definition dec2 :: "bytes \<Rightarrow> bytes \<times> bytes" where
  "dec2 bs = (take (unat (hd bs)) (tl bs), drop (unat (hd bs)) (tl bs))"

definition no_value :: wire_option_value where
  "no_value = wire_value_base"

definition list_types :: vgi_types where
  "list_types =
     \<lparr>t_ok = coded (\<lambda>r. [if or_ok r then 1 else 0]) (\<lambda>bs. \<lparr>or_ok = bs = [1]\<rparr>),
      t_session = coded (\<lambda>r. str_bytes (sr_session_id r)) (\<lambda>bs. \<lparr>sr_session_id = bytes_str bs\<rparr>),
      t_statement = coded (\<lambda>r. enc2 (str_bytes (st_session_id r)) (str_bytes (st_statement_id r)))
        (\<lambda>bs. \<lparr>st_session_id = bytes_str (fst (dec2 bs)), st_statement_id = bytes_str (snd (dec2 bs))\<rparr>),
      t_schema = coded sm_schema_ipc (\<lambda>bs. \<lparr>sm_schema_ipc = bs\<rparr>),
      t_update = coded (\<lambda>_. []) (\<lambda>_. \<lparr>up_rows_affected = None\<rparr>),
      t_value = coded (\<lambda>r. case wv_string (vr_value r) of None \<Rightarrow> [] | Some v \<Rightarrow> str_bytes v)
        (\<lambda>bs. \<lparr>vr_value = wire_value_from (StringValue (bytes_str bs))\<rparr>),
      t_execute = coded (\<lambda>r. enc2 (str_bytes (er_result_id r)) (er_schema_ipc r))
        (\<lambda>bs. \<lparr>er_result_id = bytes_str (fst (dec2 bs)), er_rows_affected = None,
                er_schema_ipc = snd (dec2 bs)\<rparr>),
      t_partitions = coded (\<lambda>r. enc2 (pr_schema_ipc r) (concat (pr_partitions r)))
        (\<lambda>bs. \<lparr>pr_rows_affected = 0, pr_schema_ipc = fst (dec2 bs), pr_partitions = [snd (dec2 bs)]\<rparr>),
      t_claims = demo_claims 6000,
      t_open_connection = coded (\<lambda>r. str_bytes (oc_target r))
        (\<lambda>bs. \<lparr>oc_target = bytes_str bs, oc_database_options = [], oc_connection_options = []\<rparr>),
      t_set_connection_option = coded (\<lambda>r. enc2 (str_bytes (sc_session_id r)) (str_bytes (sc_key r)))
        (\<lambda>bs. \<lparr>sc_session_id = bytes_str (fst (dec2 bs)), sc_key = bytes_str (snd (dec2 bs)),
                sc_value = no_value\<rparr>),
      t_set_statement_option = coded (\<lambda>r. str_bytes (ss_session_id r))
        (\<lambda>bs. \<lparr>ss_session_id = bytes_str bs, ss_statement_id = '''', ss_key = '''', ss_value = no_value\<rparr>),
      t_get_info = coded (\<lambda>r. str_bytes (gi_session_id r))
        (\<lambda>bs. \<lparr>gi_session_id = bytes_str bs, gi_codes = None\<rparr>),
      t_get_objects = coded (\<lambda>r. str_bytes (go_session_id r))
        (\<lambda>bs. \<lparr>go_session_id = bytes_str bs, go_depth = 0, go_catalog = None, go_db_schema = None,
                go_table_name = None, go_table_types = None, go_column_name = None\<rparr>),
      t_get_table_schema = coded (\<lambda>r. enc2 (str_bytes (gt_session_id r)) (str_bytes (gt_table_name r)))
        (\<lambda>bs. \<lparr>gt_session_id = bytes_str (fst (dec2 bs)), gt_catalog = None, gt_db_schema = None,
                gt_table_name = bytes_str (snd (dec2 bs))\<rparr>),
      t_get_statistics = coded (\<lambda>r. str_bytes (gs_session_id r))
        (\<lambda>bs. \<lparr>gs_session_id = bytes_str bs, gs_catalog = None, gs_db_schema = None,
                gs_table_name = None, gs_approximate = True\<rparr>)\<rparr>"

text \<open>An IPC codec for one-row batches with the binary column \<open>request\<close> or \<open>result\<close>.\<close>

definition result_batch :: "bytes \<Rightarrow> record_batch" where
  "result_batch x =
     \<lparr>schema_fields = envelope_schema ''result'', columns = [BinaryArray [Some x]], num_rows = 1\<rparr>"

definition binary_payload :: "record_batch \<Rightarrow> bytes option" where
  "binary_payload b =
     (case columns b of
        [BinaryArray [Some x]] \<Rightarrow>
          if (b = demo_batch x \<or> b = result_batch x) \<and> length x < 256 then Some x else None
      | _ \<Rightarrow> None)"

definition list_ipc :: arrow_ipc where
  "list_ipc =
     \<lparr>ipc_schema = (\<lambda>fs. Inr [[255, 255, 255, 255], [1, 0, 0, 0],
        if fs = envelope_schema ''result'' then [1, 7] else [0]]),
      ipc_batch = (\<lambda>b. case binary_payload b of
          Some x \<Rightarrow> Inr [[1, 0, 0, 0], [of_nat (length x)], x] | None \<Rightarrow> Inl ''unsupported''),
      ipc_finish = [[255, 255, 255, 255], [0, 0, 0, 0]],
      memory_size = (\<lambda>b. 0),
      root_as_message = (\<lambda>m. case m of [k] \<Rightarrow> Some (int (unat k)) | _ \<Rightarrow> None),
      stream_items = (\<lambda>bs. Inr [Inr
        (if bs ! 8 = 0 then demo_batch (take (length bs - 22) (drop 14 bs))
         else result_batch (take (length bs - 23) (drop 15 bs)))]),
      to_data = (\<lambda>_. ArrayData [] None [])\<rparr>"

definition list_lib :: "nat library" where
  "list_lib =
     \<lparr>l_ipc = list_ipc, l_types = list_types, l_base64 = bytes_str, l_hmac = demo_hmac,
      schema_to_bytes = (\<lambda>n. [of_nat n]),
      header_as_schema = (\<lambda>bs. case bs of [b] \<Rightarrow> Some (Some (unat b)) | _ \<Rightarrow> None)\<rparr>"

definition list_ops ::
  "(nat, record_batch list, nat, record_batch list, record_batch, nat, string) driver_ops" where
  "list_ops =
     \<lparr>d_new_statement = (\<lambda>c. (Inr [], c + 1)),
      d_set_option = (\<lambda>k v c. (Inr (), c)), d_commit = (\<lambda>c. (Inr (), c + 10)),
      d_rollback = (\<lambda>c. (Inr (), c)), d_connection_cancel = (\<lambda>c. 1), d_cancel_handle = (\<lambda>st. 7),
      d_try_cancel = (\<lambda>k. Inr ()),
      d_bind = (\<lambda>b st. (Inr (), [b])), d_bind_stream = (\<lambda>rd st. (Inr (), rd)),
      d_next = (\<lambda>rd. case rd of [] \<Rightarrow> (None, []) | b # bs \<Rightarrow> (Some (Inr b), bs)),
      d_schema = length, d_from_arrow = (\<lambda>e. internal [Str e])\<rparr>"

definition list_calls :: "(nat, record_batch list, record_batch list, nat) driver_calls" where
  "list_calls =
     \<lparr>c_get_option_string = (\<lambda>k c. (Inr k, c)), c_get_option_bytes = (\<lambda>k c. (Inr [], c)),
      c_get_option_int = (\<lambda>k c. (Inr 0, c)), c_get_option_double = (\<lambda>k c. (Inr 0, c)),
      c_get_info = (\<lambda>codes c. (Inr [], c)), c_get_objects = (\<lambda>d a b t ts col c. (Inr [], c)),
      c_get_table_schema = (\<lambda>a b t c. (Inr 0, c)), c_get_table_types = (\<lambda>c. (Inr [], c)),
      c_get_statistic_names = (\<lambda>c. (Inr [], c)), c_get_statistics = (\<lambda>a b t e c. (Inr [], c)),
      c_read_partition = (\<lambda>d c. (Inr [demo_batch d], c)),
      s_set_option = (\<lambda>k v st. (Inr (), st)), s_get_option_string = (\<lambda>k st. (Inr k, st)),
      s_get_option_bytes = (\<lambda>k st. (Inr [], st)), s_get_option_int = (\<lambda>k st. (Inr 0, st)),
      s_get_option_double = (\<lambda>k st. (Inr 0, st)), s_set_sql_query = (\<lambda>q st. (Inr (), st)),
      s_set_substrait_plan = (\<lambda>p st. (Inr (), st)), s_prepare = (\<lambda>st. (Inr (), st)),
      s_execute_query = (\<lambda>st. (Inr st, st)), s_execute_update = (\<lambda>st. (Inr None, st)),
      s_execute_schema = (\<lambda>st. (Inr 0, st)), s_get_parameter_schema = (\<lambda>st. (Inr 0, st)),
      s_execute_partitions = (\<lambda>st. (Inr (3, 0, [[9]]), st)),
      info_code_from = unat, object_depth_try_from = (\<lambda>n. Inr (nat n))\<rparr>"

definition list_stream ::
  "(record_batch list counting_file, record_batch, record_batch list, record_batch list) arrow_stream"
  where
  "list_stream =
     \<lparr>sw_write = (\<lambda>b c. (Inr (), c\<lparr>cf_file := cf_file c @ [b], written := written c + 1\<rparr>)),
      sw_ref = (\<lambda>c. c), sw_into_inner = Inr, f_rewind = Inr, sr_try_new = (\<lambda>c. Inr (cf_file c))\<rparr>"

type_synonym list_service =
  "(nat, record_batch list, nat, record_batch list, nat, string, record_batch list counting_file,
    record_batch list) service"

definition list_service :: list_service where
  "list_service =
     \<lparr>sv_mc = demo_mc, sv_ops = list_ops, sv_calls = list_calls, sv_stream = list_stream,
      sv_writer = (\<lambda>sch f. Inr \<lparr>cf_file = f, written = 0\<rparr>), sv_backend = (\<lambda>t dbo co. Inr 0),
      sv_lib = list_lib, sv_max_bind_bytes = 100\<rparr>"

definition calm :: "string \<Rightarrow> record_batch list ambient" where
  "calm uuid =
     \<lparr>a_now = 5, a_wall = Some 1000000000, a_outcome = (\<lambda>_. Completed), a_uuid = uuid,
      a_open = OpenReplied, a_spawn = Inr (), a_tempfile = Inr []\<rparr>"

definition alice :: call_context where
  "alice =
     \<lparr>auth = \<lparr>authenticated = True, auth_domain = ''jwt'', auth_principal = ''al''\<rparr>,
      response_limit_bytes = None\<rparr>"

definition alice_name :: string where
  "alice_name = ''jwt'' @ nul # ''al''"

definition nobody :: call_context where
  "nobody =
     \<lparr>auth = \<lparr>authenticated = False, auth_domain = '''', auth_principal = ''''\<rparr>,
      response_limit_bytes = None\<rparr>"

definition text_request :: "(string \<times> string) list \<Rightarrow> request" where
  "text_request args =
     \<lparr>batch = \<lparr>schema_fields = map (\<lambda>(k, _). text_field k) args,
              columns = map (\<lambda>(_, v). StringArray [Some v]) args, num_rows = 1\<rparr>,
      metadata = [(''vgi_rpc.protocol_version'', ''0.4.0'')]\<rparr>"

definition live_session ::
  "(nat, record_batch list, nat, record_batch list, nat, record_batch list counting_file) service_session"
  where
  "live_session = new_session list_ops demo_mc 5 alice_name ''duck'' demo_target 0"

definition live_manager ::
  "(nat, record_batch list, nat, record_batch list, nat, record_batch list counting_file) service_manager"
  where
  "live_manager =
     \<lparr>registry = fresh_mutex \<lparr>sessions = [(''s1'', live_session)], opening_total = 0,
        opening_by_principal = []\<rparr>, closing = False, held = (\<lambda>_. 0)\<rparr>"

definition empty_manager ::
  "(nat, record_batch list, nat, record_batch list, nat, record_batch list counting_file) service_manager"
  where
  "empty_manager =
     \<lparr>registry = fresh_mutex \<lparr>sessions = [], opening_total = 0, opening_by_principal = []\<rparr>,
      closing = False, held = (\<lambda>_. 0)\<rparr>"

subsection \<open>The codec keeps its laws\<close>

definition packed :: "bytes \<Rightarrow> bytes" where
  "packed x = [255, 255, 255, 255, 1, 0, 0, 0, 0, 1, 0, 0, 0, of_nat (length x)] @ x
     @ [255, 255, 255, 255, 0, 0, 0, 0]"

lemma binary_payload_batch: "length x < 256 \<Longrightarrow> binary_payload (demo_batch x) = Some x"
  "length x < 256 \<Longrightarrow> binary_payload (result_batch x) = Some x"
  by (simp_all add: binary_payload_def demo_batch_def result_batch_def)

lemma binary_payload_Some:
  "binary_payload b = Some x \<Longrightarrow> (b = demo_batch x \<or> b = result_batch x) \<and> length x < 256"
  by (auto simp: binary_payload_def split: list.splits array.splits option.splits if_splits)

lemma envelope_differ: "envelope_schema ''request'' \<noteq> envelope_schema ''result''"
  by (simp add: envelope_schema_def binary_field_def)

lemma list_encode:
  assumes "length x < 256"
  shows "length x + 22 \<le> limit \<Longrightarrow> encode_batch_ipc list_ipc (demo_batch x) limit = Inr (packed x)"
    and "length x + 23 \<le> limit \<Longrightarrow> \<exists>bs. encode_batch_ipc list_ipc (result_batch x) limit = Inr bs"
  using assms envelope_differ
  by (auto simp: encode_batch_ipc_ok_iff list_ipc_def binary_payload_batch packed_def)
    (simp_all add: demo_batch_def)

lemma list_ipc_round_trips: "ipc_round_trips list_ipc"
  unfolding ipc_round_trips_def
proof (intro allI impI)
  fix b header body
  assume h: "ipc_schema list_ipc (schema_fields b) = Inr header"
    and "ipc_batch list_ipc b = Inr body"
  then obtain x where x: "b = demo_batch x \<or> b = result_batch x" "length x < 256"
    and body: "body = [[1, 0, 0, 0], [of_nat (length x)], x]"
    by (auto simp: list_ipc_def dest: binary_payload_Some split: option.splits)
  let ?tag = "if b = demo_batch x then [0] else [1, 7] :: bytes"
  have kind: "schema_fields (demo_batch y) \<noteq> envelope_schema ''result''"
    "schema_fields (result_batch y) = envelope_schema ''result''" "result_batch y \<noteq> demo_batch y" for y
    using envelope_differ by (simp_all add: demo_batch_def result_batch_def)
  have header: "header = [[255, 255, 255, 255], [1, 0, 0, 0], ?tag]"
    using h x(1) kind by (auto simp: list_ipc_def)
  let ?bs = "concat header @ concat body @ concat (ipc_finish list_ipc)"
  have len: "unat (of_nat (length x) :: u8) = length x"
    using x(2) by (simp add: unat_of_nat)
  let ?fs = "[\<lparr>f_cont = True, f_len = [1, 0, 0, 0], f_meta = [hd ?tag], f_body = tl ?tag\<rparr>,
    \<lparr>f_cont = False, f_len = [1, 0, 0, 0], f_meta = [of_nat (length x)], f_body = x\<rparr>]"
  have "\<forall>f \<in> set ?fs. frame_ok list_ipc f"
    using len by (simp add: frame_ok_def le_i32_def list_ipc_def)
  moreover have "?bs = concat (map render ?fs) @ cont_bytes True @ [0, 0, 0, 0]"
    by (simp add: header body render_def cont_bytes_def list_ipc_def)
  ultimately have "framed list_ipc ?bs"
    unfolding framed_def
    by (intro exI [of _ ?fs] exI [of _ True] exI [of _ "[0, 0, 0, 0]"]) (simp add: le_i32_def)
  moreover have "stream_items list_ipc ?bs = Inr [Inr b]"
    using x(1) kind(3) by (auto simp: header body list_ipc_def)
  ultimately show "framed list_ipc ?bs \<and> stream_items list_ipc ?bs = Inr [Inr b]" by blast
qed

lemma list_buffers: "batch_buffer_bytes (to_data list_ipc) b = 0"
proof -
  have "fold (\<lambda>a. visit (ArrayData [] None [])) xs [] = []" for xs :: "array list"
    by (induction xs) simp_all
  then show ?thesis by (simp add: batch_buffer_bytes_def list_ipc_def)
qed

lemma coded_batch:
  "batch_of_struct [True] [(binary_field ''request'', BinaryArray [Some x])] = demo_batch x"
  by (simp add: batch_of_struct_def demo_batch_def envelope_schema_def)

lemma coded_encode:
  assumes "dec (enc v) = v" and "length (enc v) < 256" and "length (enc v) + 22 \<le> limit"
  shows "encode_record_ipc list_ipc (coded enc dec) v limit = Inr (packed (enc v))"
  using assms list_encode(1) [of "enc v" limit]
  by (simp add: encode_record_ipc_def coded_def coded_batch)

lemma coded_decode:
  assumes "dec (enc v) = v" and "length (enc v) < 256" and "length (enc v) + 22 \<le> limit" and "limit \<le> usize_max"
  shows "decode_record_ipc list_ipc (coded enc dec) (packed (enc v)) limit = Inr v"
proof -
  let ?T = "coded enc (\<lambda>_. v)"
  have "decode_batch_ipc list_ipc (packed (enc v)) limit = Inr (demo_batch (enc v))"
    using list_encode(1) [OF assms(2,3)]
    by (intro batch_ipc_round_trip [OF list_ipc_round_trips assms(4)]) (simp_all add: list_buffers)
  then show ?thesis using assms(1)
    by (simp add: decode_record_ipc_def demo_batch_def require_one_row_def struct_of_batch_def coded_def
        envelope_schema_def binary_field_def)
qed

definition open_request :: "string \<Rightarrow> request" where
  "open_request target =
     \<lparr>batch = demo_batch (packed (str_bytes target)),
      metadata = [(''vgi_rpc.protocol_version'', ''0.4.0'')]\<rparr>"

lemma list_caller: "caller list_service alice = Inr alice_name"
  by (simp add: caller_def list_service_def demo_mc_def alice_def principal_of_def alice_name_def)

lemma list_versions:
  "validate_protocol_version (open_request x) = Inr ()"
  "validate_protocol_version (text_request args) = Inr ()"
  by (simp_all add: validate_protocol_version_def open_request_def text_request_def
      compatible_version_def strip_prefix_def is_ascii_digit_def)

lemma open_request_batch: "batch (open_request x) = demo_batch (packed (str_bytes x))"
  by (simp add: open_request_def)

lemma length_str_bytes: "length (str_bytes s) = length s"
  by (simp add: str_bytes_def)

lemma list_open_request:
  assumes "length target < 200" and "target \<noteq> []" and "nul \<notin> set target"
  shows "typed_request list_lib (t_open_connection list_types) open_request_validate (open_request target)
     = Inr \<lparr>oc_target = target, oc_database_options = [], oc_connection_options = []\<rparr>"
proof -
  let ?r = "\<lparr>oc_target = target, oc_database_options = [], oc_connection_options = []\<rparr>"
  have "decode_record_ipc list_ipc (t_open_connection list_types) (packed (str_bytes target))
      max_control_bytes = Inr ?r"
    using assms(1) coded_decode [where v = ?r and limit = max_control_bytes
        and enc = "\<lambda>r. str_bytes (oc_target r)"
        and dec = "\<lambda>bs. \<lparr>oc_target = bytes_str bs, oc_database_options = [], oc_connection_options = []\<rparr>"]
    by (simp add: list_types_def bytes_str_bytes length_str_bytes max_control_bytes_def usize_max_def)
  then show ?thesis
    using assms(2,3)
    by (simp add: typed_request_def list_versions decode_request_def decode_record_def list_lib_def
        open_request_batch demo_batch_def binary_value_def require_one_row_def column_by_name_def
        envelope_schema_def binary_field_def open_request_validate_def validate_handle_def validate_text_def)
qed

text \<open>The run that opens a session, and its answer.\<close>

lemma list_session_reply:
  "length sid < 200 \<Longrightarrow>
   bounded_response list_lib (t_session list_types) response_validate \<lparr>sr_session_id = sid\<rparr>
     max_control_bytes = Inr (result_batch (packed (str_bytes sid)))"
proof -
  assume "length sid < 200"
  then have enc: "encode_record_ipc list_ipc (t_session list_types) \<lparr>sr_session_id = sid\<rparr>
      max_control_bytes = Inr (packed (str_bytes sid))"
    using coded_encode [where v = "\<lparr>sr_session_id = sid\<rparr>" and limit = max_control_bytes
        and enc = "\<lambda>r. str_bytes (sr_session_id r)"]
    by (simp add: list_types_def bytes_str_bytes length_str_bytes max_control_bytes_def)
  have "length (packed (str_bytes sid)) < 256"
    using \<open>length sid < 200\<close> by (simp add: packed_def length_str_bytes)
  then obtain bs where "encode_batch_ipc list_ipc (result_batch (packed (str_bytes sid)))
      max_control_bytes = Inr bs"
    using list_encode(2) [of "packed (str_bytes sid)" max_control_bytes]
    by (auto simp: max_control_bytes_def)
  with enc show ?thesis
    by (simp add: bounded_response_def encode_response_def response_validate_def encode_record_def
        list_lib_def result_batch_def)
qed

lemma list_open:
  "open_connection list_service (calm ''s1'') (open_request ''duck'') alice empty_manager =
     (Inr (result_batch (packed (str_bytes ''s1''))), live_manager)"
proof -
  have "manager_open list_ops demo_mc (\<lambda>t. Inr 0) 5 OpenReplied (Inr ()) ''s1'' alice_name ''duck''
      empty_manager = (Inr ''s1'', live_manager)"
    by (simp add: manager_open_def st_bind_def open_admit_def demo_mc_def authorizer_allows_def
        reserve_open_def reap_expired_def locked_def admit_def empty_manager_def open_result_def
        open_commit_def release_open_reservation_locked_def live_manager_def live_session_def
        new_session_def hm_count_def Let_def)
  then show ?thesis
    using list_open_request [of "''duck''"] list_session_reply [of "''s1''"] list_caller
    by (simp add: open_connection_def list_service_def calm_def proto_def named_options_into_adbc_def
        adbc_def st_bind_def ret_def handle_response_def response_limit_def alice_def list_lib_def)
qed

end
