(* ===== verification/Rpc.thy ===== *)
theory Rpc
  imports List_Service
begin

text \<open>
  Properties of the unary methods as a whole: every call is a run of the manager's machine, a
  refused call changes nothing, and a call leaves the sessions of other principals alone.
\<close>

lemma unary_call_listed: "unary_call name = Some h \<Longrightarrow> (name, h) \<in> set unary_methods"
  unfolding unary_call_def by (rule map_of_SomeD)

text \<open>
  C32: every remote call is a run of the manager. Whatever the method, the request, the caller and
  the circumstances of the call, the state it leaves is reached from the state it found by steps
  of the interleaving machine, with the same opens in flight and the same shutdown status; so
  every invariant of that machine (quotas, ownership, finality of shutdown) holds between calls.
  The drawn identifier is one that is not registered.
\<close>

theorem rpc_refines_manager:
  assumes "reaches world_start (world_step (sv_ops E) (sv_stream E) (sv_mc E)) w"
    and "unary_call name = Some h"
    and "\<not> hm_contains (sessions (inner (registry (mgr w)))) (a_uuid a)"
  shows "\<exists>w'. reaches world_start (world_step (sv_ops E) (sv_stream E) (sv_mc E)) w'
    \<and> mgr w' = snd (h E a req ctx (mgr w)) \<and> mset (pending w') = mset (pending w)
    \<and> drained w' = drained w"
proof -
  have "runs (sv_ops E) (sv_stream E) (sv_mc E) (mgr w) (snd (h E a req ctx (mgr w)))"
    by (rule runs_unary [OF unary_call_listed [OF assms(2)] assms(3)])
  then obtain w' where w': "(world_step (sv_ops E) (sv_stream E) (sv_mc E))\<^sup>*\<^sup>* w w'"
    "mgr w' = snd (h E a req ctx (mgr w))" "mset (pending w') = mset (pending w)" "drained w' = drained w"
    unfolding runs_def by blast
  from reaches_rtranclp [OF assms(1) w'(1)] w'(2-) show ?thesis by blast
qed

definition list_world ::
  "(nat, record_batch list, nat, record_batch list, nat, record_batch list counting_file) service_session world"
  where
  "list_world = \<lparr>mgr = empty_manager, pending = [], drained = False\<rparr>"

lemma list_world_reaches:
  "reaches world_start (world_step (sv_ops list_service) (sv_stream list_service) (sv_mc list_service)) list_world"
  by (rule reaches_init) (simp add: world_start_def list_world_def empty_manager_def)

lemma unary_open: "unary_call ''open_connection'' = Some open_connection"
  by (simp add: unary_call_def unary_methods_def)

theorem rpc_refines_manager_witness:
  "\<exists>w'. reaches world_start
        (world_step (sv_ops list_service) (sv_stream list_service) (sv_mc list_service)) w'
     \<and> mgr w' = live_manager \<and> pending w' = []"
proof -
  have "\<not> hm_contains (sessions (inner (registry (mgr list_world)))) (a_uuid (calm ''s1''))"
    by (simp add: list_world_def empty_manager_def)
  from rpc_refines_manager [OF list_world_reaches unary_open this, of "open_request ''duck''" alice]
  show ?thesis by (auto simp: list_world_def list_open)
qed

text \<open>
  C33: a call that is refused has no effect. A request without an explicit 0.4.x protocol version,
  and a request of an unauthenticated caller where authentication is required, is answered with
  an error by every unary method, the version error in the first case, and the manager with all
  its sessions, leases and reservations is exactly what it was.
\<close>

theorem refused_rpc_has_no_effect:
  assumes "unary_call name = Some h"
    and "\<not> compatible_version (hm_get (metadata req) ''vgi_rpc.protocol_version'')
      \<or> mc_require_authentication (sv_mc E) \<and> \<not> authenticated (auth ctx)"
  shows "\<exists>e. h E a req ctx m = (Inl e, m)
    \<and> (\<not> compatible_version (hm_get (metadata req) ''vgi_rpc.protocol_version'') \<longrightarrow> e = version_error)"
proof -
  have version: "\<not> compatible_version (hm_get (metadata req) ''vgi_rpc.protocol_version'')
      \<longleftrightarrow> validate_protocol_version req = Inl version_error"
    by (simp add: validate_protocol_version_def version_error_def)
  have "mc_require_authentication (sv_mc E) \<and> \<not> authenticated (auth ctx)
      \<longrightarrow> caller E ctx = Inl Unauthenticated_Caller"
    by (simp add: caller_def principal_of_def)
  with assms(2) version have "refused E req ctx" by (auto simp: refused_def)
  from turned_away_unary [OF unary_call_listed [OF assms(1)] this, of a m] version
  show ?thesis by (auto simp: turned_away_def)
qed

lemma unary_commit: "unary_call ''commit'' = Some commit_connection"
  by (simp add: unary_call_def unary_methods_def)

theorem refused_rpc_has_no_effect_witness:
  "commit_connection list_service (calm ''u'')
     \<lparr>batch = batch (text_request [(''session_id'', ''s1'')]),
      metadata = [(''vgi_rpc.protocol_version'', ''0.3.9'')]\<rparr> alice live_manager
     = (Inl version_error, live_manager)
   \<and> (\<exists>e. commit_connection list_service (calm ''u'') (text_request [(''session_id'', ''s1'')]) nobody
         live_manager = (Inl e, live_manager))"
proof -
  have "\<not> compatible_version (Some ''0.3.9'')"
    by (simp add: compatible_version_def strip_prefix_def)
  then show ?thesis
    using refused_rpc_has_no_effect [OF unary_commit, of "\<lparr>batch = batch (text_request [(''session_id'', ''s1'')]),
      metadata = [(''vgi_rpc.protocol_version'', ''0.3.9'')]\<rparr>" list_service alice "calm ''u''" live_manager]
      refused_rpc_has_no_effect [OF unary_commit, of "text_request [(''session_id'', ''s1'')]"
        list_service nobody "calm ''u''" live_manager]
    by (auto simp: list_service_def demo_mc_def nobody_def)
qed

text \<open>
  C34: a call leaves the sessions of other principals alone. In a reachable state, a session that
  belongs to another principal than the authenticated caller is, after any unary method, still
  registered and in every part (connection, statements, results, uploads, lease) what it was; only
  an open, which reaps first, may have removed it, and then it was idle and expired.
\<close>

theorem rpc_spares_other_principals:
  assumes "reaches world_start (world_step (sv_ops E) (sv_stream E) (sv_mc E)) w"
    and "unary_call name = Some h"
    and "\<not> hm_contains (sessions (inner (registry (mgr w)))) (a_uuid a)"
    and "caller E ctx = Inr who"
    and "hm_get (sessions (inner (registry (mgr w)))) sid = Some s" and "s_principal s \<noteq> who"
  shows "hm_get (sessions (inner (registry (snd (h E a req ctx (mgr w)))))) sid = Some s
    \<or> name = ''open_connection'' \<and> held (mgr w) sid = 0
      \<and> elapsed (a_now a) (inner (last_used s)) > mc_ttl (sv_mc E)"
proof (cases "name = ''open_connection''")
  case False
  from spares_unary [OF unary_call_listed [OF assms(2)] False assms(4), of "\<lambda>_ _. False"] assms(5,6)
  show ?thesis by (auto simp: spares_def)
next
  case True
  then have h: "h = open_connection" using assms(2) by (simp add: unary_open)
  have "world_inv (sv_mc E) w" using assms(1) by (rule manager_machine.inv_reaches)
  then have "hm_wf (sessions (inner (registry (mgr w))))" by (simp add: world_inv_def registry_ok_def)
  from spares_open_connection [OF this assms(3,4)] assms(5,6) h True show ?thesis
    by (auto simp: spares_def idle_expired_def)
qed

lemma list_live_reaches:
  obtains w where "reaches world_start
      (world_step (sv_ops list_service) (sv_stream list_service) (sv_mc list_service)) w"
    "mgr w = live_manager"
proof -
  have "\<not> hm_contains (sessions (inner (registry empty_manager))) (a_uuid (calm ''s1''))"
    by (simp add: empty_manager_def)
  from runs_open_connection [OF this, of list_service "open_request ''duck''" alice]
  have "runs (sv_ops list_service) (sv_stream list_service) (sv_mc list_service) (mgr list_world) live_manager"
    by (simp add: list_open list_world_def)
  then obtain w where "(world_step (sv_ops list_service) (sv_stream list_service) (sv_mc list_service))\<^sup>*\<^sup>*
      list_world w" "mgr w = live_manager"
    unfolding runs_def by blast
  with that reaches_rtranclp [OF list_world_reaches] show ?thesis by blast
qed

theorem rpc_spares_other_principals_witness:
  "let mallory = \<lparr>auth = \<lparr>authenticated = True, auth_domain = ''jwt'', auth_principal = ''mallory''\<rparr>,
                  response_limit_bytes = None\<rparr>
   in hm_get (sessions (inner (registry (snd (commit_connection list_service (calm ''u'')
        (text_request [(''session_id'', ''s1'')]) mallory live_manager))))) ''s1'' = Some live_session"
proof -
  let ?mallory = "\<lparr>auth = \<lparr>authenticated = True, auth_domain = ''jwt'', auth_principal = ''mallory''\<rparr>,
    response_limit_bytes = None\<rparr>"
  obtain w where w: "reaches world_start
      (world_step (sv_ops list_service) (sv_stream list_service) (sv_mc list_service)) w"
    "mgr w = live_manager" by (rule list_live_reaches)
  have "caller list_service ?mallory = Inr (''jwt'' @ nul # ''mallory'')"
    by (simp add: caller_def list_service_def demo_mc_def principal_of_def)
  moreover have "\<not> hm_contains (sessions (inner (registry (mgr w)))) (a_uuid (calm ''u''))"
    "hm_get (sessions (inner (registry (mgr w)))) ''s1'' = Some live_session"
    "s_principal live_session \<noteq> ''jwt'' @ nul # ''mallory''"
    by (simp_all add: w(2) live_manager_def live_session_def new_session_def calm_def alice_name_def)
  ultimately show ?thesis
    using rpc_spares_other_principals [OF w(1) unary_commit, of "calm ''u''" ?mallory _ "''s1''" live_session
        "text_request [(''session_id'', ''s1'')]"] w(2)
    by (auto simp: Let_def)
qed

subsection \<open>Handles that cannot be announced\<close>

definition session_free :: "string \<Rightarrow> ('c, 's, 'k, 'r, 'b, 'sch, 'w) session \<Rightarrow> bool" where
  "session_free uuid s \<longleftrightarrow>
     \<not> hm_contains (inner (statements s)) uuid \<and> \<not> hm_contains (inner (results s)) uuid
     \<and> \<not> hm_contains (inner (bind_uploads s)) uuid"

definition handle_free :: "string \<Rightarrow> ('c, 's, 'k, 'r, 'b, 'sch, 'w) session manager \<Rightarrow> bool" where
  "handle_free uuid m \<longleftrightarrow>
     \<not> hm_contains (sessions (inner (registry m))) uuid
     \<and> (\<forall>sid s. hm_get (sessions (inner (registry m))) sid = Some s \<longrightarrow> session_free uuid s)"

interpretation free_session: state_preorder "\<lambda>s s'. session_free uuid s \<longrightarrow> session_free uuid s'"
  for uuid
  by unfold_locales auto

interpretation free_manager: state_preorder "\<lambda>m m'. handle_free uuid m \<longrightarrow> handle_free uuid m'"
  for uuid
  by unfold_locales auto

lemma keys_filter: "\<not> hm_contains m k \<Longrightarrow> \<not> hm_contains (filter P m) k"
  by auto

lemma keys_insert: "hm_contains (hm_insert k v m) k' \<longleftrightarrow> k' = k \<or> hm_contains m k'"
  by (metis hm_get_None_iff hm_get_insert option.distinct(1))

lemma keys_remove: "hm_contains (hm_remove k m) k' \<longleftrightarrow> k' \<noteq> k \<and> hm_contains m k'"
  by (metis hm_get_None_iff hm_get_remove)

lemma free_job:
  "(session_free uuid s \<Longrightarrow> session_free uuid (snd (f s))) \<Longrightarrow>
   session_free uuid s \<longrightarrow> session_free uuid (snd (worker_call d oc f s))"
  by (blast intro: worker_call_keeps [where P = "session_free uuid"])

lemma free_locked_connection:
  "session_free uuid s \<Longrightarrow> session_free uuid (snd (locked connection put_connection e f s))"
  by (simp add: session_free_def locked_def split: prod.split)

lemma free_locked_statements:
  assumes "\<And>m. \<not> hm_contains m uuid \<Longrightarrow> \<not> hm_contains (snd (f m)) uuid" and "session_free uuid s"
  shows "session_free uuid (snd (locked statements put_statements e f s))"
  using assms(2) assms(1) [of "inner (statements s)"]
  by (simp add: session_free_def locked_def case_prod_beta del: set_map)

lemma free_locked_results:
  assumes "\<And>m. \<not> hm_contains m uuid \<Longrightarrow> \<not> hm_contains (snd (f m)) uuid" and "session_free uuid s"
  shows "session_free uuid (snd (locked results put_results e f s))"
  using assms(2) assms(1) [of "inner (results s)"]
  by (simp add: session_free_def locked_def case_prod_beta del: set_map)

lemma statement_job_keys: "\<not> hm_contains m k \<Longrightarrow> \<not> hm_contains (snd (statement_job hid f m)) k"
  using hm_get_Some_contains [of m hid]
  by (auto simp: statement_job_def keys_insert case_prod_beta simp del: set_map split: option.split)

lemma remove_keys:
  "\<not> hm_contains m k \<Longrightarrow>
   \<not> hm_contains (snd (case hm_get m hid of None \<Rightarrow> (Inl e, m) | Some _ \<Rightarrow> (Inr (), hm_remove hid m))) k"
  by (simp add: keys_remove del: set_map split: option.split)

lemma free_connection: "session_free uuid s \<longrightarrow> session_free uuid (snd (with_connection oc f s))"
  unfolding with_connection_def by (rule free_job) (rule free_locked_connection)

lemma free_statement: "session_free uuid s \<longrightarrow> session_free uuid (snd (with_statement oc hid f s))"
  unfolding with_statement_def by (rule free_job) (rule free_locked_statements [OF statement_job_keys])

lemma free_invalidate:
  "session_free uuid s \<longrightarrow> session_free uuid (snd (invalidate_statement_results oc hid s))"
  unfolding invalidate_statement_results_def
  by (rule free_job, rule free_locked_results) auto

lemma free_close_result: "session_free uuid s \<longrightarrow> session_free uuid (snd (close_result oc hid s))"
  unfolding close_result_def by (rule free_job) (rule free_locked_results [OF remove_keys])

lemma free_remove_statement:
  "session_free uuid s \<longrightarrow> session_free uuid (snd (remove_statement oc hid s))"
  unfolding remove_statement_def by (rule free_job) (rule free_locked_statements [OF remove_keys])

lemma free_drop_uploads:
  "session_free uuid s \<longrightarrow> session_free uuid (snd (locked bind_uploads put_uploads e
     (\<lambda>us. (Inr (), filter P us)) s))"
  by (auto simp: session_free_def locked_def)

lemma free_close_statement:
  "session_free uuid s \<longrightarrow> session_free uuid (snd (close_statement oc1 oc2 hid s))"
  unfolding close_statement_def
  by (intro free_session.keeps_bind free_remove_statement free_invalidate free_drop_uploads)

lemma free_set_option:
  "session_free uuid s \<longrightarrow> session_free uuid (snd (set_connection_option D oc key v s))"
  by (auto simp: set_connection_option_def free_connection [THEN mp])

text \<open>The operations that mint a handle: nothing is left when they fail or are undone.\<close>

lemma free_new_statement_failed:
  assumes "new_statement D Completed uuid s = (Inl e, s')" and "session_free uuid s"
  shows "session_free uuid s'"
  using assms
  by (auto simp: new_statement_def worker_call_def new_statement_job_def st_bind_def locked_def
      session_free_def split: if_splits prod.splits sum.splits)

lemma free_new_statement_undone:
  assumes "new_statement D Completed uuid s = (Inr hid, s')" and "session_free uuid s"
  shows "session_free uuid (snd (close_statement Completed oc hid s'))"
proof -
  have "hid = uuid" "\<not> poisoned (statements s')" "hm_contains (inner (statements s')) uuid"
    "\<not> hm_contains (inner (results s')) uuid" "\<not> hm_contains (inner (bind_uploads s')) uuid"
    using assms
    by (auto simp: new_statement_def worker_call_def new_statement_job_def st_bind_def locked_def
        session_free_def keys_insert simp del: set_map split: if_splits prod.splits sum.splits)
  then obtain x where x: "hm_get (inner (statements s')) uuid = Some x"
    by (metis hm_get_None_iff not_Some_eq)
  let ?s = "put_statements (store (statements s') (hm_remove uuid (inner (statements s')))) s'"
  have removed: "remove_statement Completed uuid s' = (Inr (), ?s)"
    using \<open>\<not> poisoned (statements s')\<close> x by (simp add: remove_statement_def worker_call_def locked_def)
  have "session_free uuid ?s"
    using \<open>\<not> hm_contains (inner (results s')) uuid\<close> \<open>\<not> hm_contains (inner (bind_uploads s')) uuid\<close>
    by (simp add: session_free_def keys_remove del: set_map)
  then have "session_free uuid (snd (st_bind (invalidate_statement_results oc uuid) (\<lambda>_.
      locked bind_uploads put_uploads uploads_poisoned
        (\<lambda>us. (Inr (), filter (\<lambda>(_, entry). bu_statement_id entry \<noteq> uuid) us))) ?s))"
    by (rule free_session.keeps_bind [THEN mp, rotated 2]) (rule free_invalidate, rule free_drop_uploads)
  then show ?thesis
    by (simp add: close_statement_def st_bind_def removed \<open>hid = uuid\<close>)
qed

lemma free_insert_failed:
  assumes "insert_owned_result D Completed uuid owner rd s = (Inl e, s')" and "session_free uuid s"
  shows "session_free uuid s'"
  using assms
  by (auto simp: insert_owned_result_def worker_call_def locked_def session_free_def
      split: if_splits)

lemma free_insert_undone:
  assumes "insert_owned_result D Completed uuid owner rd s = (Inr (hid, sch), s')" and "session_free uuid s"
  shows "session_free uuid (snd (close_result Completed hid s'))"
  using assms
  by (auto simp: insert_owned_result_def worker_call_def locked_def session_free_def close_result_def
      keys_remove keys_insert simp del: set_map split: if_splits)

text \<open>A handler body that answers with an error leaves no handle named \<open>uuid\<close>.\<close>

definition undone ::
  "string \<Rightarrow> (('c, 's, 'k, 'r, 'b, 'sch, 'w) session, rpc_error, 'a) step \<Rightarrow> bool" where
  "undone uuid body \<longleftrightarrow>
     (\<forall>s. session_free uuid s \<longrightarrow> isl (fst (body s)) \<longrightarrow> session_free uuid (snd (body s)))"

lemma undone_keeps: "(\<And>s. session_free uuid s \<longrightarrow> session_free uuid (snd (body s))) \<Longrightarrow> undone uuid body"
  by (simp add: undone_def)

lemma undone_bind:
  assumes "\<And>s. session_free uuid s \<longrightarrow> session_free uuid (snd (f s))" and "\<And>v. undone uuid (g v)"
  shows "undone uuid (st_bind f g)"
  unfolding undone_def
proof (intro allI impI)
  fix s
  assume free: "session_free uuid s" and err: "isl (fst (st_bind f g s))"
  obtain r s' where f: "f s = (r, s')" by fastforce
  with assms(1) [of s] free have "session_free uuid s'" by simp
  with f err assms(2) show "session_free uuid (snd (st_bind f g s))"
    by (cases r) (auto simp: st_bind_def undone_def)
qed

lemma adbc_cases:
  assumes "adbc L f m = (r, m')"
  obtains r0 where "f m = (r0, m')" "r = map_err (adbc_rpc_error L) r0"
  using assms by (auto simp: adbc_def split: prod.splits)

lemma undone_mint:
  assumes "\<And>s e s'. f s = (Inl e, s') \<Longrightarrow> session_free uuid s \<Longrightarrow> session_free uuid s'"
    and "\<And>s v s'. f s = (Inr v, s') \<Longrightarrow> session_free uuid s \<Longrightarrow> isl (fst (g v s')) \<Longrightarrow>
      session_free uuid (snd (g v s'))"
  shows "undone uuid (st_bind (adbc L f) g)"
  unfolding undone_def
proof (intro allI impI)
  fix s
  assume free: "session_free uuid s" and err: "isl (fst (st_bind (adbc L f) g s))"
  obtain r s' where f: "f s = (r, s')" by fastforce
  show "session_free uuid (snd (st_bind (adbc L f) g s))"
    using f free err assms by (cases r) (auto simp: st_bind_def adbc_def)
qed

lemma undone_result_response:
  assumes "session_free uuid (snd (close_result Completed hid s))"
    and "isl (fst (result_response L Completed hid sch limit s))"
  shows "session_free uuid (snd (result_response L Completed hid sch limit s))"
  using assms by (auto simp: result_response_def split: sum.splits)

lemma undone_insert_reader:
  "undone uuid (insert_reader_response E Completed Completed uuid rd ctx)"
  unfolding insert_reader_response_def insert_result_def
  by (rule undone_mint)
    (auto intro: free_insert_failed undone_result_response free_insert_undone split: prod.splits)

lemma undone_reader_of_connection:
  assumes "a_outcome a = (\<lambda>_. Completed)"
  shows "undone (a_uuid a) (reader_of_connection E a ctx call)"
  unfolding reader_of_connection_def assms
  by (rule undone_bind) (rule free_session.keeps_adbc free_connection undone_insert_reader)+

lemma undone_new_statement:
  assumes "a_outcome a = (\<lambda>_. Completed)"
  shows "undone (a_uuid a) (st_bind (adbc L (new_statement D (a_outcome a 0) (a_uuid a))) (\<lambda>hid.
    handle_response L T val (v hid) limit (\<lambda>s. snd (close_statement (a_outcome a 1) (a_outcome a 2) hid s))))"
  unfolding assms
proof (rule undone_mint)
  fix s e s'
  assume "new_statement D Completed (a_uuid a) s = (Inl e, s')" "session_free (a_uuid a) s"
  then show "session_free (a_uuid a) s'" by (rule free_new_statement_failed)
next
  fix s hid s'
  assume new: "new_statement D Completed (a_uuid a) s = (Inr hid, s')" "session_free (a_uuid a) s"
    and err: "isl (fst (handle_response L T val (v hid) limit
      (\<lambda>s. snd (close_statement Completed Completed hid s)) s'))"
  from free_new_statement_undone [OF new, of Completed] err
  show "session_free (a_uuid a) (snd (handle_response L T val (v hid) limit
      (\<lambda>s. snd (close_statement Completed Completed hid s)) s'))"
    by (auto simp: handle_response_def split: sum.splits)
qed

lemma undone_statement_result:
  assumes "a_outcome a = (\<lambda>_. Completed)"
  shows "undone (a_uuid a) (st_bind (adbc L (insert_statement_result D (a_outcome a 2) (a_outcome a 3)
    (a_uuid a) hid rd)) (\<lambda>(rid, sch). result_response L (a_outcome a 4) rid sch limit))"
  unfolding assms
proof (rule undone_mint)
  fix s e s'
  assume "insert_statement_result D Completed Completed (a_uuid a) hid rd s = (Inl e, s')"
    and free: "session_free (a_uuid a) s"
  then show "session_free (a_uuid a) s'"
    using free_invalidate [of "a_uuid a" s Completed hid]
    by (auto simp: insert_statement_result_def st_bind_def split: prod.splits sum.splits
        intro: free_insert_failed)
next
  fix s v s'
  assume "insert_statement_result D Completed Completed (a_uuid a) hid rd s = (Inr v, s')"
    and free: "session_free (a_uuid a) s"
  then obtain s1 where s1: "invalidate_statement_results Completed hid s = (Inr (), s1)"
    "insert_owned_result D Completed (a_uuid a) (Some hid) rd s1 = (Inr v, s')"
    unfolding insert_statement_result_def by (auto elim: st_bind_Inr)
  then have "session_free (a_uuid a) s1"
    using free free_invalidate [of "a_uuid a" s Completed hid] by simp
  moreover obtain rid sch where v: "v = (rid, sch)" by fastforce
  ultimately have "session_free (a_uuid a) (snd (close_result Completed rid s'))"
    using s1(2) by (auto intro: free_insert_undone)
  moreover assume "isl (fst ((case v of (rid, sch) \<Rightarrow> result_response L Completed rid sch limit) s'))"
  ultimately show "session_free (a_uuid a)
      (snd ((case v of (rid, sch) \<Rightarrow> result_response L Completed rid sch limit) s'))"
    unfolding v by (auto intro: undone_result_response)
qed

lemmas undone_rules =
  undone_reader_of_connection undone_new_statement undone_statement_result

text \<open>The same for the manager.\<close>

lemma handle_free_sessions:
  assumes "handle_free uuid m"
    and "\<And>sid s'. hm_get (sessions (inner (registry m'))) sid = Some s' \<Longrightarrow>
      sid \<noteq> uuid \<and> session_free uuid s'"
  shows "handle_free uuid m'"
  using assms(2) unfolding handle_free_def
  by (metis hm_get_None_iff not_Some_eq)

lemma session_free_lease: "session_free uuid (s\<lparr>last_used := l\<rparr>) = session_free uuid s"
  by (simp add: session_free_def)

lemma free_get: "handle_free uuid m \<longrightarrow> handle_free uuid (snd (manager_get mc now sid who m))"
proof
  assume free: "handle_free uuid m"
  obtain rg m1 where m1: "with_registry (lookup_job mc now (held m) sid who) m = (rg, m1)" by fastforce
  from m1 have "handle_free uuid m1"
  proof (cases rule: with_registry_cases)
    case broken
    with free show ?thesis by simp
  next
    case (locked r')
    show ?thesis
    proof (rule handle_free_sessions [OF free])
      fix k s'
      assume k: "hm_get (sessions (inner (registry m1))) k = Some s'"
      from locked(2) show "k \<noteq> uuid \<and> session_free uuid s'"
        using free k locked(3)
        by (cases rule: lookup_job_cases)
          (auto simp: handle_free_def session_free_lease simp del: set_map
            dest: hm_get_Some_contains split: if_splits)
    qed
  qed
  with m1 show "handle_free uuid (snd (manager_get mc now sid who m))"
    by (cases rg) (auto simp: manager_get_def handle_free_def)
qed

lemma free_close: "handle_free uuid m \<longrightarrow> handle_free uuid (snd (manager_close sid who m))"
proof
  assume free: "handle_free uuid m"
  obtain rg m1 where m1: "manager_close sid who m = (rg, m1)" by fastforce
  have "handle_free uuid m1"
    using m1 [unfolded manager_close_def] free
    by (cases rule: with_registry_cases)
      (auto simp: handle_free_def keys_remove simp del: set_map split: option.splits if_splits)
  with m1 show "handle_free uuid (snd (manager_close sid who m))" by simp
qed

lemma free_use_session:
  assumes "manager_get mc now sid who m0 = (Inr s, m)" and "handle_free uuid m" and "undone uuid body"
    and "isl (fst (use_session body (s, sid) m))"
  shows "handle_free uuid (snd (use_session body (s, sid) m))"
proof -
  have s: "hm_get (sessions (inner (registry m))) sid = Some s" by (rule manager_get_found(2) [OF assms(1)])
  then have sid: "sid \<noteq> uuid" "session_free uuid s"
    using assms(2) by (auto simp: handle_free_def dest: hm_get_Some_contains)
  with assms(3,4) have "session_free uuid (snd (body s))"
    by (auto simp: undone_def use_session_def split: prod.splits)
  with assms(2) sid show ?thesis
    by (auto simp: use_session_def give_back_def case_prod_beta handle_free_def keys_insert
        simp del: set_map split: if_splits)
qed

definition undone_call ::
  "string \<Rightarrow> (('c, 's, 'k, 'r, 'b, 'sch, 'w) session manager, rpc_error, 'a) step \<Rightarrow> bool" where
  "undone_call uuid h \<longleftrightarrow>
     (\<forall>m. handle_free uuid m \<longrightarrow> isl (fst (h m)) \<longrightarrow> handle_free uuid (snd (h m)))"

lemma undone_call_bind:
  assumes "\<And>m. handle_free uuid m \<longrightarrow> handle_free uuid (snd (f m))"
    and "\<And>m v m'. f m = (Inr v, m') \<Longrightarrow> handle_free uuid m' \<Longrightarrow> isl (fst (g v m')) \<Longrightarrow>
      handle_free uuid (snd (g v m'))"
  shows "undone_call uuid (st_bind f g)"
  unfolding undone_call_def
proof (intro allI impI)
  fix m
  assume free: "handle_free uuid m" and err: "isl (fst (st_bind f g m))"
  obtain r m' where f: "f m = (r, m')" by fastforce
  with assms(1) [of m] free have "handle_free uuid m'" by simp
  with f err assms(2) [of m] show "handle_free uuid (snd (st_bind f g m))"
    by (cases r) (auto simp: st_bind_def)
qed

lemma undone_on_session_id:
  assumes "undone uuid body"
  shows "undone_call uuid (on_session_id E a sid ctx body)"
  unfolding on_session_id_def
proof (rule undone_call_bind)
  show "handle_free uuid m \<longrightarrow> handle_free uuid (snd (session_by_id E a sid ctx m))" for m
    unfolding session_by_id_def by (intro free_manager.keeps_ret_bind free_manager.keeps_adbc free_get)
  fix m s m'
  assume "session_by_id E a sid ctx m = (Inr s, m')" and rest: "handle_free uuid m'"
    "isl (fst (use_session body (s, sid) m'))"
  then obtain who where "manager_get (sv_mc E) (a_now a) sid who m = (Inr s, m')"
    by (auto elim!: session_by_id_cases simp: map_err_def split: sum.splits)
  with rest assms show "handle_free uuid (snd (use_session body (s, sid) m'))"
    by (intro free_use_session)
qed

lemma undone_on_typed:
  assumes "\<And>args. undone uuid (body args)"
  shows "undone_call uuid (on_typed E a T val sid_of req ctx body)"
  unfolding on_typed_def
proof (cases "typed_request (sv_lib E) T val req")
  case (Inl e)
  then show "undone_call uuid (st_bind (ret (typed_request (sv_lib E) T val req)) (\<lambda>args.
      on_session_id E a (sid_of args) ctx (body args)))"
    by (simp add: undone_call_def)
next
  case (Inr args)
  from undone_on_session_id [OF assms] have
    "undone_call uuid (on_session_id E a (sid_of args) ctx (body args))" .
  with Inr show "undone_call uuid (st_bind (ret (typed_request (sv_lib E) T val req)) (\<lambda>args.
      on_session_id E a (sid_of args) ctx (body args)))"
    by (simp add: undone_call_def)
qed

lemma undone_on_session:
  assumes "\<And>sid. undone uuid (body sid)"
  shows "undone_call uuid (on_session E a req ctx body)"
  unfolding on_session_def
proof (rule undone_call_bind)
  show "handle_free uuid m \<longrightarrow> handle_free uuid (snd (get_session E a req ctx m))" for m
    unfolding get_session_def
    by (intro free_manager.keeps_ret_bind free_manager.keeps_bind free_manager.keeps_adbc free_get
        free_manager.keeps_ret)
  fix m h m'
  assume got: "get_session E a req ctx m = (Inr h, m')" and rest: "handle_free uuid m'"
    "isl (fst (use_session (body (snd h)) h m'))"
  from got obtain who s sid where "manager_get (sv_mc E) (a_now a) sid who m = (Inr s, m')" "h = (s, sid)"
    by (cases rule: get_session_cases) (auto split: sum.splits)
  with rest assms show "handle_free uuid (snd (use_session (body (snd h)) h m'))"
    by (auto intro: free_use_session)
qed

lemma free_admit: "handle_free uuid m \<longrightarrow> handle_free uuid (snd (open_admit mc now who tn m))"
proof
  assume free: "handle_free uuid m"
  obtain res m1 where adm: "open_admit mc now who tn m = (res, m1)" by fastforce
  have "handle_free uuid m1"
    using adm
  proof (cases rule: open_admit_cases)
    case (early e)
    with free show ?thesis by simp
  next
    case (decided t res1 ids r')
    have "sessions r' = fold hm_remove ids (sessions (inner (registry m)))"
      using decided(4) by (auto simp: admit_def Let_def split: if_splits)
    with decided(5) free show ?thesis
      by (intro handle_free_sessions [OF free])
        (auto simp: fold_remove_get handle_free_def dest: hm_get_Some_contains split: if_splits)
  qed
  with adm show "handle_free uuid (snd (open_admit mc now who tn m))" by simp
qed

lemma free_release:
  "handle_free uuid m \<longrightarrow> handle_free uuid (snd (release_open_reservation who m))"
  by (auto simp: release_open_reservation_def locked_def handle_free_def)

lemma free_abort: "handle_free uuid m \<longrightarrow> handle_free uuid (snd (open_abort who e m))"
  unfolding open_abort_def by (rule free_manager.keeps_bind [OF free_release]) simp

lemma new_session_principal: "s_principal (new_session D mc now who tn t conn) = who"
  by (simp add: new_session_def)

lemma open_abort_fails: "open_abort who e m \<noteq> (Inr v, m')"
  by (auto simp: open_abort_def elim: st_bind_Inr)

lemma free_open_failed:
  assumes "manager_open D mc backend now oc spawn uuid who tn m = (Inl e, m')" and "handle_free uuid m"
  shows "handle_free uuid m'"
proof -
  obtain res m1 where adm: "open_admit mc now who tn m = (res, m1)" by fastforce
  have free: "handle_free uuid m1" using free_admit [of uuid m mc now who tn] adm assms(2) by simp
  have commit: "handle_free uuid m2" if "open_commit uuid who s m1 = (Inl e2, m2)" for s m2 e2
    using that free by (auto simp: open_commit_def locked_def handle_free_def Let_def split: if_splits)
  show ?thesis
    using assms(1) adm free commit free_abort [THEN mp, OF free, of who]
    by (cases res; cases "open_result (mc_timeout mc) oc (backend (projr res))"; cases spawn)
      (auto simp: manager_open_def st_bind_def dest!: arg_cong [of "open_abort _ _ _" _ snd])
qed

lemma free_open_undone:
  assumes "manager_open D mc backend now oc spawn uuid who tn m = (Inr sid, m')" and "handle_free uuid m"
  shows "handle_free uuid (snd (manager_close sid who m'))"
proof -
  obtain t m1 where adm: "open_admit mc now who tn m = (Inr t, m1)"
    using assms(1) unfolding manager_open_def by (auto elim: st_bind_Inr)
  have free: "handle_free uuid m1" using free_admit [of uuid m mc now who tn] adm assms(2) by simp
  obtain conn where commit: "open_commit uuid who (new_session D mc now who tn t conn) m1 = (Inr sid, m')"
    using assms(1) adm
    by (cases "open_result (mc_timeout mc) oc (backend t)"; cases spawn)
      (auto simp: manager_open_def st_bind_def open_abort_fails)
  then have m': "sid = uuid" "\<not> poisoned (registry m')"
    "sessions (inner (registry m')) =
      hm_insert uuid (new_session D mc now who tn t conn) (sessions (inner (registry m1)))"
    by (auto simp: open_commit_def locked_def Let_def split: if_splits)
  have "handle_free uuid (put_registry (store (registry m') ((inner (registry m'))\<lparr>sessions :=
      hm_remove uuid (sessions (inner (registry m')))\<rparr>)) m')"
    using free m'(3) by (auto simp: handle_free_def keys_remove simp del: set_map split: if_splits)
  with m' show ?thesis by (simp add: manager_close_def locked_def new_session_principal)
qed

lemma undone_call_mint:
  assumes "\<And>m e m'. f m = (Inl e, m') \<Longrightarrow> handle_free uuid m \<Longrightarrow> handle_free uuid m'"
    and "\<And>m sid m'. f m = (Inr sid, m') \<Longrightarrow> handle_free uuid m \<Longrightarrow> handle_free uuid (cl sid m')"
  shows "undone_call uuid (st_bind (adbc L f) (\<lambda>sid. handle_response L T val (v sid) limit (cl sid)))"
  unfolding undone_call_def
proof (intro allI impI)
  fix m
  assume free: "handle_free uuid m"
    and err: "isl (fst (st_bind (adbc L f) (\<lambda>sid. handle_response L T val (v sid) limit (cl sid)) m))"
  obtain r m' where f: "f m = (r, m')" by fastforce
  show "handle_free uuid (snd (st_bind (adbc L f) (\<lambda>sid. handle_response L T val (v sid) limit (cl sid)) m))"
    using f free err assms(1) [of m] assms(2) [of m]
    by (cases r) (auto simp: st_bind_def adbc_def handle_response_def split: sum.splits)
qed

lemma undone_call_ret: "(\<And>v. undone_call uuid (g v)) \<Longrightarrow> undone_call uuid (st_bind (ret r) g)"
  by (cases r) (simp_all add: undone_call_def)

lemma undone_open: "undone_call (a_uuid a) (open_connection E a req ctx)"
  unfolding open_connection_def proto_def
  by (intro undone_call_ret undone_call_mint) (rule free_open_failed free_open_undone, assumption+)+

lemma undone_close_connection: "undone_call uuid (close_connection E a req ctx)"
proof -
  have "handle_free uuid m \<longrightarrow> handle_free uuid (snd (close_connection E a req ctx m))" for m
    unfolding close_connection_def
    by (intro free_manager.keeps_ret_bind free_manager.keeps_arg free_manager.keeps_then_ok free_close)
  then show ?thesis by (simp add: undone_call_def)
qed

lemma free_unchanged: "session_free uuid s \<longrightarrow> session_free uuid (snd ((\<lambda>s. (f s, s)) s))"
  by simp

lemma free_commit: "session_free uuid s \<longrightarrow> session_free uuid (snd (commit D oc s))"
  "session_free uuid s \<longrightarrow> session_free uuid (snd (rollback D oc s))"
  unfolding commit_def rollback_def by (rule free_connection)+

lemmas free_rules =
  free_session.keeps_arg free_session.keeps_ret_bind free_session.keeps_bind
  free_session.keeps_then_ok free_session.keeps_adbc free_session.keeps_ret free_session.keeps_proto
  free_connection free_commit free_statement free_invalidate free_close_result free_close_statement
  free_set_option free_unchanged

lemma undone_execute_with:
  "(\<And>hid v. undone uuid (reply hid v)) \<Longrightarrow> undone uuid (execute_with E a req call reply)"
  unfolding execute_with_def arg_def by (intro undone_bind) (intro free_rules | assumption)+

lemma free_execute_with:
  "(\<And>hid v s. session_free uuid s \<longrightarrow> session_free uuid (snd (reply hid v s))) \<Longrightarrow>
   session_free uuid s \<longrightarrow> session_free uuid (snd (execute_with E a req call reply s))"
  unfolding execute_with_def by (intro free_rules)

lemma undone_readers:
  assumes "a_outcome a = (\<lambda>_. Completed)"
  shows "undone_call (a_uuid a) (get_info_call E a req ctx)"
    and "undone_call (a_uuid a) (get_objects_call E a req ctx)"
    and "undone_call (a_uuid a) (get_table_types_call E a req ctx)"
    and "undone_call (a_uuid a) (get_statistic_names_call E a req ctx)"
    and "undone_call (a_uuid a) (get_statistics_call E a req ctx)"
    and "undone_call (a_uuid a) (read_partition_call E a req ctx)"
  unfolding get_info_call_def get_objects_call_def get_table_types_call_def get_statistic_names_call_def
    get_statistics_call_def read_partition_call_def
  by (rule undone_on_session undone_on_typed,
      (rule undone_reader_of_connection [OF assms] undone_bind | intro free_rules)+)+

lemma undone_statements:
  assumes "a_outcome a = (\<lambda>_. Completed)"
  shows "undone_call (a_uuid a) (new_statement_call E a req ctx)"
    and "undone_call (a_uuid a) (execute_call E a req ctx)"
  unfolding new_statement_call_def execute_call_def
  by (rule undone_on_session; (rule undone_execute_with)?;
      rule undone_new_statement [OF assms] undone_statement_result [OF assms])+

lemma undone_others:
  "undone_call uuid (commit_connection E a req ctx)"
  "undone_call uuid (rollback_connection E a req ctx)"
  "undone_call uuid (cancel_connection_call E a req ctx)"
  "undone_call uuid (set_connection_option_call E a req ctx)"
  "undone_call uuid (get_connection_option_call E a req ctx)"
  "undone_call uuid (get_table_schema_call E a req ctx)"
  "undone_call uuid (set_statement_option_call E a req ctx)"
  "undone_call uuid (get_statement_option_call E a req ctx)"
  "undone_call uuid (set_sql_query_call E a req ctx)"
  "undone_call uuid (set_substrait_plan_call E a req ctx)"
  "undone_call uuid (prepare_call E a req ctx)"
  "undone_call uuid (cancel_statement_call E a req ctx)"
  "undone_call uuid (get_parameter_schema_call E a req ctx)"
  "undone_call uuid (close_statement_call E a req ctx)"
  "undone_call uuid (close_result_call E a req ctx)"
  unfolding connection_call_defs statement_call_defs
  by (rule undone_on_session undone_on_typed; rule undone_keeps; intro free_rules)+

lemma undone_executions:
  "undone_call uuid (execute_update_call E a req ctx)"
  "undone_call uuid (execute_schema_call E a req ctx)"
  "undone_call uuid (execute_partitions_call E a req ctx)"
  unfolding execute_update_call_def execute_schema_call_def execute_partitions_call_def
  by (rule undone_on_session; rule undone_keeps; rule free_execute_with;
      (rule free_session.keeps_ret | simp))+

lemma undone_unary:
  assumes "(name, h) \<in> set unary_methods" and "a_outcome a = (\<lambda>_. Completed)"
  shows "undone_call (a_uuid a) (h E a req ctx)"
proof -
  have "h \<in> set (map snd unary_methods)" using assms(1) by force
  then show ?thesis
    unfolding unary_methods_def
    by (auto intro: undone_open undone_close_connection undone_readers [OF assms(2)]
        undone_statements [OF assms(2)] undone_others undone_executions)
qed



end
