(* ===== verification/Streams.thy ===== *)
theory Streams
  imports Rpc
begin

text \<open>
  The streaming methods of \<open>crates/grainlift-server/src/service.rs\<close>: \<open>read_result\<close>, whose producer
  state is a cursor over a result of the session, and \<open>bind\<close> and \<open>bind_stream\<close>, whose exchange state
  names a bind upload. The stream framework calls \<open>produce\<close> or \<open>exchange\<close> once per turn with an
  output collector (the parameter record \<open>collector\<close>) and may store the state between turns.
\<close>

subsection \<open>States\<close>

record bind_cursor =
  bc_session_id :: string
  bc_upload_id :: string
  bc_max_bytes :: nat

record result_cursor =
  cu_session_id :: string
  cu_result_id :: string
  cu_sequence :: i64

record 'o collector =
  emit :: "record_batch \<Rightarrow> 'o \<Rightarrow> (rpc_error, 'o) result"
  finish_output :: "'o \<Rightarrow> 'o"

text \<open>Storing a state between turns; \<open>to_json\<close> and \<open>from_json\<close> are the derived serialisation.\<close>

definition encode_bind_state ::
  "(bind_cursor \<Rightarrow> (string, bytes) result) \<Rightarrow> bind_cursor \<Rightarrow> (rpc_error, bytes) result" where
  "encode_bind_state to_json cur =
     map_err (\<lambda>e. RuntimeRpcError [Lit ''encode bind cursor: '', Str e]) (to_json cur)"

definition decode_bind_state ::
  "(bytes \<Rightarrow> (string, bind_cursor) result) \<Rightarrow> bytes \<Rightarrow> (rpc_error, bind_cursor) result" where
  "decode_bind_state from_json bs =
     map_err (\<lambda>e. ProtocolRpcError [Lit ''decode bind cursor: '', Str e]) (from_json bs)"

definition encode_result_state ::
  "(result_cursor \<Rightarrow> (string, bytes) result) \<Rightarrow> result_cursor \<Rightarrow> (rpc_error, bytes) result" where
  "encode_result_state to_json cur =
     map_err (\<lambda>e. RuntimeRpcError [Lit ''encode result cursor: '', Str e]) (to_json cur)"

definition decode_result_state ::
  "(bytes \<Rightarrow> (string, result_cursor) result) \<Rightarrow> bytes \<Rightarrow> (rpc_error, result_cursor) result" where
  "decode_result_state from_json bs =
     map_err (\<lambda>e. ProtocolRpcError [Lit ''decode result cursor: '', Str e]) (from_json bs)"

subsection \<open>Reading a result\<close>

definition read_result_init ::
  "('c, 's, 'k, 'r, 'sch, 'x, 'w, 'f) service \<Rightarrow> 'f ambient \<Rightarrow> request \<Rightarrow> call_context \<Rightarrow>
   (('c, 's, 'k, 'r, 'sch, 'w) service_manager, rpc_error, 'sch \<times> result_cursor) step" where
  "read_result_init E a req ctx =
     on_session E a req ctx (\<lambda>sid.
     arg req ''result_id'' (\<lambda>hid.
     st_bind (proto (int64_value (batch req) ''sequence'')) (\<lambda>sequence.
     st_bind (adbc (sv_lib E) (result_schema (a_outcome a 0) hid)) (\<lambda>sch.
     ret (Inr (sch, \<lparr>cu_session_id = sid, cu_result_id = hid, cu_sequence = sequence\<rparr>))))))"

definition produce ::
  "'o collector \<Rightarrow> ('c, 's, 'k, 'r, 'sch, 'x, 'w, 'f) service \<Rightarrow> 'f ambient \<Rightarrow> call_context \<Rightarrow>
   result_cursor \<times> 'o \<Rightarrow> ('c, 's, 'k, 'r, 'sch, 'w) service_manager \<Rightarrow>
   (rpc_error, unit) result \<times> (result_cursor \<times> 'o) \<times> ('c, 's, 'k, 'r, 'sch, 'w) service_manager" where
  "produce C E a ctx st m =
     (case st of (cur, out) \<Rightarrow>
        (case on_session_id E a (cu_session_id cur) ctx
                (adbc (sv_lib E)
                   (next_result (sv_ops E) (a_outcome a 0) (cu_result_id cur) (cu_sequence cur))) m of
           (Inl e, m') \<Rightarrow> (Inl e, (cur, out), m')
         | (Inr None, m') \<Rightarrow> (Inr (), (cur, finish_output C out), m')
         | (Inr (Some b), m') \<Rightarrow>
             (case emit C b out of
                Inl e \<Rightarrow> (Inl e, (cur, out), m')
              | Inr out' \<Rightarrow> (Inr (), (cur\<lparr>cu_sequence := cu_sequence cur + 1\<rparr>, out'), m'))))"

definition cancel_read ::
  "('c, 's, 'k, 'r, 'sch, 'x, 'w, 'f) service \<Rightarrow> 'f ambient \<Rightarrow> call_context \<Rightarrow> result_cursor \<Rightarrow>
   ('c, 's, 'k, 'r, 'sch, 'w) service_manager \<Rightarrow> ('c, 's, 'k, 'r, 'sch, 'w) service_manager" where
  "cancel_read E a ctx cur m =
     snd (on_session_id E a (cu_session_id cur) ctx
       (adbc (sv_lib E) (close_result (a_outcome a 0) (cu_result_id cur))) m)"

subsection \<open>Binding\<close>

definition bind_init ::
  "('c, 's, 'k, 'r, 'sch, 'x, 'w, 'f) service \<Rightarrow> bind_mode \<Rightarrow> 'f ambient \<Rightarrow> request \<Rightarrow> call_context \<Rightarrow>
   (('c, 's, 'k, 'r, 'sch, 'w) service_manager, rpc_error, bind_cursor) step" where
  "bind_init E mode a req ctx =
     on_session E a req ctx (\<lambda>sid.
     arg req ''statement_id'' (\<lambda>hid.
     st_bind (ret (binary_arg req ''schema_ipc'')) (\<lambda>bs.
     st_bind (proto (decode_schema (sv_lib E) bs)) (\<lambda>sch.
     st_bind (adbc (sv_lib E)
       (start_bind_upload (a_uuid a) hid mode
          (upload_start (a_spawn a) (a_tempfile a) (sv_writer E sch)) (sv_max_bind_bytes E))) (\<lambda>uid.
     ret (Inr \<lparr>bc_session_id = sid, bc_upload_id = uid, bc_max_bytes = sv_max_bind_bytes E\<rparr>))))))"

definition turn_limit :: "bind_cursor \<Rightarrow> nat" where
  "turn_limit cur = min (bc_max_bytes cur) max_control_bytes"

text \<open>One turn on the session: \<open>True\<close> when it finished the upload.\<close>

definition bind_turn ::
  "('c, 's, 'k, 'r, 'sch, 'x, 'w, 'f) service \<Rightarrow> 'f ambient \<Rightarrow> bind_cursor \<Rightarrow> record_batch \<Rightarrow>
   (('c, 's, 'k, 'r, 'sch, 'w) service_session, rpc_error, bool) step" where
  "bind_turn E a cur input s =
     (case decode_bind_turn (l_ipc (sv_lib E)) input (turn_limit cur) of
        Inl e \<Rightarrow> (Inl (protocol_rpc_error e), cancel_bind_upload (bc_upload_id cur) s)
      | Inr (Some b) \<Rightarrow>
          (case push_bind_upload (sv_stream E) (bc_upload_id cur) b s of
             (Inl e, s') \<Rightarrow> (Inl (adbc_rpc_error (sv_lib E) e), cancel_bind_upload (bc_upload_id cur) s')
           | (Inr _, s') \<Rightarrow> (Inr False, s'))
      | Inr None \<Rightarrow>
          (case finish_bind_upload (sv_stream E) (sv_ops E) (a_outcome a 0) (bc_upload_id cur) s of
             (Inl e, s') \<Rightarrow> (Inl (adbc_rpc_error (sv_lib E) e), s')
           | (Inr _, s') \<Rightarrow> (Inr True, s')))"

definition exchange ::
  "'o collector \<Rightarrow> ('c, 's, 'k, 'r, 'sch, 'x, 'w, 'f) service \<Rightarrow> 'f ambient \<Rightarrow> call_context \<Rightarrow>
   bind_cursor \<Rightarrow> record_batch \<Rightarrow> 'o \<Rightarrow> ('c, 's, 'k, 'r, 'sch, 'w) service_manager \<Rightarrow>
   (rpc_error, unit) result \<times> 'o \<times> ('c, 's, 'k, 'r, 'sch, 'w) service_manager" where
  "exchange C E a ctx cur input out m =
     (case on_session_id E a (bc_session_id cur) ctx (bind_turn E a cur input) m of
        (Inl e, m') \<Rightarrow> (Inl e, out, m')
      | (Inr fin, m') \<Rightarrow>
          (case emit C bind_ack out of
             Inl e \<Rightarrow> (Inl e, out, m')
           | Inr out' \<Rightarrow> (Inr (), if fin then finish_output C out' else out', m')))"

definition cancel_bind ::
  "('c, 's, 'k, 'r, 'sch, 'x, 'w, 'f) service \<Rightarrow> 'f ambient \<Rightarrow> call_context \<Rightarrow> bind_cursor \<Rightarrow>
   ('c, 's, 'k, 'r, 'sch, 'w) service_manager \<Rightarrow> ('c, 's, 'k, 'r, 'sch, 'w) service_manager" where
  "cancel_bind E a ctx cur m =
     snd (on_session_id E a (bc_session_id cur) ctx
       (\<lambda>s. (Inr (), cancel_bind_upload (bc_upload_id cur) s)) m)"

subsection \<open>Streams as runs of the manager\<close>

lemma walk_bind_turn:
  "(session_step (sv_ops E) (sv_stream E))\<^sup>*\<^sup>* s (snd (bind_turn E a cur input s))"
proof -
  have pushed: "(session_step (sv_ops E) (sv_stream E))\<^sup>*\<^sup>* s s'"
    if "push_bind_upload (sv_stream E) uid b s = (r, s')" for uid b r s'
    using walk_operations(11) [of "sv_ops E" "sv_stream E" s uid b] that by simp
  have cancelled: "(session_step (sv_ops E) (sv_stream E))\<^sup>*\<^sup>* s (cancel_bind_upload uid' s')"
    if "push_bind_upload (sv_stream E) uid b s = (r, s')" for uid b r s' uid'
    by (rule session_walk.chains [OF pushed [OF that] walk_operations(13)])
  have finished: "(session_step (sv_ops E) (sv_stream E))\<^sup>*\<^sup>* s s'"
    if "finish_bind_upload (sv_stream E) (sv_ops E) oc uid s = (r, s')" for oc uid r s'
    using walk_operations(12) [of "sv_ops E" "sv_stream E" s oc uid] that by simp
  show ?thesis
    by (auto simp: bind_turn_def split: sum.split option.split prod.split
        intro: pushed cancelled finished walk_operations(13))
qed

lemma runs_produce: "runs (sv_ops E) (sv_stream E) (sv_mc E) m (snd (snd (produce C E a ctx st m)))"
proof -
  obtain cur out where st: "st = (cur, out)" by fastforce
  have "runs (sv_ops E) (sv_stream E) (sv_mc E) m
      (snd (on_session_id E a (cu_session_id cur) ctx (adbc (sv_lib E)
         (next_result (sv_ops E) (a_outcome a 0) (cu_result_id cur) (cu_sequence cur))) m))"
    by (rule runs_on_session_id) (rule session_walk.keeps_adbc [OF walk_operations(8)])
  then show ?thesis
    by (auto simp: produce_def st split: prod.splits sum.splits option.splits)
qed

lemma runs_exchange:
  "runs (sv_ops E) (sv_stream E) (sv_mc E) m (snd (snd (exchange C E a ctx cur input out m)))"
proof -
  have "runs (sv_ops E) (sv_stream E) (sv_mc E) m
      (snd (on_session_id E a (bc_session_id cur) ctx (bind_turn E a cur input) m))"
    by (rule runs_on_session_id) (rule walk_bind_turn)
  then show ?thesis
    by (auto simp: exchange_def split: prod.splits sum.splits)
qed

subsection \<open>A call on a live session\<close>

lemma live_get:
  assumes "\<not> poisoned (registry m)" and "hm_get (sessions (inner (registry m))) sid = Some s"
    and "\<not> poisoned (last_used s)" and "elapsed now (inner (last_used s)) \<le> mc_ttl mc"
  shows "manager_get mc now sid (s_principal s) m =
    (let s' = s\<lparr>last_used := store (last_used s) now\<rparr>
     in (Inr s', (put_session sid s' m)\<lparr>held := (held m)(sid := held m sid + 1)\<rparr>))"
  using assms by (simp add: manager_get_def locked_def lookup_job_def lock_def Let_def put_session_def)

lemma live_use:
  "use_session body (s1, sid) ((put_session sid s1 m)\<lparr>held := (held m)(sid := held m sid + 1)\<rparr>) =
     (case body s1 of (r, s') \<Rightarrow> (r, put_session sid s' m))"
  by (simp add: use_session_def give_back_eq put_session_def hm_insert_twice case_prod_beta)

lemma live_call:
  assumes "caller E ctx = Inr who" and "\<not> poisoned (registry m)"
    and "hm_get (sessions (inner (registry m))) sid = Some s" and "s_principal s = who"
    and "\<not> poisoned (last_used s)" and "elapsed (a_now a) (inner (last_used s)) \<le> mc_ttl (sv_mc E)"
  shows "on_session_id E a sid ctx body m =
    (case body (s\<lparr>last_used := store (last_used s) (a_now a)\<rparr>) of (r, s') \<Rightarrow> (r, put_session sid s' m))"
  using assms(1,4) live_get [OF assms(2,3,5,6)] live_use [of body _ sid m]
  by (simp add: on_session_id_def session_by_id_def st_bind_def ret_def adbc_def Let_def)

lemma live_request:
  assumes "validate_protocol_version req = Inr ()" and "string_arg req ''session_id'' = Inr sid"
    and "caller E ctx = Inr who" and "\<not> poisoned (registry m)"
    and "hm_get (sessions (inner (registry m))) sid = Some s" and "s_principal s = who"
    and "\<not> poisoned (last_used s)" and "elapsed (a_now a) (inner (last_used s)) \<le> mc_ttl (sv_mc E)"
  shows "on_session E a req ctx body m =
    (case body sid (s\<lparr>last_used := store (last_used s) (a_now a)\<rparr>) of (r, s') \<Rightarrow> (r, put_session sid s' m))"
  using assms(1-3,6) live_get [OF assms(4,5,7,8)] live_use [of "body sid" _ sid m]
  by (simp add: on_session_def get_session_def st_bind_def ret_def adbc_def Let_def)

subsection \<open>Delivering a result\<close>

text \<open>
  A client reads a result turn by turn. In a turn the output may refuse the batch (the response is
  lost); the cursor then stays and the next turn asks again.
\<close>

definition lossy :: "bool \<Rightarrow> (record_batch list \<times> bool) collector" where
  "lossy accepts =
     \<lparr>emit = (\<lambda>b (bs, fin). if accepts then Inr (bs @ [b], fin)
        else Inl (RuntimeRpcError [Lit ''output refused''])),
      finish_output = (\<lambda>(bs, fin). (bs, True))\<rparr>"

fun pump ::
  "('c, 's, 'k, 'r, 'sch, 'x, 'w, 'f) service \<Rightarrow> call_context \<Rightarrow> ('f ambient \<times> bool) list \<Rightarrow>
   result_cursor \<times> record_batch list \<times> bool \<Rightarrow> ('c, 's, 'k, 'r, 'sch, 'w) service_manager \<Rightarrow>
   (result_cursor \<times> record_batch list \<times> bool) \<times> ('c, 's, 'k, 'r, 'sch, 'w) service_manager" where
  "pump E ctx [] st m = (st, m)"
| "pump E ctx ((a, accepts) # turns) st m =
     (if snd (snd st) then (st, m)
      else (case produce (lossy accepts) E a ctx st m of (_, st', m') \<Rightarrow> pump E ctx turns st' m'))"

definition cursor_at ::
  "('r \<Rightarrow> 'b list) \<Rightarrow> 'b list \<Rightarrow> nat \<Rightarrow> ('r, 'b, 'sch) result_entry \<Rightarrow> bool" where
  "cursor_at contents bs j e \<longleftrightarrow>
     j \<le> length bs \<and> contents (reader e) = drop j bs \<and> next_sequence e = of_nat j
     \<and> terminal_error e = None \<and> \<not> finished e
     \<and> last_batch e = (if j = 0 then None else Some (of_nat (j - 1), bs ! (j - 1)))"

lemma word_pred_neq: "(of_nat (j - 1) :: i64) \<noteq> of_nat j" if "0 < j"
proof
  assume "(of_nat (j - 1) :: i64) = of_nat j"
  moreover have "(of_nat j :: i64) = of_nat (j - 1) + 1"
    using that by (metis Suc_diff_1 of_nat_Suc add.commute)
  ultimately show False by simp
qed

lemma next_new:
  assumes "reads D contents" and "cursor_at contents bs j e" and "j < length bs"
  obtains e' where "result_next fa (d_next D) (of_nat j) e = (Inr (Some (bs ! j)), e')"
    "cursor_at contents bs (Suc j) e'"
proof -
  have "contents (reader e) = bs ! j # drop (Suc j) bs"
    using assms(2,3) by (simp add: cursor_at_def Cons_nth_drop_Suc)
  then obtain rd where rd: "d_next D (reader e) = (Some (Inr (bs ! j)), rd)" "contents rd = drop (Suc j) bs"
    using assms(1) by (auto simp: reads_def dest!: spec [of _ "reader e"])
  let ?e = "e\<lparr>reader := rd, last_batch := Some (of_nat j, bs ! j), next_sequence := of_nat j + 1\<rparr>"
  have "result_next fa (d_next D) (of_nat j) e = (Inr (Some (bs ! j)), ?e)"
    using assms(2) rd word_pred_neq [of j] by (auto simp: result_next_def cursor_at_def)
  moreover have "cursor_at contents bs (Suc j) ?e"
    using assms(2,3) rd(2) by (simp add: cursor_at_def add.commute)
  ultimately show ?thesis by (rule that)
qed

lemma next_again:
  "cursor_at contents bs (Suc j) e \<Longrightarrow> result_next fa rnext (of_nat j) e = (Inr (Some (bs ! j)), e)"
  by (auto simp: result_next_def cursor_at_def)

lemma next_end:
  assumes "reads D contents" and "cursor_at contents bs (length bs) e"
  obtains e' where "result_next fa (d_next D) (of_nat (length bs)) e = (Inr None, e')"
proof -
  have "contents (reader e) = []" using assms(2) by (simp add: cursor_at_def)
  then have "fst (d_next D (reader e)) = None"
    using assms(1) by (auto simp: reads_def dest!: spec [of _ "reader e"])
  then obtain rd where "d_next D (reader e) = (None, rd)" by (cases "d_next D (reader e)") auto
  with assms(2) word_pred_neq [of "length bs"] that show ?thesis
    by (auto simp: result_next_def cursor_at_def split: if_splits)
qed

lemma next_either:
  assumes "reads D contents"
    and "cursor_at contents bs i e \<or> i < length bs \<and> cursor_at contents bs (Suc i) e"
    and "i \<le> length bs"
  obtains e' where
    "result_next fa (d_next D) (of_nat i) e = (Inr (if i < length bs then Some (bs ! i) else None), e')"
    "i < length bs \<longrightarrow> cursor_at contents bs (Suc i) e'"
  using assms(2)
proof
  assume here: "cursor_at contents bs i e"
  show thesis
  proof (cases "i < length bs")
    case True
    obtain e' where "result_next fa (d_next D) (of_nat i) e = (Inr (Some (bs ! i)), e')"
      "cursor_at contents bs (Suc i) e'"
      by (rule next_new [OF assms(1) here True])
    with True that show thesis by simp
  next
    case False
    with assms(3) here have end_at: "i = length bs" "cursor_at contents bs (length bs) e" by auto
    obtain e' where "result_next fa (d_next D) (of_nat (length bs)) e = (Inr None, e')"
      by (rule next_end [OF assms(1) end_at(2)])
    with end_at(1) that show thesis by simp
  qed
next
  assume again: "i < length bs \<and> cursor_at contents bs (Suc i) e"
  with next_again [of contents bs i e fa "d_next D"] that [of e] show thesis by simp
qed

text \<open>The result is being read at position \<open>i\<close>: its batch was pulled already, or is the next one.\<close>

definition streaming ::
  "string \<Rightarrow> string \<Rightarrow> string \<Rightarrow> ('r \<Rightarrow> 'b list) \<Rightarrow> 'b list \<Rightarrow> nat \<Rightarrow> nat \<Rightarrow>
   ('c, 's, 'k, 'r, 'b, 'sch, 'w) session manager \<Rightarrow> bool" where
  "streaming who sid rid contents bs i t m \<longleftrightarrow>
     \<not> poisoned (registry m)
     \<and> (\<exists>s e. hm_get (sessions (inner (registry m))) sid = Some s \<and> s_principal s = who
          \<and> last_used s = fresh_mutex t \<and> \<not> poisoned (results s)
          \<and> hm_get (inner (results s)) rid = Some (fresh_mutex e)
          \<and> (cursor_at contents bs i e \<or> i < length bs \<and> cursor_at contents bs (Suc i) e))"

text \<open>One request for position \<open>i\<close> while the result is read there.\<close>

lemma next_turn:
  assumes reads: "reads (sv_ops E) contents" and who: "caller E ctx = Inr who"
    and live: "streaming who sid rid contents bs i t m" and "i \<le> length bs"
    and prompt: "elapsed (a_now a) t \<le> mc_ttl (sv_mc E)" and done_call: "a_outcome a 0 = Completed"
  obtains m' where
    "on_session_id E a sid ctx (adbc (sv_lib E)
       (next_result (sv_ops E) (a_outcome a 0) rid (of_nat i))) m =
       (Inr (if i < length bs then Some (bs ! i) else None), m')"
    "i < length bs \<longrightarrow> streaming who sid rid contents bs i (a_now a) m'
       \<and> streaming who sid rid contents bs (Suc i) (a_now a) m'"
proof -
  obtain s e where s: "hm_get (sessions (inner (registry m))) sid = Some s" "s_principal s = who"
    "last_used s = fresh_mutex t" "\<not> poisoned (results s)"
    "hm_get (inner (results s)) rid = Some (fresh_mutex e)"
    and at: "cursor_at contents bs i e \<or> i < length bs \<and> cursor_at contents bs (Suc i) e"
    and reg: "\<not> poisoned (registry m)"
    using live by (auto simp: streaming_def)
  let ?fa = "d_from_arrow (sv_ops E)" and ?nx = "d_next (sv_ops E)"
  obtain e' where e': "result_next ?fa ?nx (of_nat i) e = (Inr (if i < length bs then Some (bs ! i) else None), e')"
    and at': "i < length bs \<longrightarrow> cursor_at contents bs (Suc i) e'"
    by (rule next_either [OF reads at \<open>i \<le> length bs\<close>])
  let ?s = "s\<lparr>last_used := store (last_used s) (a_now a)\<rparr>"
  let ?s' = "put_results (store (results s) (hm_insert rid (fresh_mutex e') (inner (results s)))) ?s"
  have "adbc (sv_lib E) (next_result (sv_ops E) (a_outcome a 0) rid (of_nat i)) ?s =
      (Inr (if i < length bs then Some (bs ! i) else None), ?s')"
    using s(4,5) e'
    by (simp add: adbc_def next_result_def done_call worker_call_def locked_def result_job_def)
  moreover have "elapsed (a_now a) (inner (last_used s)) \<le> mc_ttl (sv_mc E)" "\<not> poisoned (last_used s)"
    using prompt s(3) by simp_all
  ultimately have "on_session_id E a sid ctx (adbc (sv_lib E)
       (next_result (sv_ops E) (a_outcome a 0) rid (of_nat i))) m =
       (Inr (if i < length bs then Some (bs ! i) else None), put_session sid ?s' m)"
    by (subst live_call [OF who reg s(1,2)]) simp_all
  moreover have "i < length bs \<longrightarrow> streaming who sid rid contents bs i (a_now a) (put_session sid ?s' m)
       \<and> streaming who sid rid contents bs (Suc i) (a_now a) (put_session sid ?s' m)"
    using at' s reg by (auto simp: streaming_def put_session_def)
  ultimately show thesis by (rule that)
qed

fun prompt_turns :: "nat \<Rightarrow> nat \<Rightarrow> ('f ambient \<times> bool) list \<Rightarrow> bool" where
  "prompt_turns ttl t [] \<longleftrightarrow> True"
| "prompt_turns ttl t ((a, _) # turns) \<longleftrightarrow>
     elapsed (a_now a) t \<le> ttl \<and> a_outcome a 0 = Completed \<and> prompt_turns ttl (a_now a) turns"

lemma pump_done: "snd (snd st) \<Longrightarrow> fst (pump E ctx turns st m) = st"
  by (cases turns) auto

lemma pump_delivers:
  assumes "reads (sv_ops E) contents" and "caller E ctx = Inr who"
    and "streaming who (cu_session_id cur) (cu_result_id cur) contents bs i t m" and "i \<le> length bs"
    and "cu_sequence cur = of_nat i" and "prompt_turns (mc_ttl (sv_mc E)) t turns"
    and "length bs - i < length (filter snd turns)"
  shows "snd (fst (pump E ctx turns (cur, take i bs, False) m)) = (bs, True)"
  using assms(3-7)
proof (induction turns arbitrary: cur i t m)
  case Nil
  then show ?case by simp
next
  case (Cons turn turns)
  obtain a accepts where turn: "turn = (a, accepts)" by fastforce
  with Cons.prems(4) have now: "elapsed (a_now a) t \<le> mc_ttl (sv_mc E)" "a_outcome a 0 = Completed"
    and later: "prompt_turns (mc_ttl (sv_mc E)) (a_now a) turns" by simp_all
  obtain m' where call: "on_session_id E a (cu_session_id cur) ctx (adbc (sv_lib E)
       (next_result (sv_ops E) (a_outcome a 0) (cu_result_id cur) (of_nat i))) m =
       (Inr (if i < length bs then Some (bs ! i) else None), m')"
    and stays: "i < length bs \<longrightarrow>
       streaming who (cu_session_id cur) (cu_result_id cur) contents bs i (a_now a) m'
       \<and> streaming who (cu_session_id cur) (cu_result_id cur) contents bs (Suc i) (a_now a) m'"
    by (rule next_turn [OF assms(1,2) Cons.prems(1,2) now])
  show ?case
  proof (cases "i < length bs")
    case False
    with Cons.prems(2) call turn Cons.prems(3) show ?thesis
      by (simp add: produce_def lossy_def pump_done)
  next
    case True
    show ?thesis
    proof (cases accepts)
      case False
      with True call turn Cons.prems(3) have "pump E ctx (turn # turns) (cur, take i bs, False) m =
          pump E ctx turns (cur, take i bs, False) m'"
        by (simp add: produce_def lossy_def)
      moreover have "length bs - i < length (filter snd turns)"
        using Cons.prems(5) turn False by simp
      ultimately show ?thesis
        using Cons.IH [of cur i "a_now a" m'] stays True Cons.prems(2,3) later by simp
    next
      case accepted: True
      let ?cur = "cur\<lparr>cu_sequence := cu_sequence cur + 1\<rparr>"
      from True accepted call turn Cons.prems(3) have "pump E ctx (turn # turns) (cur, take i bs, False) m =
          pump E ctx turns (?cur, take (Suc i) bs, False) m'"
        by (simp add: produce_def lossy_def take_Suc_conv_app_nth)
      moreover have "length bs - Suc i < length (filter snd turns)"
        using Cons.prems(5) turn accepted True by simp
      ultimately show ?thesis
        using Cons.IH [of ?cur "Suc i" "a_now a" m'] stays True True Cons.prems(3) later
        by (simp add: add.commute)
    qed
  qed
qed

text \<open>
  C36: reading a result delivers every batch once and in order, whatever is lost on the way. A
  client that reads a fresh result of a live session of its own, turn by turn and each turn within
  the lease of the one before, ends with exactly the batches of the driver's reader and the end of
  the stream, provided the turns whose output is accepted outnumber the batches; turns whose output
  is refused only repeat the batch.
\<close>

theorem read_result_delivers_everything:
  assumes "reads (sv_ops E) contents" and "caller E ctx = Inr who" and "\<not> poisoned (registry m)"
    and "hm_get (sessions (inner (registry m))) sid = Some s" and "s_principal s = who"
    and "last_used s = fresh_mutex t" and "\<not> poisoned (results s)"
    and "hm_get (inner (results s)) rid = Some (fresh_mutex (fresh_result owner rd sch))"
    and "prompt_turns (mc_ttl (sv_mc E)) t turns"
    and "length (contents rd) < length (filter snd turns)"
  shows "snd (fst (pump E ctx turns
      (\<lparr>cu_session_id = sid, cu_result_id = rid, cu_sequence = 0\<rparr>, [], False) m)) = (contents rd, True)"
proof -
  let ?cur = "\<lparr>cu_session_id = sid, cu_result_id = rid, cu_sequence = 0\<rparr>"
  have "cursor_at contents (contents rd) 0 (fresh_result owner rd sch)"
    by (simp add: cursor_at_def fresh_result_def)
  with assms(3-8) have "streaming who (cu_session_id ?cur) (cu_result_id ?cur) contents (contents rd) 0 t m"
    by (auto simp: streaming_def)
  from pump_delivers [OF assms(1,2) this _ _ assms(9)] assms(10) show ?thesis by simp
qed

definition reading_session ::
  "(nat, record_batch list, nat, record_batch list, nat, record_batch list counting_file) service_session"
  where
  "reading_session =
     live_session\<lparr>results :=
       fresh_mutex [(''r1'', fresh_mutex (fresh_result None [demo_batch [1], demo_batch [2]] 2))]\<rparr>"

definition reading_manager ::
  "(nat, record_batch list, nat, record_batch list, nat, record_batch list counting_file) service_manager"
  where
  "reading_manager =
     live_manager\<lparr>registry := fresh_mutex \<lparr>sessions = [(''s1'', reading_session)],
        opening_total = 0, opening_by_principal = []\<rparr>\<rparr>"

lemma list_reads: "reads list_ops (\<lambda>rd. rd)"
  by (auto simp: reads_def list_ops_def split: list.split)

theorem read_result_delivers_everything_witness:
  "snd (fst (pump list_service alice
       [(calm ''x'', False), (calm ''x'', True), (calm ''x'', False), (calm ''x'', True), (calm ''x'', True)]
       (\<lparr>cu_session_id = ''s1'', cu_result_id = ''r1'', cu_sequence = 0\<rparr>, [], False) reading_manager))
   = ([demo_batch [1], demo_batch [2]], True)"
proof (rule read_result_delivers_everything [where contents = "\<lambda>rd. rd" and owner = None and sch = 2
      and t = 5 and s = reading_session])
  show "reads (sv_ops list_service) (\<lambda>rd. rd)" using list_reads by (simp add: list_service_def)
  show "caller list_service alice = Inr alice_name" by (rule list_caller)
qed (simp_all add: reading_manager_def reading_session_def live_manager_def live_session_def new_session_def calm_def
    elapsed_def list_service_def demo_mc_def)

subsection \<open>A bind exchange\<close>

text \<open>The lease of a session does not matter for its uploads.\<close>

lemma push_lease:
  "push_bind_upload A hid b (s\<lparr>last_used := l\<rparr>) =
     (fst (push_bind_upload A hid b s), (snd (push_bind_upload A hid b s))\<lparr>last_used := l\<rparr>)"
  by (cases "hm_get (inner (bind_uploads s)) hid")
    (simp_all add: push_bind_upload_def locked_def case_prod_beta)

lemma pushes_lease:
  "session_pushes A hid bs (s\<lparr>last_used := l\<rparr>) =
     (fst (session_pushes A hid bs s), (snd (session_pushes A hid bs s))\<lparr>last_used := l\<rparr>)"
  by (induction bs arbitrary: s) (simp_all add: push_lease case_prod_beta Let_def)

lemma with_statement_lease:
  "with_statement oc hid f (s\<lparr>last_used := l\<rparr>) =
     (fst (with_statement oc hid f s), (snd (with_statement oc hid f s))\<lparr>last_used := l\<rparr>)"
  by (simp add: with_statement_def worker_call_def locked_def case_prod_beta split: call_outcome.split)

lemma take_lease:
  "take_bind_upload hid (s\<lparr>last_used := l\<rparr>) =
     (fst (take_bind_upload hid s), (snd (take_bind_upload hid s))\<lparr>last_used := l\<rparr>)"
  by (cases "hm_get (inner (bind_uploads s)) hid")
    (simp_all add: take_bind_upload_def locked_def case_prod_beta)

lemma finish_lease:
  "finish_bind_upload A D oc hid (s\<lparr>last_used := l\<rparr>) =
     (fst (finish_bind_upload A D oc hid s), (snd (finish_bind_upload A D oc hid s))\<lparr>last_used := l\<rparr>)"
  by (cases "take_bind_upload hid s"; cases "fst (take_bind_upload hid s)")
    (auto simp: finish_bind_upload_def st_bind_def take_lease with_statement_lease
      split: sum.split bind_mode.split)

lemma manager_get_Inr:
  assumes "manager_get mc now sid who m = (Inr s', m')"
  obtains s l where "hm_get (sessions (inner (registry m))) sid = Some s" "s' = s\<lparr>last_used := l\<rparr>"
proof -
  from assms obtain m1 where "with_registry (lookup_job mc now (held m) sid who) m = (Inr s', m1)"
    by (auto simp: manager_get_def split: prod.splits sum.splits)
  then show ?thesis
    by (elim with_registry_cases lookup_job_cases) (auto intro: that)
qed

lemma use_session_Inr:
  assumes "use_session body (s, sid) m = (Inr v, m')"
  obtains s' where "body s = (Inr v, s')" "hm_get (sessions (inner (registry m'))) sid = Some s'"
  using assms by (auto simp: use_session_def give_back_eq split: prod.splits)

lemma on_session_id_Inr:
  assumes "on_session_id E a sid ctx body m = (Inr v, m')"
  obtains s l s' where "hm_get (sessions (inner (registry m))) sid = Some s"
    "body (s\<lparr>last_used := l\<rparr>) = (Inr v, s')" "hm_get (sessions (inner (registry m'))) sid = Some s'"
proof -
  from assms obtain s1 m1 where got: "session_by_id E a sid ctx m = (Inr s1, m1)"
    and used: "use_session body (s1, sid) m1 = (Inr v, m')"
    unfolding on_session_id_def by (auto elim: st_bind_Inr)
  from got obtain who where "manager_get (sv_mc E) (a_now a) sid who m = (Inr s1, m1)"
    by (cases rule: session_by_id_cases) (auto simp: map_err_def split: sum.splits)
  then obtain s l where "hm_get (sessions (inner (registry m))) sid = Some s" "s1 = s\<lparr>last_used := l\<rparr>"
    by (rule manager_get_Inr)
  with used that show ?thesis by (auto elim: use_session_Inr)
qed

lemma on_session_Inr:
  assumes "on_session E a req ctx body m = (Inr v, m')"
  obtains sid s l s' where "string_arg req ''session_id'' = Inr sid"
    "hm_get (sessions (inner (registry m))) sid = Some s"
    "body sid (s\<lparr>last_used := l\<rparr>) = (Inr v, s')" "hm_get (sessions (inner (registry m'))) sid = Some s'"
proof -
  from assms obtain h m1 where got: "get_session E a req ctx m = (Inr h, m1)"
    and used: "use_session (body (snd h)) h m1 = (Inr v, m')"
    unfolding on_session_def by (auto elim: st_bind_Inr)
  from got obtain who sid s1 where s1: "manager_get (sv_mc E) (a_now a) sid who m = (Inr s1, m1)"
    "h = (s1, sid)" "string_arg req ''session_id'' = Inr sid"
    by (cases rule: get_session_cases) (auto split: sum.splits)
  from s1(1) obtain s l where "hm_get (sessions (inner (registry m))) sid = Some s" "s1 = s\<lparr>last_used := l\<rparr>"
    by (rule manager_get_Inr)
  with used that s1 show ?thesis by (auto elim: use_session_Inr)
qed

text \<open>The turns of an exchange, up to the first that fails.\<close>

fun exchanges ::
  "'o collector \<Rightarrow> ('c, 's, 'k, 'r, 'sch, 'x, 'w, 'f) service \<Rightarrow> call_context \<Rightarrow> bind_cursor \<Rightarrow>
   ('f ambient \<times> record_batch) list \<Rightarrow> 'o \<Rightarrow> ('c, 's, 'k, 'r, 'sch, 'w) service_manager \<Rightarrow>
   (rpc_error, unit) result \<times> 'o \<times> ('c, 's, 'k, 'r, 'sch, 'w) service_manager" where
  "exchanges C E ctx cur [] out m = (Inr (), out, m)"
| "exchanges C E ctx cur ((a, input) # turns) out m =
     (case exchange C E a ctx cur input out m of
        (Inl e, out', m') \<Rightarrow> (Inl e, out', m')
      | (Inr _, out', m') \<Rightarrow> exchanges C E ctx cur turns out' m')"

lemma exchange_Inr:
  assumes "exchange C E a ctx cur input out m = (Inr (), out', m')"
  obtains fin s l s' where "hm_get (sessions (inner (registry m))) (bc_session_id cur) = Some s"
    "bind_turn E a cur input (s\<lparr>last_used := l\<rparr>) = (Inr fin, s')"
    "hm_get (sessions (inner (registry m'))) (bc_session_id cur) = Some s'"
  using assms by (auto simp: exchange_def split: prod.splits sum.splits elim!: on_session_id_Inr)

lemma exchanges_push:
  assumes "exchanges C E ctx cur turns out m = (Inr (), out', m')"
    and "list_all2 (\<lambda>b turn. decode_bind_turn (l_ipc (sv_lib E)) (snd turn) (turn_limit cur) = Inr (Some b))
      bs turns"
    and "hm_get (sessions (inner (registry m))) (bc_session_id cur) = Some s"
  shows "\<exists>acks s2 l. session_pushes (sv_stream E) (bc_upload_id cur) bs s = (acks, s2)
    \<and> hm_get (sessions (inner (registry m'))) (bc_session_id cur) = Some (s2\<lparr>last_used := l\<rparr>)"
  using assms
proof (induction turns arbitrary: bs out m s)
  case Nil
  then show ?case by (auto intro!: exI [of _ "last_used s"])
next
  case (Cons turn turns)
  obtain a input where turn: "turn = (a, input)" by fastforce
  obtain b bs' where bs: "bs = b # bs'"
    and dec: "decode_bind_turn (l_ipc (sv_lib E)) input (turn_limit cur) = Inr (Some b)"
    and rest: "list_all2 (\<lambda>b turn. decode_bind_turn (l_ipc (sv_lib E)) (snd turn) (turn_limit cur) = Inr (Some b))
      bs' turns"
    using Cons.prems(2) turn by (auto simp: list_all2_Cons2)
  obtain out1 m1 where first: "exchange C E a ctx cur input out m = (Inr (), out1, m1)"
    and later: "exchanges C E ctx cur turns out1 m1 = (Inr (), out', m')"
    using Cons.prems(1) turn by (auto split: prod.splits sum.splits)
  from first obtain fin l s' where body: "bind_turn E a cur input (s\<lparr>last_used := l\<rparr>) = (Inr fin, s')"
    and s': "hm_get (sessions (inner (registry m1))) (bc_session_id cur) = Some s'"
    using Cons.prems(3) by (auto elim!: exchange_Inr)
  let ?s1 = "snd (push_bind_upload (sv_stream E) (bc_upload_id cur) b s)"
  have "s' = ?s1\<lparr>last_used := l\<rparr>"
    using body dec by (auto simp: bind_turn_def push_lease split: sum.splits)
  with s' Cons.IH [OF later rest, of s'] show ?case
    by (auto simp: bs pushes_lease case_prod_beta Let_def)
qed

lemma exchanges_append:
  "exchanges C E ctx cur (ts @ us) out m =
     (case exchanges C E ctx cur ts out m of
        (Inl e, out', m') \<Rightarrow> (Inl e, out', m')
      | (Inr _, out', m') \<Rightarrow> exchanges C E ctx cur us out' m')"
  by (induction C E ctx cur ts out m rule: exchanges.induct) (auto split: prod.split sum.split)

lemma bind_init_Inr:
  assumes "bind_init E mode a req ctx m = (Inr cur, m')"
  obtains s l s' hid bs sch where "hm_get (sessions (inner (registry m))) (bc_session_id cur) = Some s"
    "string_arg req ''statement_id'' = Inr hid" "binary_arg req ''schema_ipc'' = Inr bs"
    "decode_schema (sv_lib E) bs = Inr sch"
    "start_bind_upload (a_uuid a) hid mode (upload_start (a_spawn a) (a_tempfile a) (sv_writer E sch))
       (sv_max_bind_bytes E) (s\<lparr>last_used := l\<rparr>) = (Inr (bc_upload_id cur), s')"
    "hm_get (sessions (inner (registry m'))) (bc_session_id cur) = Some s'"
    "string_arg req ''session_id'' = Inr (bc_session_id cur)" "bc_max_bytes cur = sv_max_bind_bytes E"
  using assms unfolding bind_init_def
  by (elim on_session_Inr)
    (auto simp: st_bind_def arg_def ret_def proto_def adbc_def map_err_def
      split: prod.splits sum.splits intro: that)

text \<open>The law of the staging file: what is written to it in Arrow's stream format is read back.\<close>

definition stages ::
  "('c, 's, 'k, 'r, 'sch, 'x, 'w, 'f) service \<Rightarrow> ('r \<Rightarrow> record_batch list) \<Rightarrow> (string, 'f) result \<Rightarrow> bool" where
  "stages E contents tempfile \<longleftrightarrow>
     (\<forall>sch w0. run_open tempfile (sv_writer E sch) = Staging w0 0 None \<longrightarrow>
        stream_round_trips (sv_stream E) w0 contents)"

lemma bind_exchange_delivers:
  assumes arrow_round_trip: "stages E contents (a_tempfile a)"
    and reader_law: "reads (sv_ops E) contents"
    and spawned: "a_spawn a = Inr ()"
    and opened: "bind_init E mode a req ctx m = (Inr cur, m1)"
    and sent: "map (\<lambda>turn. decode_bind_turn (l_ipc (sv_lib E)) (snd turn) (turn_limit cur)) turns
      = map (\<lambda>b. Inr (Some b)) bs @ [Inr None]"
    and answered: "exchanges C E ctx cur turns out m1 = (Inr (), out', m2)"
  shows "\<exists>s0 s hid entry st'.
      string_arg req ''statement_id'' = Inr hid
    \<and> hm_get (sessions (inner (registry m))) (bc_session_id cur) = Some s0
    \<and> hm_get (inner (statements s0)) hid = Some entry
    \<and> hm_get (sessions (inner (registry m2))) (bc_session_id cur) = Some s
    \<and> hm_get (inner (bind_uploads s)) (bc_upload_id cur) = None
    \<and> hm_get (inner (statements s)) hid = Some (entry\<lparr>statement := store (statement entry) st'\<rparr>)
    \<and> (case mode of
         StreamMode \<Rightarrow> (\<exists>rd. contents rd = bs
           \<and> d_bind_stream (sv_ops E) rd (inner (statement entry)) = (Inr (), st'))
       | BatchMode \<Rightarrow> (\<exists>b. bs = [b] \<and> d_bind (sv_ops E) b (inner (statement entry)) = (Inr (), st')))"
proof -
  let ?uid = "bc_upload_id cur" and ?sid = "bc_session_id cur"
  let ?dec = "\<lambda>turn. decode_bind_turn (l_ipc (sv_lib E)) (snd turn) (turn_limit cur)"
  obtain ts a' fin where turns: "turns = ts @ [(a', fin)]" and ts: "map ?dec ts = map (\<lambda>b. Inr (Some b)) bs"
    and fin: "?dec (a', fin) = Inr None"
    using sent by (auto simp: map_eq_append_conv map_eq_Cons_conv)
  from opened obtain s0 l0 s1 hid sch where s0: "hm_get (sessions (inner (registry m))) ?sid = Some s0"
    and hid: "string_arg req ''statement_id'' = Inr hid"
    and start: "start_bind_upload (a_uuid a) hid mode
       (upload_start (Inr ()) (a_tempfile a) (sv_writer E sch)) (sv_max_bind_bytes E) (s0\<lparr>last_used := l0\<rparr>)
         = (Inr ?uid, s1)"
    and s1: "hm_get (sessions (inner (registry m1))) ?sid = Some s1"
    using spawned by (auto elim!: bind_init_Inr)
  obtain out1 m' where pushes: "exchanges C E ctx cur ts out m1 = (Inr (), out1, m')"
    and last: "exchange C E a' ctx cur fin out1 m' = (Inr (), out', m2)"
    using answered by (auto simp: turns exchanges_append split: prod.splits sum.splits)
  obtain acks s2 l where s2: "session_pushes (sv_stream E) ?uid bs s1 = (acks, s2)"
    "hm_get (sessions (inner (registry m'))) ?sid = Some (s2\<lparr>last_used := l\<rparr>)"
    using exchanges_push [OF pushes _ s1, of bs] ts
    by (auto simp: list_all2_conv_all_nth list_eq_iff_nth_eq)
  from last s2(2) obtain l' f s' where body: "bind_turn E a' cur fin (s2\<lparr>last_used := l'\<rparr>) = (Inr f, s')"
    and s': "hm_get (sessions (inner (registry m2))) ?sid = Some s'"
    by (elim exchange_Inr) auto
  obtain s3 where s3: "finish_bind_upload (sv_stream E) (sv_ops E) (a_outcome a' 0) ?uid s2 = (Inr (), s3)"
    and s'_eq: "s' = s3\<lparr>last_used := l'\<rparr>"
    using body fin by (auto simp: bind_turn_def finish_lease split: prod.splits sum.splits)
      (metis old.unit.exhaust prod.collapse)
  show ?thesis
    using bound_upload_delivers [OF _ reader_law start s2(1) s3] arrow_round_trip s0 hid s' s'_eq
    unfolding stages_def by fastforce
qed

subsection \<open>A statement being bound\<close>

definition binding_session ::
  "(nat, record_batch list, nat, record_batch list, nat, record_batch list counting_file) service_session"
  where
  "binding_session =
     live_session\<lparr>statements := fresh_mutex [(''st1'', \<lparr>statement = fresh_mutex [], cancel = 7\<rparr>)]\<rparr>"

definition binding_manager ::
  "(nat, record_batch list, nat, record_batch list, nat, record_batch list counting_file) service_manager"
  where
  "binding_manager =
     live_manager\<lparr>registry := fresh_mutex \<lparr>sessions = [(''s1'', binding_session)],
        opening_total = 0, opening_by_principal = []\<rparr>\<rparr>"

definition bind_request :: request where
  "bind_request =
     \<lparr>batch = \<lparr>schema_fields = [text_field ''session_id'', text_field ''statement_id'', binary_field ''schema_ipc''],
              columns = [StringArray [Some ''s1''], StringArray [Some ''st1''], BinaryArray [Some [3]]],
              num_rows = 1\<rparr>,
      metadata = [(''vgi_rpc.protocol_version'', ''0.4.0'')]\<rparr>"

definition list_cursor :: bind_cursor where
  "list_cursor = \<lparr>bc_session_id = ''s1'', bc_upload_id = ''u1'', bc_max_bytes = 100\<rparr>"

lemma list_stream_writes: "sw_writes list_stream bs c = Some c' \<Longrightarrow> cf_file c' = cf_file c @ bs"
  by (induction bs arbitrary: c) (auto simp: list_stream_def)

lemma list_stream_round_trips: "stream_round_trips list_stream \<lparr>cf_file = [], written = 0\<rparr> (\<lambda>rd. rd)"
  unfolding stream_round_trips_def
proof (intro allI impI)
  fix xs w' f f' rd
  assume w: "sw_writes list_stream xs \<lparr>cf_file = [], written = 0\<rparr> = Some w'"
    and "sw_into_inner list_stream w' = Inr f" "f_rewind list_stream f = Inr f'"
    "sr_try_new list_stream f' = Inr rd"
  then have "rd = cf_file w'" by (simp add: list_stream_def)
  with list_stream_writes [OF w] show "rd = xs" by simp
qed

lemma list_turn:
  "length x \<le> 70 \<Longrightarrow> decode_bind_turn list_ipc
     \<lparr>schema_fields = bind_turn_schema, columns = [BinaryArray [Some (packed x)], BooleanArray [Some False]],
      num_rows = 1\<rparr> 100 = Inr (Some (demo_batch x))"
  using batch_ipc_round_trip [OF list_ipc_round_trips, of 100 "demo_batch x" "packed x"] list_encode(1) [of x 100]
  by (simp add: list_buffers usize_max_def decode_bind_turn_def require_one_row_def binary_value_def
      column_by_name_def bind_turn_schema_def binary_field_def)

definition started_session ::
  "record_batch list \<Rightarrow>
   (nat, record_batch list, nat, record_batch list, nat, record_batch list counting_file) service_session"
  where
  "started_session bs =
     binding_session\<lparr>bind_uploads := fresh_mutex
        [(''u1'', \<lparr>bu_statement_id = ''st1'', bu_mode = StreamMode,
                   bu_upload = Staging \<lparr>cf_file = bs, written = length bs\<rparr> (length bs) None,
                   bu_max_bytes = 100\<rparr>)]\<rparr>"

definition started ::
  "record_batch list \<Rightarrow>
   (nat, record_batch list, nat, record_batch list, nat, record_batch list counting_file) service_manager"
  where
  "started bs = put_session ''s1'' (started_session bs) binding_manager"

lemma binding_parts:
  "s_principal binding_session = alice_name" "last_used binding_session = fresh_mutex 5"
  "bind_uploads binding_session = fresh_mutex []"
  "statements binding_session = fresh_mutex [(''st1'', \<lparr>statement = fresh_mutex [], cancel = 7\<rparr>)]"
  by (simp_all add: binding_session_def live_session_def new_session_def)

lemma bind_request_parts:
  "validate_protocol_version bind_request = Inr ()"
  "string_arg bind_request ''session_id'' = Inr ''s1''"
  "string_arg bind_request ''statement_id'' = Inr ''st1''"
  "binary_arg bind_request ''schema_ipc'' = Inr [3]"
  by (simp_all add: validate_protocol_version_def bind_request_def compatible_version_def strip_prefix_def
      is_ascii_digit_def string_arg_def binary_arg_def string_value_def binary_value_def require_one_row_def
      column_by_name_def text_field_def binary_field_def validate_handle_def validate_text_def)

lemma list_bind_init:
  "bind_init list_service StreamMode (calm ''u1'') bind_request alice binding_manager =
     (Inr list_cursor, started [])"
proof -
  let ?body = "\<lambda>sid. arg bind_request ''statement_id'' (\<lambda>hid.
     st_bind (ret (binary_arg bind_request ''schema_ipc'')) (\<lambda>bs.
     st_bind (proto (decode_schema list_lib bs)) (\<lambda>sch.
     st_bind (adbc list_lib (start_bind_upload ''u1'' hid StreamMode
          (upload_start (Inr ()) (Inr []) (\<lambda>f. Inr \<lparr>cf_file = f, written = 0\<rparr>)) 100)) (\<lambda>uid.
     ret (Inr \<lparr>bc_session_id = sid, bc_upload_id = uid, bc_max_bytes = 100\<rparr>)))))"
  have touch: "binding_session\<lparr>last_used := fresh_mutex 5\<rparr> = binding_session"
    by (simp add: binding_session_def live_session_def new_session_def)
  have "?body ''s1'' binding_session = (Inr list_cursor, started_session [])"
    by (simp add: arg_def st_bind_def ret_def proto_def adbc_def bind_request_parts decode_schema_def
        list_lib_def start_bind_upload_def upload_start_def run_open_def binding_parts locked_def
        list_cursor_def started_session_def)
  moreover have "bind_init list_service StreamMode (calm ''u1'') bind_request alice =
      on_session list_service (calm ''u1'') bind_request alice ?body"
    by (simp add: bind_init_def list_service_def calm_def)
  moreover have "on_session list_service (calm ''u1'') bind_request alice ?body binding_manager =
     (case ?body ''s1'' (binding_session\<lparr>last_used := store (last_used binding_session) (a_now (calm ''u1''))\<rparr>) of
        (r, s') \<Rightarrow> (r, put_session ''s1'' s' binding_manager))"
    by (rule live_request [OF bind_request_parts(1,2) list_caller])
      (simp_all add: binding_manager_def binding_parts calm_def elapsed_def)
  ultimately show ?thesis by (simp add: binding_parts calm_def touch started_def)
qed

definition turn_of :: "record_batch option \<Rightarrow> bytes \<Rightarrow> record_batch" where
  "turn_of b payload =
     \<lparr>schema_fields = bind_turn_schema, columns = [BinaryArray [Some payload], BooleanArray [Some (b = None)]],
      num_rows = 1\<rparr>"

lemma list_exchange:
  assumes "bind_turn list_service (calm x) list_cursor input (started_session bs) = (Inr fin, s')"
    and "\<And>b out. \<exists>out'. emit C b out = Inr out'"
  shows "\<exists>out'. exchange C list_service (calm x) alice list_cursor input out (started bs) =
    (Inr (), out', put_session ''s1'' s' binding_manager)"
proof -
  have touch: "(started_session bs)\<lparr>last_used := store (last_used (started_session bs)) (a_now (calm x))\<rparr> =
      started_session bs"
    by (simp add: started_session_def binding_session_def live_session_def new_session_def calm_def)
  have "on_session_id list_service (calm x) ''s1'' alice body (started bs) =
    (case body (started_session bs) of (r, s') \<Rightarrow> (r, put_session ''s1'' s' (started bs)))"
    for body :: "(_, rpc_error, bool) step"
    by (rule live_call [OF list_caller, of "started bs" "''s1''" "started_session bs" "calm x" body, unfolded touch])
      (simp_all add: started_def put_session_def started_session_def binding_parts binding_manager_def
          calm_def elapsed_def)
  moreover have "put_session ''s1'' s' (started bs) = put_session ''s1'' s' binding_manager"
    by (simp add: started_def put_session_def hm_insert_twice)
  ultimately show ?thesis
    using assms(1) assms(2) [of bind_ack out] by (auto simp: exchange_def list_cursor_def)
qed

lemma lossy_accepts: "\<exists>out'. emit (lossy True) b out = Inr out'"
  by (cases out) (simp add: lossy_def)

lemma list_turn_batch:
  assumes "length x \<le> 70" and "length bs < 99"
  shows "decode_bind_turn list_ipc (turn_of (Some (demo_batch x)) (packed x)) 100 = Inr (Some (demo_batch x))"
    and "bind_turn list_service (calm u) list_cursor (turn_of (Some (demo_batch x)) (packed x)) (started_session bs)
      = (Inr False, started_session (bs @ [demo_batch x]))"
proof -
  show dec: "decode_bind_turn list_ipc (turn_of (Some (demo_batch x)) (packed x)) 100 = Inr (Some (demo_batch x))"
    using list_turn [OF assms(1)] by (simp add: turn_of_def)
  have "push_bind_upload list_stream ''u1'' (demo_batch x) (started_session bs) =
      (Inr (), started_session (bs @ [demo_batch x]))"
    using assms(2)
    by (simp add: push_bind_upload_def locked_def started_session_def upload_push_def list_stream_def
        counting_write_def saturating_add_def usize_max_def Let_def)
  with dec show "bind_turn list_service (calm u) list_cursor (turn_of (Some (demo_batch x)) (packed x)) (started_session bs)
      = (Inr False, started_session (bs @ [demo_batch x]))"
    by (simp add: bind_turn_def list_service_def list_lib_def turn_limit_def list_cursor_def max_control_bytes_def)
qed

lemma list_turn_finish:
  assumes "length bs \<le> 100"
  shows "decode_bind_turn list_ipc (turn_of None []) 100 = Inr None"
    and "\<exists>s'. bind_turn list_service (calm u) list_cursor (turn_of None []) (started_session bs) = (Inr True, s')"
proof -
  show dec: "decode_bind_turn list_ipc (turn_of None []) 100 = Inr None"
    by (simp add: turn_of_def decode_bind_turn_def require_one_row_def binary_value_def
        column_by_name_def bind_turn_schema_def binary_field_def)
  have "\<exists>s'. finish_bind_upload list_stream list_ops Completed ''u1'' (started_session bs) = (Inr (), s')"
    using assms by (simp add: finish_bind_upload_def take_bind_upload_def locked_def st_bind_def started_session_def
        upload_finish_def finish_reader_def list_stream_def with_statement_def statement_job_def
        binding_parts list_ops_def)
  with dec show "\<exists>s'. bind_turn list_service (calm u) list_cursor (turn_of None []) (started_session bs) = (Inr True, s')"
    by (auto simp: bind_turn_def list_service_def list_lib_def turn_limit_def list_cursor_def
        max_control_bytes_def calm_def)
qed

end
