(* ===== verification/Iroh_Pool.thy ===== *)
theory Iroh_Pool
  imports Adbc
begin

text \<open>
  The pool of physical Iroh connections of the driver
  (\<open>crates/adbc-driver-grainlift/src/iroh_pool.rs\<close>). The pool maps a key to a weak reference to a
  slot; a slot is initialised once, with a connection or the error of connecting, and lives as
  long as somebody holds a strong reference to it. The heap of slots is explicit: a slot is its
  address, its strong count and its cell.

  Iroh itself is the parameter record \<open>iroh_lib\<close>: binding an endpoint and connecting, opening a
  logical stream on a connection, and the public half of a secret key.
\<close>

subsection \<open>Data\<close>

record pool_error =
  pe_context :: string
  pe_message :: string

text \<open>\<open>Display for PoolError\<close>.\<close>

definition display_pool_error :: "pool_error \<Rightarrow> message" where
  "display_pool_error e = [Lit (pe_context e), Lit '': '', Str (pe_message e)]"

record pool_key =
  local_id :: string
  remote_id :: string
  direct_address :: "socket_addr option"
  rpc_timeout :: nat

record pool_config =
  cfg_remote_id :: string
  cfg_direct_address :: "socket_addr option"
  cfg_secret_key :: "string option"
  cfg_rpc_timeout :: nat

record 'v slot =
  strong_count :: nat
  cell :: "(pool_error, 'v) result option"

record ('k, 'v) weak_pool =
  pool_entries :: "('k, nat) hash_map mutex"
  slots :: "nat \<Rightarrow> 'v slot"
  next_slot :: nat
  closed :: "'v list" \<comment> \<open>connections closed so far, the last first\<close>

definition empty_slot :: "'v slot" where
  "empty_slot = \<lparr>strong_count = 0, cell = None\<rparr>"

definition empty_pool :: "('k, 'v) weak_pool" where
  "empty_pool =
     \<lparr>pool_entries = fresh_mutex [], slots = (\<lambda>_. empty_slot), next_slot = 0, closed = []\<rparr>"

abbreviation live :: "('k, 'v) weak_pool \<Rightarrow> nat \<Rightarrow> bool" where
  "live p i \<equiv> 0 < strong_count (slots p i)"

abbreviation registered :: "('k, 'v) weak_pool \<Rightarrow> 'k \<Rightarrow> nat option" where
  "registered p key \<equiv> hm_get (inner (pool_entries p)) key"

text \<open>\<open>Weak::upgrade\<close>, and dropping a strong reference: the last one drops the connection, which closes it.\<close>

definition upgrade :: "nat \<Rightarrow> ('k, 'v) weak_pool \<Rightarrow> ('k, 'v) weak_pool option" where
  "upgrade i p =
     (if live p i
      then Some (p\<lparr>slots := (slots p)(i := (slots p i)\<lparr>strong_count := strong_count (slots p i) + 1\<rparr>)\<rparr>)
      else None)"

definition drop_slot :: "nat \<Rightarrow> ('k, 'v) weak_pool \<Rightarrow> ('k, 'v) weak_pool" where
  "drop_slot i p =
     (if strong_count (slots p i) = 1
      then p\<lparr>slots := (slots p)(i := empty_slot),
             closed := (case cell (slots p i) of Some (Inr v) \<Rightarrow> v # closed p | _ \<Rightarrow> closed p)\<rparr>
      else p\<lparr>slots := (slots p)(i := (slots p i)\<lparr>strong_count := strong_count (slots p i) - 1\<rparr>)\<rparr>)"

subsection \<open>The pool\<close>

definition pool_poisoned :: pool_error where
  "pool_poisoned = \<lparr>pe_context = ''lock Iroh pool'', pe_message = ''pool is poisoned''\<rparr>"

text \<open>The critical section of \<open>acquire\<close>: dead entries are swept, then the slot of the key is shared or made.\<close>

definition acquire_slot :: "'k \<Rightarrow> (('k, 'v) weak_pool, pool_error, nat) step" where
  "acquire_slot key p =
     (case lock pool_poisoned (pool_entries p) of
        Inl e \<Rightarrow> (Inl e, p)
      | Inr es \<Rightarrow>
          let swept = filter (\<lambda>(_, i). live p i) es;
              p1 = p\<lparr>pool_entries := store (pool_entries p) swept\<rparr>
          in case Option.bind (hm_get swept key) (\<lambda>i. map_option (Pair i) (upgrade i p1)) of
               Some (i, p2) \<Rightarrow> (Inr i, p2)
             | None \<Rightarrow>
                 (Inr (next_slot p1),
                  p1\<lparr>pool_entries := store (pool_entries p1) (hm_insert key (next_slot p1) swept),
                     slots := (slots p1)(next_slot p1 := \<lparr>strong_count = 1, cell = None\<rparr>),
                     next_slot := next_slot p1 + 1\<rparr>))"

text \<open>\<open>OnceLock::get_or_init\<close>: the first caller initialises, the others get its value.\<close>

definition fill :: "nat \<Rightarrow> (pool_error, 'v) result \<Rightarrow> ('k, 'v) weak_pool \<Rightarrow> ('k, 'v) weak_pool" where
  "fill i r p = p\<lparr>slots := (slots p)(i := (slots p i)\<lparr>cell := Some r\<rparr>)\<rparr>"

definition get_or_init ::
  "nat \<Rightarrow> ('n, pool_error, 'v) step \<Rightarrow> (('k, 'v) weak_pool \<times> 'n, pool_error, 'v) step" where
  "get_or_init i initialize s =
     (case s of (p, n) \<Rightarrow>
        (case cell (slots p i) of
           Some r \<Rightarrow> (r, (p, n))
         | None \<Rightarrow> (case initialize n of (r, n') \<Rightarrow> (r, (fill i r p, n')))))"

definition acquire ::
  "'k \<Rightarrow> ('n, pool_error, 'v) step \<Rightarrow> (('k, 'v) weak_pool \<times> 'n, pool_error, nat \<times> 'v) step" where
  "acquire key initialize s =
     (case s of (p, n) \<Rightarrow>
        (case acquire_slot key p of
           (Inl e, p') \<Rightarrow> (Inl e, (p', n))
         | (Inr i, p') \<Rightarrow>
             (case get_or_init i initialize (p', n) of
                (Inl e, (p2, n')) \<Rightarrow> (Inl e, (drop_slot i p2, n'))
              | (Inr v, s2) \<Rightarrow> (Inr (i, v), s2))))"

definition invalidate :: "'k \<Rightarrow> nat \<Rightarrow> ('k, 'v) weak_pool \<Rightarrow> ('k, 'v) weak_pool" where
  "invalidate key expected p =
     (case lock pool_poisoned (pool_entries p) of
        Inl _ \<Rightarrow> p
      | Inr es \<Rightarrow>
          if (case Option.bind (hm_get es key) (\<lambda>i. if live p i then Some i else None) of
                Some i \<Rightarrow> i = expected | None \<Rightarrow> False)
          then p\<lparr>pool_entries := store (pool_entries p) (hm_remove key es)\<rparr>
          else p)"

lemma invalidate_cases:
  "invalidate key i p =
     (if \<not> poisoned (pool_entries p) \<and> registered p key = Some i \<and> live p i
      then p\<lparr>pool_entries := store (pool_entries p) (hm_remove key (inner (pool_entries p)))\<rparr> else p)"
  by (cases "registered p key"; cases "poisoned (pool_entries p)")
    (auto simp: invalidate_def lock_def split: option.splits if_splits)

subsection \<open>Opening a client\<close>

record ('v, 'cl, 'n) iroh_lib =
  iroh_runtime :: "(pool_error, unit) result"
  public_key :: "string \<Rightarrow> string"
  bind_endpoint :: "string \<Rightarrow> ('n, string, string) step"
  connect_addr :: "string \<Rightarrow> string \<Rightarrow> socket_addr option \<Rightarrow> nat \<Rightarrow> ('n, string, 'v) step"
  open_stream :: "'v \<Rightarrow> ('n, string, 'cl) step"

definition pool_step_err :: "string \<Rightarrow> ('n, string, 'a) step \<Rightarrow> ('n, pool_error, 'a) step" where
  "pool_step_err ctx f n =
     (case f n of (r, n') \<Rightarrow> (map_err (\<lambda>e. \<lparr>pe_context = ctx, pe_message = e\<rparr>) r, n'))"

definition initialize_resource ::
  "('v, 'cl, 'n) iroh_lib \<Rightarrow> string \<Rightarrow> string \<Rightarrow> socket_addr option \<Rightarrow> nat \<Rightarrow> ('n, pool_error, 'v) step" where
  "initialize_resource I secret remote addr t n =
     (case iroh_runtime I of
        Inl e \<Rightarrow> (Inl e, n)
      | Inr _ \<Rightarrow>
          st_bind (pool_step_err ''bind Iroh client endpoint'' (bind_endpoint I secret))
            (\<lambda>endpoint. pool_step_err ''connect Iroh endpoint'' (connect_addr I endpoint remote addr t)) n)"

definition key_of :: "('v, 'cl, 'n) iroh_lib \<Rightarrow> string \<Rightarrow> pool_config \<Rightarrow> pool_key" where
  "key_of I secret c =
     \<lparr>local_id = public_key I secret, remote_id = cfg_remote_id c,
      direct_address = cfg_direct_address c, rpc_timeout = cfg_rpc_timeout c\<rparr>"

text \<open>
  One round of the loop: \<open>Some\<close> when it returns, with the client and the slot its lease holds;
  \<open>None\<close> when the first attempt evicted its connection and the loop goes on.
\<close>

definition attempt_open ::
  "('v, 'cl, 'n) iroh_lib \<Rightarrow> string \<Rightarrow> pool_key \<Rightarrow> bool \<Rightarrow> (pool_key, 'v) weak_pool \<times> 'n \<Rightarrow>
   (pool_error, 'cl \<times> nat) result option \<times> ((pool_key, 'v) weak_pool \<times> 'n)" where
  "attempt_open I secret key first s =
     (case acquire key (initialize_resource I secret (remote_id key) (direct_address key) (rpc_timeout key)) s of
        (Inl e, s') \<Rightarrow> (Some (Inl e), s')
      | (Inr (i, v), (p, n)) \<Rightarrow>
          (case iroh_runtime I of
             Inl e \<Rightarrow> (Some (Inl e), (drop_slot i p, n))
           | Inr _ \<Rightarrow>
               (case open_stream I v n of
                  (Inr client, n') \<Rightarrow> (Some (Inr (client, i)), (p, n'))
                | (Inl e, n') \<Rightarrow>
                    if first then (None, (drop_slot i (invalidate key i p), n'))
                    else (Some (Inl \<lparr>pe_context = ''open Iroh VGI stream'', pe_message = e\<rparr>),
                          (drop_slot i p, n')))))"

definition open_client ::
  "('v, 'cl, 'n) iroh_lib \<Rightarrow> string \<Rightarrow> pool_config \<Rightarrow> (pool_key, 'v) weak_pool \<times> 'n \<Rightarrow>
   (pool_error, 'cl \<times> nat) result option \<times> ((pool_key, 'v) weak_pool \<times> 'n)" where
  "open_client I process_secret_key c s =
     (let secret = (case cfg_secret_key c of Some k \<Rightarrow> k | None \<Rightarrow> process_secret_key);
          key = key_of I secret c
      in case attempt_open I secret key True s of
           (Some r, s') \<Rightarrow> (Some r, s')
         | (None, s') \<Rightarrow> attempt_open I secret key False s')"

subsection \<open>Threads\<close>

text \<open>
  The pool under any interleaving of its users. A thread takes a slot, fills a slot that it holds
  and that is not filled yet (others wait in \<open>get_or_init\<close> meanwhile), drops a reference or
  invalidates a slot it holds. The ghost fields record the key each slot was made for and which
  slots were evicted.
\<close>

record ('k, 'v) pool_world =
  wp :: "('k, 'v) weak_pool"
  made :: "nat \<Rightarrow> 'k option"
  evicted :: "nat set"

definition pool_start :: "('k, 'v) pool_world \<Rightarrow> bool" where
  "pool_start w \<longleftrightarrow> w = \<lparr>wp = empty_pool, made = (\<lambda>_. None), evicted = {}\<rparr>"

inductive pool_step :: "('k, 'v) pool_world \<Rightarrow> ('k, 'v) pool_world \<Rightarrow> bool" where
  step_acquire: "acquire_slot key (wp w) = (Inr i, p) \<Longrightarrow>
    pool_step w (w\<lparr>wp := p, made := (if i = next_slot (wp w) then (made w)(i := Some key) else made w)\<rparr>)"
| step_fill: "live (wp w) i \<Longrightarrow> cell (slots (wp w) i) = None \<Longrightarrow> pool_step w (w\<lparr>wp := fill i r (wp w)\<rparr>)"
| step_drop: "live (wp w) i \<Longrightarrow> pool_step w (w\<lparr>wp := drop_slot i (wp w)\<rparr>)"
| step_invalidate: "live (wp w) i \<Longrightarrow> made w i = Some key \<Longrightarrow>
    pool_step w (w\<lparr>wp := invalidate key i (wp w),
       evicted := (if invalidate key i (wp w) = wp w then evicted w else insert i (evicted w))\<rparr>)"

inductive_cases pool_stepE: "pool_step w w'"

definition pool_inv :: "('k, 'v) pool_world \<Rightarrow> bool" where
  "pool_inv w \<longleftrightarrow>
     \<not> poisoned (pool_entries (wp w)) \<and> hm_wf (inner (pool_entries (wp w)))
     \<and> evicted w \<subseteq> {..<next_slot (wp w)}
     \<and> (\<forall>key i. registered (wp w) key = Some i \<longrightarrow> made w i = Some key \<and> i \<notin> evicted w \<and> i < next_slot (wp w))
     \<and> (\<forall>i. live (wp w) i \<longrightarrow> i < next_slot (wp w)
          \<and> (\<exists>key. made w i = Some key \<and> (i \<notin> evicted w \<longrightarrow> registered (wp w) key = Some i)))"

text \<open>What the critical section of \<open>acquire\<close> does.\<close>

lemma acquire_slot_cases:
  assumes "acquire_slot key p = (Inr i, p')" and "hm_wf (inner (pool_entries p))"
  obtains (shared) "registered p key = Some i" "live p i" "\<not> poisoned (pool_entries p)"
      "p' = p\<lparr>pool_entries := store (pool_entries p) (filter (\<lambda>(_, i). live p i) (inner (pool_entries p))),
             slots := (slots p)(i := (slots p i)\<lparr>strong_count := strong_count (slots p i) + 1\<rparr>)\<rparr>"
    | (made) "i = next_slot p" "\<not> poisoned (pool_entries p)"
      "\<forall>j. registered p key = Some j \<longrightarrow> \<not> live p j"
      "p' = p\<lparr>pool_entries := store (pool_entries p)
               (hm_insert key (next_slot p) (filter (\<lambda>(_, i). live p i) (inner (pool_entries p)))),
             slots := (slots p)(next_slot p := \<lparr>strong_count = 1, cell = None\<rparr>),
             next_slot := next_slot p + 1\<rparr>"
proof -
  let ?swept = "filter (\<lambda>(_, i). live p i) (inner (pool_entries p))"
  have ok: "\<not> poisoned (pool_entries p)"
    using assms(1) by (auto simp: acquire_slot_def lock_def split: if_splits)
  have swept: "hm_get ?swept key = (case registered p key of Some j \<Rightarrow> if live p j then Some j else None | None \<Rightarrow> None)"
    using hm_get_filter [OF assms(2), of "\<lambda>(_, i). live p i" key] by (auto split: option.split)
  show ?thesis
  proof (cases "hm_get ?swept key")
    case None
    with assms(1) ok swept made show ?thesis
      by (auto simp: acquire_slot_def lock_def Let_def split: option.splits if_splits)
  next
    case (Some j)
    then have "registered p key = Some j" "live p j" using swept by (auto split: option.splits if_splits)
    with assms(1) ok Some shared show ?thesis
      by (auto simp: acquire_slot_def lock_def Let_def upgrade_def)
  qed
qed

text \<open>The sweep drops only dead slots, so it does not change what a live slot is registered as.\<close>

lemma swept_registered:
  assumes "hm_wf es"
  shows "hm_get (filter (\<lambda>(_, i). P i) es) k = Some i \<longleftrightarrow> hm_get es k = Some i \<and> P i"
  using hm_get_filter [OF assms, of "\<lambda>(_, i). P i" k] by (auto split: option.split)

lemma acquired_registered:
  assumes "acquire_slot key p = (Inr i, p')" and "hm_wf (inner (pool_entries p))"
  shows "live p' i" and "registered p' key = Some i"
  using assms by (cases rule: acquire_slot_cases; auto simp: swept_registered)+

lemma pool_inv_acquire:
  assumes inv: "pool_inv w" and acq: "acquire_slot key (wp w) = (Inr i, p)"
  shows "pool_inv (w\<lparr>wp := p, made := (if i = next_slot (wp w) then (made w)(i := Some key) else made w)\<rparr>)"
proof -
  let ?es = "inner (pool_entries (wp w))"
  have wf: "hm_wf ?es" using inv by (simp add: pool_inv_def)
  from acq wf show ?thesis
  proof (cases rule: acquire_slot_cases)
    case shared
    then have "i \<noteq> next_slot (wp w)" using inv by (auto simp: pool_inv_def)
    with shared inv wf show ?thesis by (auto simp: pool_inv_def swept_registered)
  next
    case made
    have fresh: "\<not> live (wp w) (next_slot (wp w))" using inv by (auto simp: pool_inv_def)
    have other: "k \<noteq> key" if "live (wp w) j" "registered (wp w) k = Some j" for j k
      using made(3) that by auto
    have "next_slot (wp w) \<notin> evicted w" using inv by (auto simp: pool_inv_def)
    with made inv wf fresh other show ?thesis
      by (auto simp: pool_inv_def swept_registered split: if_splits) (metis less_Suc_eq)+
  qed
qed

lemma pool_inv_step:
  assumes "pool_inv w" and "pool_step w w'"
  shows "pool_inv w'"
  using assms(2)
proof cases
  case (step_acquire key i p)
  with pool_inv_acquire [OF assms(1) step_acquire(2)] show ?thesis by simp
next
  case (step_fill i r)
  with assms(1) show ?thesis by (auto simp: pool_inv_def fill_def)
next
  case (step_drop i)
  with assms(1) show ?thesis
    by (auto simp: pool_inv_def drop_slot_def empty_slot_def split: if_splits)
next
  case (step_invalidate i key)
  show ?thesis
  proof (cases "registered (wp w) key = Some i")
    case True
    have others: "k \<noteq> key" if "made w j = Some k" "j \<noteq> i" "registered (wp w) k = Some j" for j k
      using that True by auto
    let ?p = "(wp w)\<lparr>pool_entries := store (pool_entries (wp w)) (hm_remove key (inner (pool_entries (wp w))))\<rparr>"
    have inv: "invalidate key i (wp w) = ?p"
      using True step_invalidate(2) assms(1) by (simp add: invalidate_cases pool_inv_def)
    have "?p \<noteq> wp w"
    proof
      assume "?p = wp w"
      then have "registered ?p key = registered (wp w) key" by (rule arg_cong)
      with True show False by simp
    qed
    then have w': "w' = w\<lparr>wp := ?p, evicted := insert i (evicted w)\<rparr>"
      using step_invalidate(1) inv by simp
    show ?thesis
      using assms(1) True others step_invalidate(2,3) unfolding w' pool_inv_def
      by (auto; metis option.inject)
  next
    case False
    with step_invalidate assms(1) show ?thesis by (simp add: invalidate_cases)
  qed
qed

lemma pool_inv_start: "pool_start w \<Longrightarrow> pool_inv w"
  by (simp add: pool_start_def pool_inv_def empty_pool_def empty_slot_def)

interpretation pool_machine: inductive_invariant pool_start pool_step pool_inv
  by unfold_locales (blast intro: pool_inv_start pool_inv_step)+

text \<open>
  C37: connections are shared and never mixed up. Whatever threads did to the pool, a caller that
  takes a slot for a key (identity, peer, route and timeout) gets a live slot that is registered
  for the key, with its connection untouched; if any slot made for the key is alive and was not
  evicted, it gets exactly that one, so there is one physical connection per key; otherwise it
  gets a new, unfilled slot. It never gets a slot made for another key or one that was evicted, and
  no other slot changes.
\<close>

theorem pool_shares_one_slot_per_key:
  assumes "reaches pool_start pool_step w" and "acquire_slot key (wp w) = (Inr i, p)"
  shows "live p i \<and> registered p key = Some i
    \<and> (\<forall>j. live (wp w) j \<and> made w j = Some key \<and> j \<notin> evicted w \<longrightarrow> j = i)
    \<and> (if live (wp w) i then made w i = Some key \<and> i \<notin> evicted w \<and> cell (slots p i) = cell (slots (wp w) i)
       else i = next_slot (wp w) \<and> cell (slots p i) = None)
    \<and> (\<forall>j. j \<noteq> i \<longrightarrow> slots p j = slots (wp w) j)"
proof -
  have inv: "pool_inv w" by (rule pool_machine.inv_reaches [OF assms(1)])
  then have wf: "hm_wf (inner (pool_entries (wp w)))" by (simp add: pool_inv_def)
  have reg: "registered (wp w) key = Some j" if "live (wp w) j" "made w j = Some key" "j \<notin> evicted w" for j
    using inv that unfolding pool_inv_def by (metis option.inject)
  from assms(2) wf show ?thesis
  proof (cases rule: acquire_slot_cases)
    case shared
    then have "made w i = Some key" "i \<notin> evicted w" using inv by (auto simp: pool_inv_def)
    then have "(if live (wp w) i
        then made w i = Some key \<and> i \<notin> evicted w \<and> cell (slots p i) = cell (slots (wp w) i)
        else i = next_slot (wp w) \<and> cell (slots p i) = None)
      \<and> (\<forall>j. j \<noteq> i \<longrightarrow> slots p j = slots (wp w) j)"
      using shared(2) unfolding shared(4) by simp
    moreover have "\<forall>j. live (wp w) j \<and> made w j = Some key \<and> j \<notin> evicted w \<longrightarrow> j = i"
      using reg shared(1) by fastforce
    ultimately show ?thesis using acquired_registered [OF assms(2) wf] by blast
  next
    case made
    have "\<not> live (wp w) i" using inv made(1) by (auto simp: pool_inv_def)
    then have "(if live (wp w) i
        then made w i = Some key \<and> i \<notin> evicted w \<and> cell (slots p i) = cell (slots (wp w) i)
        else i = next_slot (wp w) \<and> cell (slots p i) = None)
      \<and> (\<forall>j. j \<noteq> i \<longrightarrow> slots p j = slots (wp w) j)"
      using made(1) unfolding made(4) by simp
    moreover have "\<not> (live (wp w) j \<and> made w j = Some key \<and> j \<notin> evicted w)" for j
      using reg made(3) by blast
    ultimately show ?thesis using acquired_registered [OF assms(2) wf] by blast
  qed
qed

theorem pool_shares_one_slot_per_key_witness:
  "\<exists>p. acquire_slot (''k'' :: string) (snd (acquire_slot ''k'' (empty_pool :: (string, nat) weak_pool))) = (Inr 0, p)
     \<and> live p 0 \<and> registered p ''k'' = Some 0"
proof -
  let ?w0 = "\<lparr>wp = empty_pool, made = (\<lambda>_. None), evicted = {}\<rparr> :: (string, nat) pool_world"
  let ?p1 = "snd (acquire_slot ''k'' (wp ?w0))"
  let ?w1 = "?w0\<lparr>wp := ?p1, made := (\<lambda>_. None)(0 := Some ''k'')\<rparr>"
  have first: "acquire_slot ''k'' (wp ?w0) = (Inr 0, ?p1)"
    by (simp add: acquire_slot_def empty_pool_def Let_def)
  have "reaches pool_start pool_step ?w0"
    by (rule reaches_init) (simp add: pool_start_def)
  moreover have "pool_step ?w0 ?w1"
    using pool_step.step_acquire [OF first] by (simp add: empty_pool_def)
  ultimately have "reaches pool_start pool_step ?w1" by (rule reaches_step)
  moreover obtain p where again: "acquire_slot ''k'' (wp ?w1) = (Inr 0, p)"
    by (simp add: acquire_slot_def empty_pool_def Let_def upgrade_def)
  ultimately have "live p 0 \<and> registered p ''k'' = Some 0"
    using pool_shares_one_slot_per_key [of ?w1 "''k''" 0 p] by blast
  with again show ?thesis by auto
qed

subsection \<open>Opening in spite of a dead connection\<close>

text \<open>Reconnecting works: a new connection is made and opens a stream.\<close>

definition reconnects :: "('v, 'cl, 'n) iroh_lib \<Rightarrow> string \<Rightarrow> pool_key \<Rightarrow> bool" where
  "reconnects I secret key \<longleftrightarrow>
     iroh_runtime I = Inr ()
     \<and> (\<forall>n. \<exists>v n' cl n''.
          initialize_resource I secret (remote_id key) (direct_address key) (rpc_timeout key) n = (Inr v, n')
          \<and> open_stream I v n' = (Inr cl, n''))"

lemma acquire_slot_ok: "\<not> poisoned (pool_entries p) \<Longrightarrow> \<exists>i p'. acquire_slot key p = (Inr i, p')"
  by (auto simp: acquire_slot_def lock_def Let_def split: option.split)

text \<open>A round on a slot that nobody filled opens a client and leaves its slot registered.\<close>

lemma attempt_unfilled:
  assumes "acquire_slot key p = (Inr i, p')" and "cell (slots p' i) = None" and "reconnects I secret key"
  obtains cl v n' where "attempt_open I secret key first (p, n) = (Some (Inr (cl, i)), (fill i (Inr v) p', n'))"
proof -
  obtain v n1 cl n2 where
    "initialize_resource I secret (remote_id key) (direct_address key) (rpc_timeout key) n = (Inr v, n1)"
    "open_stream I v n1 = (Inr cl, n2)" "iroh_runtime I = Inr ()"
    using assms(3) unfolding reconnects_def by metis
  with assms(1,2) that show ?thesis by (simp add: attempt_open_def acquire_def get_or_init_def)
qed

lemma acquire_unregistered:
  assumes "\<not> poisoned (pool_entries p)" and "hm_wf (inner (pool_entries p))"
    and "registered p key = None"
  obtains i p' where "acquire_slot key p = (Inr i, p')" "cell (slots p' i) = None" "live p' i"
    "registered p' key = Some i"
proof -
  obtain i p' where acq: "acquire_slot key p = (Inr i, p')" using acquire_slot_ok [OF assms(1)] by blast
  then have "cell (slots p' i) = None"
    using assms(2,3) by (cases rule: acquire_slot_cases) auto
  with acq acquired_registered [OF acq assms(2)] that show ?thesis by blast
qed

lemma drop_slot_parts [simp]:
  "pool_entries (drop_slot i p) = pool_entries p"
  "live (drop_slot i p) j \<longleftrightarrow> live p j \<and> (j = i \<longrightarrow> strong_count (slots p i) \<noteq> 1)"
  by (auto simp: drop_slot_def empty_slot_def)

lemma fill_parts [simp]:
  "pool_entries (fill i r p) = pool_entries p" "live (fill i r p) j \<longleftrightarrow> live p j"
  by (auto simp: fill_def)

text \<open>A filled slot was shared; a round on it opens a stream or evicts it and leaves the key free.\<close>

lemma acquired_filled:
  assumes "acquire_slot key p = (Inr i, p1)" and "\<not> poisoned (pool_entries p)" "hm_wf (inner (pool_entries p))"
    and "cell (slots p1 i) = Some r"
  shows "registered p key = Some i \<and> live p i \<and> cell (slots p i) = Some r
    \<and> \<not> poisoned (pool_entries p1) \<and> hm_wf (inner (pool_entries p1))"
  using assms(1,3)
proof (cases rule: acquire_slot_cases)
  case shared
  with assms show ?thesis by simp
next
  case made
  with assms(4) show ?thesis by simp
qed

lemma attempt_filled:
  assumes "acquire_slot key p = (Inr i, p1)" and "cell (slots p1 i) = Some (Inr v)" and "iroh_runtime I = Inr ()"
  shows "attempt_open I secret key True (p, n) =
    (case open_stream I v n of
       (Inr cl, n1) \<Rightarrow> (Some (Inr (cl, i)), (p1, n1))
     | (Inl e, n1) \<Rightarrow> (None, (drop_slot i (invalidate key i p1), n1)))"
  using assms by (auto simp: attempt_open_def acquire_def get_or_init_def split: prod.split sum.split)

lemma attempt_after_eviction:
  assumes "\<not> poisoned (pool_entries p1)" "hm_wf (inner (pool_entries p1))" and "live p1 i" "registered p1 key = Some i"
    and "reconnects I secret key"
  obtains cl j p' n' where
    "attempt_open I secret key False (drop_slot i (invalidate key i p1), n) = (Some (Inr (cl, j)), (p', n'))"
    "live p' j" "registered p' key = Some j"
proof -
  let ?p2 = "drop_slot i (invalidate key i p1)"
  have "\<not> poisoned (pool_entries ?p2)" "hm_wf (inner (pool_entries ?p2))" "registered ?p2 key = None"
    using assms(1-4) by (simp_all add: invalidate_cases)
  then obtain j p3 where acq: "acquire_slot key ?p2 = (Inr j, p3)" "cell (slots p3 j) = None"
    "live p3 j" "registered p3 key = Some j"
    by (elim acquire_unregistered)
  obtain cl v n' where "attempt_open I secret key False (?p2, n) = (Some (Inr (cl, j)), (fill j (Inr v) p3, n'))"
    by (rule attempt_unfilled [OF acq(1,2) assms(5)])
  with acq that show ?thesis by simp
qed


text \<open>Connections that go stale: one opens streams only in the network state it was made in.\<close>

definition stale_iroh :: "(nat, nat, nat) iroh_lib" where
  "stale_iroh =
     \<lparr>iroh_runtime = Inr (), public_key = (\<lambda>s. s), bind_endpoint = (\<lambda>s n. (Inr s, n)),
      connect_addr = (\<lambda>e r a t n. (Inr n, n + 1)),
      open_stream = (\<lambda>v n. if n = v + 1 then (Inr v, n) else (Inl ''gone'', n))\<rparr>"

definition stale_config :: pool_config where
  "stale_config =
     \<lparr>cfg_remote_id = ''peer'', cfg_direct_address = None, cfg_secret_key = None, cfg_rpc_timeout = 9\<rparr>"

lemma stale_reconnects: "reconnects stale_iroh secret key"
  by (simp add: reconnects_def stale_iroh_def initialize_resource_def st_bind_def pool_step_err_def)


end
