(* ===== verification/Client_Options.thy ===== *)
theory Client_Options
  imports Records Config Iroh_Pool
begin

text \<open>
  The configuration side of the client driver (\<open>crates/adbc-driver-grainlift/src/lib.rs\<close>): the
  database object with its options, the choice of a transport for an endpoint and the connections
  it makes. URL parsing, PEM files, TLS and the RPC client library are parameters, collected in
  the record \<open>dialer\<close>; \<open>'n\<close> is the state of the network they act on.
\<close>

subsection \<open>Errors\<close>

definition invalid :: "message \<Rightarrow> adbc_error" where
  "invalid m = with_message_and_status m InvalidArguments"

definition client_internal :: "message \<Rightarrow> adbc_error" where
  "client_internal m = with_message_and_status m Internal"

definition client_not_found :: "message \<Rightarrow> adbc_error" where
  "client_not_found m = with_message_and_status m NotFound"

definition not_implemented :: "string \<Rightarrow> adbc_error" where
  "not_implemented feature =
     with_message_and_status [Str feature, Lit '' is not implemented by adbc_driver_grainlift yet''] NotImplemented"

text \<open>
  An error of the RPC client library, and how the driver reads it: an ADBC error of the server
  arrives as its JSON record, with or without the prefix of the stock Python server.
  \<open>from_json\<close> is the JSON decoder and \<open>from_base64\<close> the decoder of error details.
\<close>

record rpc_failure =
  error_type :: string
  rf_message :: string

record json_lib =
  from_json :: "string \<Rightarrow> wire_adbc_error option"
  from_base64 :: "string \<Rightarrow> bytes option"
  display_failure :: "rpc_failure \<Rightarrow> message"

definition client_rpc_error :: "json_lib \<Rightarrow> rpc_failure \<Rightarrow> adbc_error" where
  "client_rpc_error J e =
     (let text = (case strip_prefix ''AdbcError: '' (rf_message e) of Some t \<Rightarrow> t | None \<Rightarrow> rf_message e)
      in case (if error_type e = ''AdbcError'' then from_json J text else None) of
           Some wire \<Rightarrow> wire_error_into_adbc (from_base64 J) wire
         | None \<Rightarrow> with_message_and_status (display_failure J e) IO)"

subsection \<open>Option names\<close>

definition option_grainlift_uri :: string where "option_grainlift_uri = ''grainlift.uri''"
definition option_target :: string where "option_target = ''grainlift.target''"
definition option_bearer_token :: string where "option_bearer_token = ''grainlift.auth.bearer_token''"
definition option_request_timeout_ms :: string where "option_request_timeout_ms = ''grainlift.request_timeout_ms''"
definition option_max_response_bytes :: string where "option_max_response_bytes = ''grainlift.max_response_bytes''"
definition option_max_bind_bytes :: string where "option_max_bind_bytes = ''grainlift.max_bind_bytes''"
definition option_tls_ca :: string where "option_tls_ca = ''grainlift.tls.ca''"
definition option_tls_cert :: string where "option_tls_cert = ''grainlift.tls.cert''"
definition option_tls_key :: string where "option_tls_key = ''grainlift.tls.key''"
definition option_tls_server_name :: string where "option_tls_server_name = ''grainlift.tls.server_name''"
definition option_iroh_secret_key :: string where "option_iroh_secret_key = ''grainlift.iroh.secret_key''"
definition option_iroh_direct_address :: string where "option_iroh_direct_address = ''grainlift.iroh.direct_address''"

lemmas option_names =
  option_grainlift_uri_def option_target_def option_bearer_token_def option_request_timeout_ms_def
  option_max_response_bytes_def option_max_bind_bytes_def option_tls_ca_def option_tls_cert_def
  option_tls_key_def option_tls_server_name_def option_iroh_secret_key_def option_iroh_direct_address_def

definition standard_uri :: string where
  "standard_uri = ''uri''"

definition default_request_timeout_ms :: int where "default_request_timeout_ms = 30000"
definition default_max_response_bytes :: int where "default_max_response_bytes = 256 * 1024 * 1024"
definition default_max_bind_bytes :: int where "default_max_bind_bytes = int max_bind_stream_bytes"

definition is_grainlift_database_option :: "string \<Rightarrow> bool" where
  "is_grainlift_database_option key \<longleftrightarrow>
     key \<in> {option_grainlift_uri, option_target, option_bearer_token, option_request_timeout_ms,
             option_max_response_bytes, option_max_bind_bytes, option_tls_ca, option_tls_cert,
             option_tls_key, option_tls_server_name, option_iroh_secret_key, option_iroh_direct_address}"

subsection \<open>The database\<close>

record database =
  options :: "(string, option_value) hash_map"

definition new_database :: database where
  "new_database = \<lparr>options = []\<rparr>"

definition database_set_option :: "string \<Rightarrow> option_value \<Rightarrow> database \<Rightarrow> database" where
  "database_set_option key v d = d\<lparr>options := hm_insert key v (options d)\<rparr>"

definition must_be_string :: "string \<Rightarrow> adbc_error" where
  "must_be_string key = invalid [Lit ''option '', Dbg key, Lit '' must be a string'']"

definition option_missing :: "string \<Rightarrow> adbc_error" where
  "option_missing key = invalid [Lit ''required option '', Dbg key, Lit '' is missing'']"

definition string_option :: "database \<Rightarrow> string \<Rightarrow> (adbc_error, string) result" where
  "string_option d key =
     (case hm_get (options d) key of
        Some (StringValue v) \<Rightarrow> Inr v
      | Some _ \<Rightarrow> Inl (must_be_string key)
      | None \<Rightarrow> Inl (option_missing key))"

definition string_option_any :: "database \<Rightarrow> string list \<Rightarrow> (adbc_error, string) result" where
  "string_option_any d keys =
     (case find (hm_contains (options d)) keys of
        Some key \<Rightarrow> string_option d key
      | None \<Rightarrow> Inl (option_missing (keys ! 0)))"

definition optional_string :: "database \<Rightarrow> string \<Rightarrow> (adbc_error, string option) result" where
  "optional_string d key =
     (case hm_get (options d) key of
        None \<Rightarrow> Inr None
      | Some (StringValue v) \<Rightarrow> Inr (Some v)
      | Some _ \<Rightarrow> Inl (must_be_string key))"

definition positive_int_option :: "database \<Rightarrow> string \<Rightarrow> int \<Rightarrow> (adbc_error, nat) result" where
  "positive_int_option d key fallback =
     try_bind
       (case hm_get (options d) key of
          None \<Rightarrow> Inr fallback
        | Some (IntValue v) \<Rightarrow> Inr v
        | Some _ \<Rightarrow> Inl (invalid [Lit ''option '', Dbg key, Lit '' must be an integer''])) (\<lambda>v.
     try_bind
       (ok_or (invalid [Lit ''option '', Dbg key, Lit '' must be positive''])
          (Option.bind (usize_try_from v) (\<lambda>n. if n > 0 then Some n else None))) (\<lambda>n.
     if key = option_max_response_bytes \<and> n < 65536
     then Inl (invalid [Lit ''option '', Dbg key, Lit '' must be at least 65536''])
     else if key = option_max_bind_bytes \<and> n > max_configurable_bind_bytes
     then Inl (invalid [Lit ''option '', Dbg key, Lit '' must not exceed '', Num (int max_configurable_bind_bytes)])
     else Inr n))"

definition database_validate :: "database \<Rightarrow> (adbc_error, unit) result" where
  "database_validate d =
     try_bind (string_option_any d [option_grainlift_uri, standard_uri]) (\<lambda>_.
     try_bind (string_option d option_target) (\<lambda>_. Inr ()))"

definition new_database_with_opts :: "(string \<times> option_value) list \<Rightarrow> (adbc_error, database) result" where
  "new_database_with_opts opts =
     (let d = fold (\<lambda>(key, v). database_set_option key v) opts new_database
      in try_bind (database_validate d) (\<lambda>_. Inr d))"

definition client_named_option :: "string \<times> option_value \<Rightarrow> named_option" where
  "client_named_option kv = \<lparr>no_key = fst kv, no_value = wire_value_from (snd kv)\<rparr>"

definition remote_options :: "database \<Rightarrow> named_option list" where
  "remote_options d =
     (let standard_uri_is_grainlift = \<not> hm_contains (options d) option_grainlift_uri
      in map client_named_option
           (filter (\<lambda>(key, _). \<not> is_grainlift_database_option key
              \<and> \<not> (standard_uri_is_grainlift \<and> key = ''uri'')) (options d)))"

text \<open>The typed getters of the database.\<close>

definition get_string :: "(string, option_value) hash_map \<Rightarrow> string \<Rightarrow> (adbc_error, string) result" where
  "get_string os key =
     (case hm_get os key of
        Some (StringValue v) \<Rightarrow> Inr v
      | Some _ \<Rightarrow> Inl (invalid [Lit ''option '', Dbg key, Lit '' is not a string''])
      | None \<Rightarrow> Inl (client_not_found [Lit ''option '', Dbg key]))"

definition get_bytes :: "(string, option_value) hash_map \<Rightarrow> string \<Rightarrow> (adbc_error, bytes) result" where
  "get_bytes os key =
     (case hm_get os key of
        Some (BytesValue v) \<Rightarrow> Inr v
      | Some _ \<Rightarrow> Inl (invalid [Lit ''option '', Dbg key, Lit '' is not bytes''])
      | None \<Rightarrow> Inl (client_not_found [Lit ''option '', Dbg key]))"

definition get_int :: "(string, option_value) hash_map \<Rightarrow> string \<Rightarrow> (adbc_error, int) result" where
  "get_int os key =
     (case hm_get os key of
        Some (IntValue v) \<Rightarrow> Inr v
      | Some _ \<Rightarrow> Inl (invalid [Lit ''option '', Dbg key, Lit '' is not an integer''])
      | None \<Rightarrow> Inl (client_not_found [Lit ''option '', Dbg key]))"

definition get_double :: "(string, option_value) hash_map \<Rightarrow> string \<Rightarrow> (adbc_error, 64 word) result" where
  "get_double os key =
     (case hm_get os key of
        Some (DoubleValue v) \<Rightarrow> Inr v
      | Some _ \<Rightarrow> Inl (invalid [Lit ''option '', Dbg key, Lit '' is not a double''])
      | None \<Rightarrow> Inl (client_not_found [Lit ''option '', Dbg key]))"

definition database_get_option_string :: "database \<Rightarrow> string \<Rightarrow> (adbc_error, string) result" where
  "database_get_option_string d key = get_string (options d) key"

definition database_get_option_bytes :: "database \<Rightarrow> string \<Rightarrow> (adbc_error, bytes) result" where
  "database_get_option_bytes d key = get_bytes (options d) key"

definition database_get_option_int :: "database \<Rightarrow> string \<Rightarrow> (adbc_error, int) result" where
  "database_get_option_int d key = get_int (options d) key"

definition database_get_option_double :: "database \<Rightarrow> string \<Rightarrow> (adbc_error, 64 word) result" where
  "database_get_option_double d key = get_double (options d) key"

subsection \<open>Endpoints\<close>

definition protocol_name :: string where "protocol_name = ''org.queryfarm.Grainlift.v1''"
definition protocol_version :: string where "protocol_version = ''0.4.0''"

definition endpoint_aliases :: "(string \<times> string) list" where
  "endpoint_aliases =
     [(''grainlift://'', ''https://''), (''grainlift+http://'', ''http://''),
      (''grainlift+https://'', ''https://''), (''grainlift+tcp://'', ''tcp://''),
      (''grainlift+tls+tcp://'', ''tls+tcp://''), (''grainlift+iroh://'', ''iroh://'')]"

fun resolve_alias :: "(string \<times> string) list \<Rightarrow> string \<Rightarrow> string" where
  "resolve_alias [] endpoint = endpoint"
| "resolve_alias ((alias, transport) # rest) endpoint =
     (case strip_prefix alias endpoint of
        Some address \<Rightarrow> transport @ address
      | None \<Rightarrow> resolve_alias rest endpoint)"

definition normalize_endpoint :: "string \<Rightarrow> string" where
  "normalize_endpoint endpoint = resolve_alias endpoint_aliases endpoint"

record parsed_url =
  u_scheme :: string
  u_username :: string
  u_password :: "string option"
  u_path :: string
  u_query :: "string option"
  u_fragment :: "string option"
  u_host :: "string option"
  u_port :: "nat option"

definition host_and_port ::
  "(string \<Rightarrow> parsed_url option) \<Rightarrow> string \<Rightarrow> string \<Rightarrow> (adbc_error, string \<times> nat) result" where
  "host_and_port parse_url endpoint expected =
     try_bind (ok_or (invalid [Lit ''invalid Grainlift URI'']) (parse_url endpoint)) (\<lambda>u.
     if u_scheme u \<noteq> expected \<or> u_username u \<noteq> '''' \<or> u_password u \<noteq> None
        \<or> \<not> (u_path u = '''' \<or> u_path u = ''/'') \<or> u_query u \<noteq> None \<or> u_fragment u \<noteq> None
     then Inl (invalid [Str expected, Lit '' Grainlift URI must contain only a host and explicit port''])
     else
       try_bind (ok_or (invalid [Lit ''Grainlift URI host is required'']) (u_host u)) (\<lambda>host.
       try_bind (ok_or (invalid [Lit ''Grainlift URI port is required'']) (u_port u)) (\<lambda>portno.
       Inr (host, portno))))"

subsection \<open>Transports\<close>

record transport_options =
  tls_ca :: "string option"
  tls_cert :: "string option"
  tls_key :: "string option"
  tls_server_name :: "string option"
  iroh_secret_key :: "string option"
  iroh_direct_address :: "string option"

record tls_identity =
  tls_roots :: "bytes list"
  tls_certificates :: "bytes list"
  tls_private_key :: bytes

record 'cl rpc_client =
  rc_client :: 'cl
  rc_protocol :: "string option"
  rc_version :: "string option"

record ('v, 'cl, 'n) dialer =
  dl_json :: json_lib
  dl_parse_url :: "string \<Rightarrow> parsed_url option"
  http_builder :: "nat \<Rightarrow> (string, unit) result"
  tcp_connect :: "string \<Rightarrow> nat \<Rightarrow> nat \<Rightarrow> ('n, rpc_failure, 'cl) step"
  tls_tcp_connect :: "string \<Rightarrow> nat \<Rightarrow> string \<Rightarrow> tls_identity \<Rightarrow> nat \<Rightarrow> ('n, rpc_failure, 'cl) step"
  pem_file_iter :: "string \<Rightarrow> (string, (string, bytes) result list) result"
  pem_key :: "string \<Rightarrow> (string, bytes) result"
  add_root :: "bytes \<Rightarrow> (string, unit) result"
  tls_versions :: "(string, unit) result"
  client_auth_cert :: "bytes list \<Rightarrow> bytes \<Rightarrow> (string, unit) result"
  parse_iroh_target :: "string \<Rightarrow> (string, string) result"
  parse_secret_key :: "string \<Rightarrow> (string, string) result"
  parse_socket_addr :: "string \<Rightarrow> (string, socket_addr) result"
  dl_iroh :: "('v, 'cl, 'n) iroh_lib"
  process_secret_key :: string
  spawn_thread :: "(string, unit) result"

type_synonym ('v, 'n) net = "(pool_key, 'v) weak_pool \<times> 'n"

definition on_net :: "('n, 'e, 'a) step \<Rightarrow> (('v, 'n) net, 'e, 'a) step" where
  "on_net f s = (case s of (p, n) \<Rightarrow> (case f n of (r, n') \<Rightarrow> (r, (p, n'))))"

definition step_err :: "('e \<Rightarrow> 'f) \<Rightarrow> ('m, 'e, 'a) step \<Rightarrow> ('m, 'f, 'a) step" where
  "step_err g f m = (case f m of (r, m') \<Rightarrow> (map_err g r, m'))"

definition result_step :: "('e, 'a) result \<Rightarrow> ('m, 'e, 'a) step" where
  "result_step r m = (r, m)"

definition configure_rpc_client :: "'cl \<Rightarrow> 'cl rpc_client" where
  "configure_rpc_client cl = \<lparr>rc_client = cl, rc_protocol = Some protocol_name, rc_version = Some protocol_version\<rparr>"

definition read_certificates :: "('v, 'cl, 'n) dialer \<Rightarrow> string \<Rightarrow> (adbc_error, bytes list) result" where
  "read_certificates X path =
     try_bind
       (map_err (\<lambda>e. invalid [Lit ''could not open TLS certificate file '', Dbg path, Lit '': '', Str e])
          (pem_file_iter X path)) (\<lambda>items.
     try_bind
       (map_err (\<lambda>e. invalid [Lit ''could not parse TLS certificate file: '', Str e])
          (collect_results (\<lambda>c. c) items)) (\<lambda>certificates.
     if certificates = []
     then Inl (invalid [Lit ''TLS certificate file '', Dbg path, Lit '' contains no certificates''])
     else Inr certificates))"

definition read_private_key :: "('v, 'cl, 'n) dialer \<Rightarrow> string \<Rightarrow> (adbc_error, bytes) result" where
  "read_private_key X path =
     map_err (\<lambda>e. invalid [Lit ''could not load TLS private key '', Dbg path, Lit '': '', Str e]) (pem_key X path)"

definition required_for_tls :: "string \<Rightarrow> adbc_error" where
  "required_for_tls key = invalid [Str key, Lit '' is required for tls+tcp://'']"

definition tls_config :: "('v, 'cl, 'n) dialer \<Rightarrow> transport_options \<Rightarrow> (adbc_error, tls_identity) result" where
  "tls_config X opts =
     try_bind (ok_or (required_for_tls option_tls_ca) (tls_ca opts)) (\<lambda>ca_path.
     try_bind (ok_or (required_for_tls option_tls_cert) (tls_cert opts)) (\<lambda>cert_path.
     try_bind (ok_or (required_for_tls option_tls_key) (tls_key opts)) (\<lambda>key_path.
     try_bind (read_certificates X ca_path) (\<lambda>roots.
     try_bind
       (check_all (\<lambda>c. map_err (\<lambda>e. invalid [Lit ''invalid TLS CA certificate: '', Str e]) (add_root X c)) roots) (\<lambda>_.
     try_bind (read_certificates X cert_path) (\<lambda>certificates.
     try_bind (read_private_key X key_path) (\<lambda>private_key.
     try_bind (map_err (\<lambda>e. client_internal [Lit ''configure TLS versions: '', Str e]) (tls_versions X)) (\<lambda>_.
     try_bind
       (map_err (\<lambda>e. invalid [Lit ''invalid TLS client certificate or key: '', Str e])
          (client_auth_cert X certificates private_key)) (\<lambda>_.
     Inr \<lparr>tls_roots = roots, tls_certificates = certificates, tls_private_key = private_key\<rparr>)))))))))"

definition tls_tcp_client ::
  "('v, 'cl, 'n) dialer \<Rightarrow> string \<Rightarrow> nat \<Rightarrow> nat \<Rightarrow> transport_options \<Rightarrow> ('n, adbc_error, 'cl) step" where
  "tls_tcp_client X host portno t opts =
     st_bind (result_step (tls_config X opts)) (\<lambda>identity.
     step_err (client_rpc_error (dl_json X))
       (tls_tcp_connect X host portno (case tls_server_name opts of Some name \<Rightarrow> name | None \<Rightarrow> host) identity t))"

record byte_connector =
  bn_endpoint :: string
  bn_timeout :: nat
  bn_options :: transport_options

text \<open>\<open>trim\<close>.\<close>

definition trim :: "string \<Rightarrow> string" where
  "trim s = rev (dropWhile is_whitespace (rev (dropWhile is_whitespace s)))"

definition connect_iroh ::
  "('v, 'cl, 'n) dialer \<Rightarrow> byte_connector \<Rightarrow> (('v, 'n) net, adbc_error, 'cl rpc_client \<times> nat option) step" where
  "connect_iroh X c =
     st_bind (result_step (map_err (\<lambda>e. invalid [Str e]) (parse_iroh_target X (bn_endpoint c)))) (\<lambda>remote.
     st_bind (result_step
       (case iroh_secret_key (bn_options c) of
          None \<Rightarrow> Inr None
        | Some secret \<Rightarrow>
            try_bind (map_err (\<lambda>e. invalid [Lit ''invalid Iroh client secret key: '', Str e])
              (parse_secret_key X (trim secret))) (\<lambda>k. Inr (Some k)))) (\<lambda>secret_key.
     st_bind (result_step
       (case iroh_direct_address (bn_options c) of
          None \<Rightarrow> Inr None
        | Some address \<Rightarrow>
            try_bind (map_err (\<lambda>e. invalid [Lit ''invalid Iroh direct address: '', Str e])
              (parse_socket_addr X address)) (\<lambda>a. Inr (Some a)))) (\<lambda>direct.
     \<lambda>s. case open_client (dl_iroh X) (process_secret_key X)
             \<lparr>cfg_remote_id = remote, cfg_direct_address = direct, cfg_secret_key = secret_key,
              cfg_rpc_timeout = bn_timeout c\<rparr> s of
           (Some (Inr (client, slot)), s') \<Rightarrow> (Inr (configure_rpc_client client, Some slot), s')
         | (Some (Inl e), s') \<Rightarrow> (Inl (with_message_and_status (display_pool_error e) IO), s')
         | (None, s') \<Rightarrow> (Inl (client_internal [Lit ''unreachable'']), s'))))"

definition byte_connect ::
  "('v, 'cl, 'n) dialer \<Rightarrow> byte_connector \<Rightarrow> (('v, 'n) net, adbc_error, 'cl rpc_client \<times> nat option) step" where
  "byte_connect X c =
     (if starts_with (bn_endpoint c) ''tcp://'' then
        st_bind (result_step (host_and_port (dl_parse_url X) (bn_endpoint c) ''tcp'')) (\<lambda>(host, portno).
        st_bind (on_net (step_err (client_rpc_error (dl_json X)) (tcp_connect X host portno (bn_timeout c)))) (\<lambda>cl.
        result_step (Inr (configure_rpc_client cl, None))))
      else if starts_with (bn_endpoint c) ''tls+tcp://'' then
        st_bind (result_step (host_and_port (dl_parse_url X) (bn_endpoint c) ''tls+tcp'')) (\<lambda>(host, portno).
        st_bind (on_net (tls_tcp_client X host portno (bn_timeout c) (bn_options c))) (\<lambda>cl.
        result_step (Inr (configure_rpc_client cl, None))))
      else if starts_with (bn_endpoint c) ''iroh://'' then connect_iroh X c
      else result_step (Inl (not_implemented ''unsupported Grainlift byte-stream URI'')))"

record http_transport =
  ht_endpoint :: string
  ht_bearer_token :: "string option"
  ht_timeout :: nat
  ht_max_response_bytes :: nat

record 'cl byte_transport =
  bt_client :: "'cl rpc_client mutex"
  bt_lease :: "nat option"
  bt_connector :: byte_connector

datatype 'cl remote_transport = HttpT http_transport | ByteT "'cl byte_transport"

definition is_http_endpoint :: "string \<Rightarrow> bool" where
  "is_http_endpoint e \<longleftrightarrow> starts_with e ''http://'' \<or> starts_with e ''https://''"

definition bearer_only_http :: adbc_error where
  "bearer_only_http = invalid [Lit (''bearer-token authentication is available only for HTTP; use mTLS ''
     @ ''identity for tls+tcp:// or endpoint identity for iroh://'')]"

definition transport_connect ::
  "('v, 'cl, 'n) dialer \<Rightarrow> string \<Rightarrow> string option \<Rightarrow> nat \<Rightarrow> nat \<Rightarrow> transport_options \<Rightarrow>
   (('v, 'n) net, adbc_error, 'cl remote_transport) step" where
  "transport_connect X raw_endpoint bearer_token t max_response opts =
     (let endpoint = normalize_endpoint raw_endpoint
      in if is_http_endpoint endpoint then
           st_bind (result_step (map_err (\<lambda>e. with_message_and_status [Str e] IO) (http_builder X t))) (\<lambda>_.
           result_step (Inr (HttpT \<lparr>ht_endpoint = endpoint, ht_bearer_token = bearer_token,
             ht_timeout = t, ht_max_response_bytes = max_response\<rparr>)))
         else if bearer_token \<noteq> None then result_step (Inl bearer_only_http)
         else if \<not> starts_with endpoint ''tcp://'' \<and> \<not> starts_with endpoint ''tls+tcp://''
                 \<and> \<not> starts_with endpoint ''iroh://''
         then result_step (Inl (not_implemented (''Grainlift URI scheme; supported schemes are grainlift, ''
           @ ''grainlift+http, grainlift+https, grainlift+tcp, grainlift+tls+tcp, grainlift+iroh, http, ''
           @ ''https, tcp, tls+tcp, and iroh'')))
         else
           (let c = \<lparr>bn_endpoint = endpoint, bn_timeout = t, bn_options = opts\<rparr>
            in st_bind (byte_connect X c) (\<lambda>(client, lease).
               result_step (Inr (ByteT \<lparr>bt_client = fresh_mutex client, bt_lease = lease, bt_connector = c\<rparr>)))))"

subsection \<open>Connection options\<close>

record remote_connection_options =
  ro_endpoint :: string
  ro_bearer_token :: "string option"
  ro_target :: string
  ro_database_options :: "named_option list"
  ro_connection_options :: "named_option list"
  ro_request_timeout_ms :: nat
  ro_max_response_bytes :: nat
  ro_max_bind_bytes :: nat
  ro_transport_options :: transport_options

definition connection_request ::
  "database \<Rightarrow> (string \<times> option_value) list \<Rightarrow> (adbc_error, remote_connection_options) result" where
  "connection_request d opts =
     try_bind (database_validate d) (\<lambda>_.
     try_bind (string_option_any d [option_grainlift_uri, standard_uri]) (\<lambda>endpoint.
     try_bind (string_option d option_target) (\<lambda>target.
     try_bind
       (case hm_get (options d) option_bearer_token of
          None \<Rightarrow> Inr None
        | Some _ \<Rightarrow> try_bind (string_option d option_bearer_token) (\<lambda>v. Inr (Some v))) (\<lambda>bearer_token.
     try_bind (positive_int_option d option_request_timeout_ms default_request_timeout_ms) (\<lambda>timeout_ms.
     try_bind (positive_int_option d option_max_response_bytes default_max_response_bytes) (\<lambda>max_response.
     try_bind (positive_int_option d option_max_bind_bytes default_max_bind_bytes) (\<lambda>max_bind.
     try_bind (optional_string d option_tls_ca) (\<lambda>ca.
     try_bind (optional_string d option_tls_cert) (\<lambda>cert.
     try_bind (optional_string d option_tls_key) (\<lambda>key.
     try_bind (optional_string d option_tls_server_name) (\<lambda>server_name.
     try_bind (optional_string d option_iroh_secret_key) (\<lambda>secret_key.
     try_bind (optional_string d option_iroh_direct_address) (\<lambda>direct.
     Inr \<lparr>ro_endpoint = endpoint, ro_bearer_token = bearer_token, ro_target = target,
          ro_database_options = remote_options d, ro_connection_options = map client_named_option opts,
          ro_request_timeout_ms = timeout_ms, ro_max_response_bytes = max_response,
          ro_max_bind_bytes = max_bind,
          ro_transport_options = \<lparr>tls_ca = ca, tls_cert = cert, tls_key = key,
            tls_server_name = server_name, iroh_secret_key = secret_key,
            iroh_direct_address = direct\<rparr>\<rparr>)))))))))))))"

subsection \<open>Where options and credentials go\<close>

lemma hm_wf_set_options: "hm_wf (options d) \<Longrightarrow> hm_wf (options (database_set_option key v d))"
  by (simp add: database_set_option_def)

text \<open>An option of the database reads back with its own type, and with no other.\<close>

lemma database_option_reads_back:
  "database_get_option_string (database_set_option key v d) key = Inr s \<longleftrightarrow> v = StringValue s"
  "database_get_option_bytes (database_set_option key v d) key = Inr b \<longleftrightarrow> v = BytesValue b"
  "database_get_option_int (database_set_option key v d) key = Inr i \<longleftrightarrow> v = IntValue i"
  "database_get_option_double (database_set_option key v d) key = Inr f \<longleftrightarrow> v = DoubleValue f"
  by (auto simp: database_get_option_string_def database_get_option_bytes_def database_get_option_int_def
      database_get_option_double_def database_set_option_def get_string_def get_bytes_def get_int_def get_double_def
      split: option_value.splits)

lemma new_database_wf: "new_database_with_opts opts = Inr d \<Longrightarrow> hm_wf (options d)"
proof -
  have "hm_wf (options (fold (\<lambda>(key, v). database_set_option key v) opts d0))"
    if "hm_wf (options d0)" for d0
    using that by (induction opts arbitrary: d0) (auto simp: hm_wf_set_options)
  from this [of new_database] show "new_database_with_opts opts = Inr d \<Longrightarrow> hm_wf (options d)"
    by (auto simp: new_database_with_opts_def new_database_def Let_def result_iffs)
qed

definition forwarded :: "database \<Rightarrow> string \<Rightarrow> option_value option" where
  "forwarded d k =
     (if is_grainlift_database_option k \<or> k = ''uri'' \<and> \<not> hm_contains (options d) option_grainlift_uri
      then None else hm_get (options d) k)"

lemma remote_options_forwarded:
  assumes "hm_wf (options d)"
  obtains os where "remote_options d = map client_named_option os" "hm_wf os" "\<forall>k. hm_get os k = forwarded d k"
proof -
  let ?P = "\<lambda>(key, _ :: option_value). \<not> is_grainlift_database_option key
    \<and> \<not> (\<not> hm_contains (options d) option_grainlift_uri \<and> key = ''uri'')"
  have "\<forall>k. hm_get (filter ?P (options d)) k = forwarded d k"
    using hm_get_filter [OF assms, of ?P] by (auto simp: forwarded_def split: option.split)
  moreover have "remote_options d = map client_named_option (filter ?P (options d))"
    by (simp only: remote_options_def Let_def)
  ultimately show ?thesis using that [of "filter ?P (options d)"] assms by simp
qed

lemma transport_connect_token:
  assumes "transport_connect X e (Some token) t mr opts s = (r, s')"
  shows "s' = s \<and> (\<forall>tr. r = Inr tr \<longrightarrow> (\<exists>h. tr = HttpT h \<and> is_http_endpoint (ht_endpoint h)))"
  using assms
  by (auto simp: transport_connect_def Let_def st_bind_def result_step_def split: if_splits sum.splits)


text \<open>A dialer whose network counts the connections that were made.\<close>

definition counting_dialer :: "(nat, nat, nat) dialer" where
  "counting_dialer =
     \<lparr>dl_json = \<lparr>from_json = (\<lambda>_. None), from_base64 = (\<lambda>_. None), display_failure = (\<lambda>e. [Str (rf_message e)])\<rparr>,
      dl_parse_url = (\<lambda>_. None), http_builder = (\<lambda>_. Inr ()), tcp_connect = (\<lambda>h p t n. (Inr n, n + 1)),
      tls_tcp_connect = (\<lambda>h p name i t n. (Inr n, n + 1)), pem_file_iter = (\<lambda>_. Inr []),
      pem_key = (\<lambda>_. Inr []), add_root = (\<lambda>_. Inr ()), tls_versions = Inr (),
      client_auth_cert = (\<lambda>c k. Inr ()), parse_iroh_target = Inr, parse_secret_key = Inr,
      parse_socket_addr = (\<lambda>_. Inl ''address''), dl_iroh = stale_iroh, process_secret_key = ''me'', spawn_thread = Inr ()\<rparr>"


end
