(* ===== verification/Client.thy ===== *)
theory Client
  imports Service Client_Options
begin

text \<open>
  The client driver (\<open>crates/adbc-driver-grainlift/src/lib.rs\<close>): a connection holds a transport and
  a session of the service, a statement and a reader hold handles of that session, and every ADBC
  call becomes a request over the transport. The RPC client library is the parameter record \<open>wire\<close>.
\<close>

subsection \<open>The RPC client library\<close>

record http_client =
  hc_endpoint :: string
  hc_protocol :: string
  hc_version :: string
  hc_timeout :: nat
  hc_max_response_bytes :: nat
  hc_headers :: "(string \<times> string) list"

datatype 'cl any_client = HttpC http_client | ByteC "'cl rpc_client"

record ('cl, 'n, 'st) wire =
  valid_header :: "string \<Rightarrow> string \<Rightarrow> (rpc_failure, unit) result"
  build_http :: "http_client \<Rightarrow> (rpc_failure, unit) result"
  call_unary :: "'cl any_client \<Rightarrow> string \<Rightarrow> record_batch \<Rightarrow> ('n, rpc_failure, record_batch) step"
  open_exchange :: "'cl any_client \<Rightarrow> string \<Rightarrow> record_batch \<Rightarrow> ('n, rpc_failure, 'st) step"
  exchange_turn :: "'st \<Rightarrow> record_batch \<Rightarrow> ('n, rpc_failure, record_batch option) step"
  cancel_stream :: "'st \<Rightarrow> 'n \<Rightarrow> 'n"
  open_producer :: "'cl any_client \<Rightarrow> string \<Rightarrow> record_batch \<Rightarrow> ('n, rpc_failure, 'st) step"
  next_with_token :: "'st \<Rightarrow> ('n, rpc_failure, (record_batch \<times> string option) option) step"
  stream_finished :: "'st \<Rightarrow> 'n \<Rightarrow> bool"
  resume_stream :: "'cl any_client \<Rightarrow> string \<Rightarrow> string \<Rightarrow> 'st"
  stream_tick :: "'st \<Rightarrow> ('n, rpc_failure, record_batch option) step"

record ('v, 'cl, 'n, 'st, 'sch) driver =
  dr_lib :: "'sch library"
  dr_dialer :: "('v, 'cl, 'n) dialer"
  dr_wire :: "('cl, 'n, 'st) wire"

type_synonym ('v, 'n, 'a) call = "(('v, 'n) net, adbc_error, 'a) step"

text \<open>A step of the network whose failure the driver reports.\<close>

definition rpc :: "('v, 'cl, 'n, 'st, 'sch) driver \<Rightarrow> ('n, rpc_failure, 'a) step \<Rightarrow> ('v, 'n, 'a) call" where
  "rpc R f = on_net (step_err (client_rpc_error (dl_json (dr_dialer R))) f)"

definition build_client ::
  "('v, 'cl, 'n, 'st, 'sch) driver \<Rightarrow> http_transport \<Rightarrow> (adbc_error, http_client) result" where
  "build_client R h =
     (let fail = client_rpc_error (dl_json (dr_dialer R));
          base = \<lparr>hc_endpoint = ht_endpoint h, hc_protocol = protocol_name, hc_version = protocol_version,
                  hc_timeout = ht_timeout h, hc_max_response_bytes = ht_max_response_bytes h, hc_headers = []\<rparr>
      in try_bind
           (case ht_bearer_token h of
              None \<Rightarrow> Inr base
            | Some token \<Rightarrow>
                try_bind (map_err fail (valid_header (dr_wire R) ''authorization'' (''Bearer '' @ token))) (\<lambda>_.
                Inr (base\<lparr>hc_headers := [(''authorization'', ''Bearer '' @ token)]\<rparr>))) (\<lambda>client.
         try_bind (map_err fail (build_http (dr_wire R) client)) (\<lambda>_. Inr client)))"

definition transport_http_client ::
  "('v, 'cl, 'n, 'st, 'sch) driver \<Rightarrow> 'cl remote_transport \<Rightarrow> (adbc_error, http_client) result" where
  "transport_http_client R t =
     (case t of
        HttpT h \<Rightarrow> build_client R h
      | ByteT _ \<Rightarrow> Inl (client_internal [Lit ''HTTP stream requested for a byte-stream transport'']))"

definition byte_poisoned :: adbc_error where
  "byte_poisoned = client_internal [Lit ''VGI byte-stream client is poisoned'']"

text \<open>The client a call goes out on: a new one for HTTP, the shared one for a byte stream.\<close>

definition client_of ::
  "('v, 'cl, 'n, 'st, 'sch) driver \<Rightarrow> 'cl remote_transport \<Rightarrow> (adbc_error, 'cl any_client) result" where
  "client_of R t =
     (case t of
        HttpT _ \<Rightarrow> try_bind (transport_http_client R t) (\<lambda>c. Inr (HttpC c))
      | ByteT b \<Rightarrow> try_bind (lock byte_poisoned (bt_client b)) (\<lambda>c. Inr (ByteC c)))"

definition transport_call ::
  "('v, 'cl, 'n, 'st, 'sch) driver \<Rightarrow> 'cl remote_transport \<Rightarrow> string \<Rightarrow> record_batch \<Rightarrow>
   ('v, 'n, record_batch) call" where
  "transport_call R t name req =
     st_bind (result_step (client_of R t)) (\<lambda>c. rpc R (call_unary (dr_wire R) c name req))"

subsection \<open>Requests and replies\<close>

definition one_row :: "field list \<Rightarrow> array list \<Rightarrow> record_batch" where
  "one_row fs cols = \<lparr>schema_fields = fs, columns = cols, num_rows = 1\<rparr>"

abbreviation text_column :: "string \<Rightarrow> array" where
  "text_column v \<equiv> StringArray [Some v]"

definition session_request :: "string \<Rightarrow> record_batch" where
  "session_request sid = one_row session_schema [text_column sid]"

definition statement_request :: "string \<Rightarrow> string \<Rightarrow> record_batch" where
  "statement_request sid hid = one_row statement_schema [text_column sid, text_column hid]"

definition connection_binary_request :: "string \<Rightarrow> bytes \<Rightarrow> record_batch" where
  "connection_binary_request sid payload =
     one_row connection_binary_schema [text_column sid, BinaryArray [Some payload]]"

definition connection_option_key_request :: "string \<Rightarrow> string \<Rightarrow> string \<Rightarrow> record_batch" where
  "connection_option_key_request sid key value_type =
     one_row connection_option_key_schema [text_column sid, text_column key, text_column value_type]"

definition statement_option_key_request :: "string \<Rightarrow> string \<Rightarrow> string \<Rightarrow> string \<Rightarrow> record_batch" where
  "statement_option_key_request sid hid key value_type =
     one_row statement_option_key_schema
       [text_column sid, text_column hid, text_column key, text_column value_type]"

definition statement_binary_request :: "string \<Rightarrow> string \<Rightarrow> bytes \<Rightarrow> record_batch" where
  "statement_binary_request sid hid payload =
     one_row statement_binary_schema [text_column sid, text_column hid, BinaryArray [Some payload]]"

definition result_request :: "string \<Rightarrow> string \<Rightarrow> record_batch" where
  "result_request sid hid = one_row result_schema_fields [text_column sid, text_column hid]"

definition read_result_request :: "string \<Rightarrow> string \<Rightarrow> record_batch" where
  "read_result_request sid hid =
     one_row read_result_schema [text_column sid, text_column hid, Int64Array [Some 0]]"

definition client_typed_request ::
  "'sch library \<Rightarrow> 'a vgi_arrow \<Rightarrow> ('a \<Rightarrow> (protocol_error, unit) result) \<Rightarrow> 'a \<Rightarrow> (adbc_error, record_batch) result"
  where
  "client_typed_request L T val v =
     map_err (\<lambda>e. invalid [Proto e]) (encode_request (l_ipc L) T val v max_control_bytes)"

definition connection_option_request ::
  "'sch library \<Rightarrow> string \<Rightarrow> string \<Rightarrow> option_value \<Rightarrow> (adbc_error, record_batch) result" where
  "connection_option_request L sid key v =
     client_typed_request L (t_set_connection_option (l_types L)) set_connection_option_validate
       \<lparr>sc_session_id = sid, sc_key = key, sc_value = wire_value_from v\<rparr>"

definition statement_option_request ::
  "'sch library \<Rightarrow> string \<Rightarrow> string \<Rightarrow> string \<Rightarrow> option_value \<Rightarrow> (adbc_error, record_batch) result" where
  "statement_option_request L sid hid key v =
     client_typed_request L (t_set_statement_option (l_types L)) set_statement_option_validate
       \<lparr>ss_session_id = sid, ss_statement_id = hid, ss_key = key, ss_value = wire_value_from v\<rparr>"

definition client_decode_response ::
  "'sch library \<Rightarrow> 'a vgi_arrow \<Rightarrow> ('a \<Rightarrow> (protocol_error, unit) result) \<Rightarrow> record_batch \<Rightarrow> (adbc_error, 'a) result"
  where
  "client_decode_response L T val b =
     map_err (\<lambda>e. client_internal [Proto e]) (decode_response (l_ipc L) T val b max_control_bytes)"

definition client_decode_schema :: "'sch library \<Rightarrow> bytes \<Rightarrow> (adbc_error, 'sch) result" where
  "client_decode_schema L bs = map_err (\<lambda>e. client_internal [Proto e]) (decode_schema L bs)"

definition decode_schema_response :: "'sch library \<Rightarrow> record_batch \<Rightarrow> (adbc_error, 'sch) result" where
  "decode_schema_response L b =
     try_bind (client_decode_response L (t_schema (l_types L)) response_validate b) (\<lambda>r.
     client_decode_schema L (sm_schema_ipc r))"

definition decode_option_response :: "'sch library \<Rightarrow> record_batch \<Rightarrow> (adbc_error, option_value) result" where
  "decode_option_response L b =
     try_bind (client_decode_response L (t_value (l_types L)) value_response_validate b) (\<lambda>r.
     map_err (\<lambda>e. client_internal [Proto e]) (wire_value_into_adbc (vr_value r)))"

definition validate_bind_ack :: "record_batch \<Rightarrow> (adbc_error, unit) result" where
  "validate_bind_ack b =
     (if schema_fields b \<noteq> empty_response_schema \<or> num_rows b \<noteq> 1
      then Inl (client_internal [Lit ''invalid bind acknowledgement schema or row count''])
      else
        case columns b ! 0 of
          BooleanArray vs \<Rightarrow>
            if value0 vs \<noteq> Some True
            then Inl (client_internal [Lit ''bind acknowledgement must be true'']) else Inr ()
        | _ \<Rightarrow> Inl (client_internal [Lit ''invalid bind acknowledgement type'']))"

subsection \<open>The connection\<close>

record 'cl remote_connection =
  rm_transport :: "'cl remote_transport"
  rm_session_id :: string
  rm_max_bind_bytes :: nat

text \<open>The end of a lease on a pooled connection, alone and with the transport that holds it.\<close>

definition release :: "nat option \<Rightarrow> ('v, 'n) net \<Rightarrow> ('v, 'n) net" where
  "release lease s = (case lease of None \<Rightarrow> s | Some i \<Rightarrow> (drop_slot i (fst s), snd s))"

definition release_transport :: "'cl remote_transport \<Rightarrow> ('v, 'n) net \<Rightarrow> ('v, 'n) net" where
  "release_transport t s = (case t of ByteT b \<Rightarrow> release (bt_lease b) s | HttpT _ \<Rightarrow> s)"

text \<open>An early return drops the transport, and with it the lease.\<close>

definition keeping_transport :: "'cl remote_transport \<Rightarrow> ('v, 'n, 'a) call \<Rightarrow> ('v, 'n, 'a) call" where
  "keeping_transport t f s =
     (case f s of (Inl e, s') \<Rightarrow> (Inl e, release_transport t s') | (Inr v, s') \<Rightarrow> (Inr v, s'))"

definition remote_open ::
  "('v, 'cl, 'n, 'st, 'sch) driver \<Rightarrow> remote_connection_options \<Rightarrow> ('v, 'n, 'cl remote_connection) call" where
  "remote_open R ro =
     st_bind (transport_connect (dr_dialer R) (ro_endpoint ro) (ro_bearer_token ro)
       (ro_request_timeout_ms ro) (ro_max_response_bytes ro) (ro_transport_options ro)) (\<lambda>transport.
     keeping_transport transport
     (st_bind (result_step (client_typed_request (dr_lib R) (t_open_connection (l_types (dr_lib R)))
       open_request_validate
       \<lparr>oc_target = ro_target ro, oc_database_options = ro_database_options ro,
        oc_connection_options = ro_connection_options ro\<rparr>)) (\<lambda>req.
     st_bind (transport_call R transport ''open_connection'' req) (\<lambda>response.
     st_bind (result_step (client_decode_response (dr_lib R) (t_session (l_types (dr_lib R)))
       response_validate response)) (\<lambda>r.
     result_step (Inr \<lparr>rm_transport = transport, rm_session_id = sr_session_id r,
       rm_max_bind_bytes = ro_max_bind_bytes ro\<rparr>))))))"

definition new_connection_with_opts ::
  "('v, 'cl, 'n, 'st, 'sch) driver \<Rightarrow> database \<Rightarrow> (string \<times> option_value) list \<Rightarrow>
   ('v, 'n, 'cl remote_connection) call" where
  "new_connection_with_opts R d opts =
     st_bind (result_step (connection_request d opts)) (\<lambda>ro. remote_open R ro)"

definition new_connection :: "('v, 'cl, 'n, 'st, 'sch) driver \<Rightarrow> database \<Rightarrow> ('v, 'n, 'cl remote_connection) call" where
  "new_connection R d = new_connection_with_opts R d []"

text \<open>The methods whose reply is only an acknowledgement, which has to be true.\<close>

definition acknowledged :: "string list" where
  "acknowledged =
     [''close_connection'', ''commit'', ''rollback'', ''cancel_connection'', ''set_connection_option'',
      ''close_statement'', ''set_statement_option'', ''prepare'', ''set_sql_query'',
      ''set_substrait_plan'', ''cancel_statement'', ''close_result'']"

definition check_reply :: "'sch library \<Rightarrow> string \<Rightarrow> record_batch \<Rightarrow> (adbc_error, record_batch) result" where
  "check_reply L name response =
     (if name \<in> set acknowledged then
        try_bind (client_decode_response L (t_ok (l_types L)) response_validate response) (\<lambda>r.
        if \<not> or_ok r then Inl (client_internal [Lit ''unary acknowledgement must be true'']) else Inr response)
      else Inr response)"

definition remote_call ::
  "('v, 'cl, 'n, 'st, 'sch) driver \<Rightarrow> 'cl remote_connection \<Rightarrow> string \<Rightarrow> record_batch \<Rightarrow>
   ('v, 'n, record_batch) call" where
  "remote_call R rm name req =
     st_bind (transport_call R (rm_transport rm) name req) (\<lambda>response.
     result_step (check_reply (dr_lib R) name response))"

definition call_ok ::
  "('v, 'cl, 'n, 'st, 'sch) driver \<Rightarrow> 'cl remote_connection \<Rightarrow> string \<Rightarrow> record_batch \<Rightarrow> ('v, 'n, unit) call" where
  "call_ok R rm name req = st_bind (remote_call R rm name req) (\<lambda>_. result_step (Inr ()))"

definition session_call ::
  "('v, 'cl, 'n, 'st, 'sch) driver \<Rightarrow> 'cl remote_connection \<Rightarrow> string \<Rightarrow> ('v, 'n, unit) call" where
  "session_call R rm name = call_ok R rm name (session_request (rm_session_id rm))"

text \<open>Dropping a connection closes its session; what the service answers is ignored.\<close>

definition remote_drop ::
  "('v, 'cl, 'n, 'st, 'sch) driver \<Rightarrow> 'cl remote_connection \<Rightarrow> ('v, 'n) net \<Rightarrow> ('v, 'n) net" where
  "remote_drop R rm s =
     (let s' = snd (remote_call R rm ''close_connection'' (session_request (rm_session_id rm)) s)
      in release_transport (rm_transport rm) s')"

subsection \<open>Readers\<close>

text \<open>
  The reader of a result. Over HTTP each turn is a request that continues from a token; over a
  byte stream a worker thread owns the stream and stops after its end or an error.
\<close>

datatype 'st reader_mode =
    HttpMode "record_batch list" "string option" \<comment> \<open>pending batches, continuation\<close>
  | ByteMode "('st \<times> nat option) option" \<comment> \<open>the stream and the lease of the worker while it runs\<close>

record ('st, 'sch) remote_reader =
  rr_result_id :: string
  rr_schema :: 'sch
  rr_mode :: "'st reader_mode"
  rr_finished :: bool

definition byte_reader_open ::
  "('v, 'cl, 'n, 'st, 'sch) driver \<Rightarrow> byte_connector \<Rightarrow> record_batch \<Rightarrow> ('v, 'n, 'st \<times> nat option) call" where
  "byte_reader_open R c req =
     st_bind (result_step (map_err (\<lambda>e. client_internal [Lit ''start result stream worker: '', Str e])
       (spawn_thread (dr_dialer R)))) (\<lambda>_.
     st_bind (byte_connect (dr_dialer R) c) (\<lambda>(client, lease) s.
     (case rpc R (open_producer (dr_wire R) (ByteC client) ''read_result'' req) s of
        (Inl e, s') \<Rightarrow> (Inl e, release lease s')
      | (Inr st, s') \<Rightarrow> (Inr (st, lease), s'))))"

definition byte_reader_next ::
  "('v, 'cl, 'n, 'st, 'sch) driver \<Rightarrow> ('st \<times> nat option) option \<Rightarrow> ('v, 'n) net \<Rightarrow>
   (adbc_error, record_batch option) result \<times> ('st \<times> nat option) option \<times> ('v, 'n) net" where
  "byte_reader_next R worker s =
     (case worker of
        None \<Rightarrow> (Inl (client_internal [Lit ''result stream worker stopped'']), None, s)
      | Some (st, lease) \<Rightarrow>
          (case rpc R (stream_tick (dr_wire R) st) s of
             (Inr (Some b), s') \<Rightarrow> (Inr (Some b), worker, s')
           | (r, s') \<Rightarrow> (r, None, release lease s')))"

text \<open>One request of an HTTP result stream: the batch, the continuation and whether the stream ended.\<close>

definition http_turn ::
  "('v, 'cl, 'n, 'st, 'sch) driver \<Rightarrow> 'st \<Rightarrow> ('v, 'n, record_batch option \<times> string option \<times> bool) call" where
  "http_turn R st =
     st_bind (rpc R (next_with_token (dr_wire R) st)) (\<lambda>v (p, n).
     (Inr (case v of
             Some (b, token) \<Rightarrow> (Some b, token, stream_finished (dr_wire R) st n)
           | None \<Rightarrow> (None, None, True)), (p, n)))"

definition reader_open ::
  "('v, 'cl, 'n, 'st, 'sch) driver \<Rightarrow> 'cl remote_connection \<Rightarrow> string \<Rightarrow> 'sch \<Rightarrow>
   ('v, 'n, ('st, 'sch) remote_reader) call" where
  "reader_open R rm hid sch =
     (let req = read_result_request (rm_session_id rm) hid
      in case rm_transport rm of
           ByteT b \<Rightarrow>
             st_bind (byte_reader_open R (bt_connector b) req) (\<lambda>worker.
             result_step (Inr \<lparr>rr_result_id = hid, rr_schema = sch, rr_mode = ByteMode (Some worker),
               rr_finished = False\<rparr>))
         | HttpT _ \<Rightarrow>
             st_bind (result_step (transport_http_client R (rm_transport rm))) (\<lambda>client.
             st_bind (rpc R (open_producer (dr_wire R) (HttpC client) ''read_result'' req)) (\<lambda>st.
             st_bind (http_turn R st) (\<lambda>(first, continuation, fin).
             result_step (Inr \<lparr>rr_result_id = hid, rr_schema = sch,
               rr_mode = HttpMode (case first of Some b \<Rightarrow> [b] | None \<Rightarrow> []) continuation,
               rr_finished = fin\<rparr>)))))"

definition next_remote ::
  "('v, 'cl, 'n, 'st, 'sch) driver \<Rightarrow> 'cl remote_connection \<Rightarrow> ('st, 'sch) remote_reader \<Rightarrow> ('v, 'n) net \<Rightarrow>
   (adbc_error, record_batch option) result \<times> ('st, 'sch) remote_reader \<times> ('v, 'n) net" where
  "next_remote R rm rd s =
     (if rr_finished rd then (Inr None, rd, s)
      else
        case rr_mode rd of
          HttpMode (b # queued) continuation \<Rightarrow>
            (Inr (Some b), rd\<lparr>rr_mode := HttpMode queued continuation\<rparr>, s)
        | HttpMode [] None \<Rightarrow> (Inr None, rd\<lparr>rr_finished := True\<rparr>, s)
        | HttpMode [] (Some token) \<Rightarrow>
            (let taken = rd\<lparr>rr_mode := HttpMode [] None\<rparr>
             in case transport_http_client R (rm_transport rm) of
                  Inl e \<Rightarrow> (Inl e, taken, s)
                | Inr client \<Rightarrow>
                    (case http_turn R (resume_stream (dr_wire R) (HttpC client) ''read_result'' token) s of
                       (Inl e, s') \<Rightarrow> (Inl e, taken, s')
                     | (Inr (b, continuation, fin), s') \<Rightarrow>
                         (Inr b, rd\<lparr>rr_mode := HttpMode [] continuation, rr_finished := fin \<or> continuation = None\<rparr>,
                          s')))
        | ByteMode worker \<Rightarrow>
            (case byte_reader_next R worker s of
               (Inl e, worker', s') \<Rightarrow> (Inl e, rd\<lparr>rr_mode := ByteMode worker'\<rparr>, s')
             | (Inr b, worker', s') \<Rightarrow> (Inr b, rd\<lparr>rr_mode := ByteMode worker', rr_finished := b = None\<rparr>, s')))"

text \<open>\<open>Iterator::next\<close>: an error is reported once and ends the reader.\<close>

definition reader_next ::
  "('v, 'cl, 'n, 'st, 'sch) driver \<Rightarrow> 'cl remote_connection \<Rightarrow> ('st, 'sch) remote_reader \<Rightarrow> ('v, 'n) net \<Rightarrow>
   (adbc_error, record_batch) result option \<times> ('st, 'sch) remote_reader \<times> ('v, 'n) net" where
  "reader_next R rm rd s =
     (case next_remote R rm rd s of
        (Inr (Some b), rd', s') \<Rightarrow> (Some (Inr b), rd', s')
      | (Inr None, rd', s') \<Rightarrow> (None, rd', s')
      | (Inl e, rd', s') \<Rightarrow> (Some (Inl e), rd'\<lparr>rr_finished := True\<rparr>, s'))"

text \<open>Dropping a reader closes its result; its worker, if any, cancels the stream.\<close>

definition reader_drop ::
  "('v, 'cl, 'n, 'st, 'sch) driver \<Rightarrow> 'cl remote_connection \<Rightarrow> ('st, 'sch) remote_reader \<Rightarrow> ('v, 'n) net \<Rightarrow>
   ('v, 'n) net" where
  "reader_drop R rm rd s =
     (let s' = snd (remote_call R rm ''close_result'' (result_request (rm_session_id rm) (rr_result_id rd)) s)
      in case rr_mode rd of
           ByteMode (Some (st, lease)) \<Rightarrow>
             release lease (case s' of (p, n) \<Rightarrow> (p, cancel_stream (dr_wire R) st n))
         | _ \<Rightarrow> s')"

definition reader_from_response ::
  "('v, 'cl, 'n, 'st, 'sch) driver \<Rightarrow> 'cl remote_connection \<Rightarrow> record_batch \<Rightarrow>
   ('v, 'n, ('st, 'sch) remote_reader) call" where
  "reader_from_response R rm response =
     st_bind (result_step (client_decode_response (dr_lib R) (t_execute (l_types (dr_lib R)))
       execute_response_validate response)) (\<lambda>r.
     st_bind (result_step (client_decode_schema (dr_lib R) (er_schema_ipc r))) (\<lambda>sch.
     reader_open R rm (er_result_id r) sch))"

definition connection_stream_call ::
  "('v, 'cl, 'n, 'st, 'sch) driver \<Rightarrow> 'cl remote_connection \<Rightarrow> string \<Rightarrow> 'a vgi_arrow \<Rightarrow>
   ('a \<Rightarrow> (protocol_error, unit) result) \<Rightarrow> 'a \<Rightarrow> ('v, 'n, ('st, 'sch) remote_reader) call" where
  "connection_stream_call R rm name T val args =
     st_bind (result_step (client_typed_request (dr_lib R) T val args)) (\<lambda>req.
     st_bind (remote_call R rm name req) (\<lambda>response. reader_from_response R rm response))"

definition session_stream_call ::
  "('v, 'cl, 'n, 'st, 'sch) driver \<Rightarrow> 'cl remote_connection \<Rightarrow> string \<Rightarrow>
   ('v, 'n, ('st, 'sch) remote_reader) call" where
  "session_stream_call R rm name =
     st_bind (remote_call R rm name (session_request (rm_session_id rm))) (\<lambda>response.
     reader_from_response R rm response)"

definition connection_schema_call ::
  "('v, 'cl, 'n, 'st, 'sch) driver \<Rightarrow> 'cl remote_connection \<Rightarrow> string \<Rightarrow> 'a vgi_arrow \<Rightarrow>
   ('a \<Rightarrow> (protocol_error, unit) result) \<Rightarrow> 'a \<Rightarrow> ('v, 'n, 'sch) call" where
  "connection_schema_call R rm name T val args =
     st_bind (result_step (client_typed_request (dr_lib R) T val args)) (\<lambda>req.
     st_bind (remote_call R rm name req) (\<lambda>response.
     result_step (decode_schema_response (dr_lib R) response)))"

subsection \<open>Binding\<close>

definition bind_init_request :: "string \<Rightarrow> string \<Rightarrow> bytes \<Rightarrow> record_batch" where
  "bind_init_request sid hid schema_ipc =
     one_row bind_init_schema [text_column sid, text_column hid, BinaryArray [Some schema_ipc]]"

definition size_overflow :: adbc_error where
  "size_overflow = invalid [Lit ''bind stream size overflow'']"

text \<open>
  The loop that sends the batches: each is counted, encoded and exchanged before the next is taken.
  \<open>from_arrow\<close> converts an error of the reader.
\<close>

fun send_batches ::
  "arrow_ipc \<Rightarrow> (string \<Rightarrow> adbc_error) \<Rightarrow> nat \<Rightarrow> (record_batch \<Rightarrow> ('m, adbc_error, unit) step) \<Rightarrow>
   nat \<Rightarrow> nat \<Rightarrow> (string, record_batch) result list \<Rightarrow> ('m, adbc_error, unit) step" where
  "send_batches A from_arrow max_bind turn logical encoded [] =
     st_bind (result_step (map_err (\<lambda>e. invalid [Proto e])
       (encode_bind_turn A None (min max_bind max_control_bytes)))) turn"
| "send_batches A from_arrow max_bind turn logical encoded (entry # rest) =
     st_bind (result_step (map_err from_arrow entry)) (\<lambda>b.
     st_bind (result_step (ok_or size_overflow (checked_add logical (memory_size A b)))) (\<lambda>logical'.
     st_bind (result_step (reject_if (logical' > max_bind)
       (invalid [Lit ''bind stream exceeds the '', Num (int max_bind), Lit '' byte limit (at least '',
                 Num (int logical'), Lit '' bytes)'']))) (\<lambda>_.
     st_bind (result_step (map_err (\<lambda>e. invalid [Proto e])
       (encode_bind_turn A (Some b) (min max_bind max_control_bytes)))) (\<lambda>t.
     st_bind (result_step (map_err (\<lambda>e. invalid [Proto e]) (binary_value t ''batch_ipc''))) (\<lambda>payload.
     st_bind (result_step (ok_or size_overflow (checked_add encoded (length payload)))) (\<lambda>encoded'.
     st_bind (result_step (reject_if (encoded' > max_bind)
       (invalid [Lit ''serialized bind stream exceeds configured byte limit'']))) (\<lambda>_.
     st_bind (turn t) (\<lambda>_.
     send_batches A from_arrow max_bind turn logical' encoded' rest))))))))"

definition bind_exchange_turn ::
  "('v, 'cl, 'n, 'st, 'sch) driver \<Rightarrow> 'st \<Rightarrow> record_batch \<Rightarrow> ('v, 'n, unit) call" where
  "bind_exchange_turn R st t =
     st_bind (rpc R (exchange_turn (dr_wire R) st t)) (\<lambda>ack.
     st_bind (result_step (ok_or (client_internal [Lit ''bind exchange ended before acknowledgement'']) ack)) (\<lambda>b.
     result_step (validate_bind_ack b)))"

definition bind_batches ::
  "('v, 'cl, 'n, 'st, 'sch) driver \<Rightarrow> 'cl remote_connection \<Rightarrow> string \<Rightarrow> string \<Rightarrow> (string \<Rightarrow> adbc_error) \<Rightarrow>
   'sch \<Rightarrow> (string, record_batch) result list \<Rightarrow> ('v, 'n, unit) call" where
  "bind_batches R rm name hid from_arrow sch items =
     st_bind (result_step (map_err (\<lambda>e. invalid [Proto e]) (encode_schema (dr_lib R) sch))) (\<lambda>schema_ipc.
     st_bind (result_step (client_of R (rm_transport rm))) (\<lambda>client.
     st_bind (rpc R (open_exchange (dr_wire R) client name
       (bind_init_request (rm_session_id rm) hid schema_ipc))) (\<lambda>st s.
     (case send_batches (l_ipc (dr_lib R)) from_arrow (rm_max_bind_bytes rm) (bind_exchange_turn R st) 0 0 items s of
        (Inr u, s') \<Rightarrow> (Inr u, s')
      | (Inl e, (p, n)) \<Rightarrow> (Inl e, (p, cancel_stream (dr_wire R) st n))))))"

subsection \<open>Connection methods\<close>

definition connection_set_option ::
  "('v, 'cl, 'n, 'st, 'sch) driver \<Rightarrow> 'cl remote_connection \<Rightarrow> string \<Rightarrow> option_value \<Rightarrow> ('v, 'n, unit) call" where
  "connection_set_option R rm key v =
     st_bind (result_step (connection_option_request (dr_lib R) (rm_session_id rm) key v)) (\<lambda>req.
     call_ok R rm ''set_connection_option'' req)"

definition get_connection_option ::
  "('v, 'cl, 'n, 'st, 'sch) driver \<Rightarrow> 'cl remote_connection \<Rightarrow> string \<Rightarrow> string \<Rightarrow> ('v, 'n, option_value) call" where
  "get_connection_option R rm key value_type =
     st_bind (remote_call R rm ''get_connection_option''
       (connection_option_key_request (rm_session_id rm) key value_type)) (\<lambda>response.
     result_step (decode_option_response (dr_lib R) response))"

definition wrong_value_type :: adbc_error where
  "wrong_value_type = client_internal [Lit ''Grainlift returned the wrong option value type'']"

fun as_string :: "option_value \<Rightarrow> (adbc_error, string) result" where
  "as_string (StringValue v) = Inr v"
| "as_string _ = Inl wrong_value_type"

fun as_bytes :: "option_value \<Rightarrow> (adbc_error, bytes) result" where
  "as_bytes (BytesValue v) = Inr v"
| "as_bytes _ = Inl wrong_value_type"

fun as_int :: "option_value \<Rightarrow> (adbc_error, int) result" where
  "as_int (IntValue v) = Inr v"
| "as_int _ = Inl wrong_value_type"

fun as_double :: "option_value \<Rightarrow> (adbc_error, 64 word) result" where
  "as_double (DoubleValue v) = Inr v"
| "as_double _ = Inl wrong_value_type"

definition then_result :: "('m, 'e, 'a) step \<Rightarrow> ('a \<Rightarrow> ('e, 'b) result) \<Rightarrow> ('m, 'e, 'b) step" where
  "then_result f g = st_bind f (\<lambda>v. result_step (g v))"

definition connection_get_string where
  "connection_get_string R rm key = then_result (get_connection_option R rm key ''string'') as_string"

definition connection_get_bytes where
  "connection_get_bytes R rm key = then_result (get_connection_option R rm key ''bytes'') as_bytes"

definition connection_get_int where
  "connection_get_int R rm key = then_result (get_connection_option R rm key ''int'') as_int"

definition connection_get_double where
  "connection_get_double R rm key = then_result (get_connection_option R rm key ''double'') as_double"

definition connection_new_statement ::
  "('v, 'cl, 'n, 'st, 'sch) driver \<Rightarrow> 'cl remote_connection \<Rightarrow> ('v, 'n, string) call" where
  "connection_new_statement R rm =
     st_bind (remote_call R rm ''new_statement'' (session_request (rm_session_id rm))) (\<lambda>response.
     st_bind (result_step (client_decode_response (dr_lib R) (t_statement (l_types (dr_lib R)))
       response_validate response)) (\<lambda>r.
     result_step (Inr (st_statement_id r))))"

definition connection_get_info_stream ::
  "('v, 'cl, 'n, 'st, 'sch) driver \<Rightarrow> 'cl remote_connection \<Rightarrow> u32 list option \<Rightarrow>
   ('v, 'n, ('st, 'sch) remote_reader) call" where
  "connection_get_info_stream R rm codes =
     connection_stream_call R rm ''get_info'' (t_get_info (l_types (dr_lib R))) get_info_validate
       \<lparr>gi_session_id = rm_session_id rm, gi_codes = map_option (map (\<lambda>c. int (unat c))) codes\<rparr>"

definition connection_get_objects ::
  "('v, 'cl, 'n, 'st, 'sch) driver \<Rightarrow> 'cl remote_connection \<Rightarrow> int \<Rightarrow> string option \<Rightarrow> string option \<Rightarrow>
   string option \<Rightarrow> string list option \<Rightarrow> string option \<Rightarrow> ('v, 'n, ('st, 'sch) remote_reader) call" where
  "connection_get_objects R rm depth catalog db_schema table types col =
     connection_stream_call R rm ''get_objects'' (t_get_objects (l_types (dr_lib R))) get_objects_validate
       \<lparr>go_session_id = rm_session_id rm, go_depth = depth, go_catalog = catalog, go_db_schema = db_schema,
        go_table_name = table, go_table_types = types, go_column_name = col\<rparr>"

definition connection_get_table_schema ::
  "('v, 'cl, 'n, 'st, 'sch) driver \<Rightarrow> 'cl remote_connection \<Rightarrow> string option \<Rightarrow> string option \<Rightarrow> string \<Rightarrow>
   ('v, 'n, 'sch) call" where
  "connection_get_table_schema R rm catalog db_schema table =
     connection_schema_call R rm ''get_table_schema'' (t_get_table_schema (l_types (dr_lib R)))
       get_table_schema_validate
       \<lparr>gt_session_id = rm_session_id rm, gt_catalog = catalog, gt_db_schema = db_schema, gt_table_name = table\<rparr>"

definition connection_get_table_types where
  "connection_get_table_types R rm = session_stream_call R rm ''get_table_types''"

definition connection_get_statistic_names where
  "connection_get_statistic_names R rm = session_stream_call R rm ''get_statistic_names''"

definition connection_get_statistics ::
  "('v, 'cl, 'n, 'st, 'sch) driver \<Rightarrow> 'cl remote_connection \<Rightarrow> string option \<Rightarrow> string option \<Rightarrow>
   string option \<Rightarrow> bool \<Rightarrow> ('v, 'n, ('st, 'sch) remote_reader) call" where
  "connection_get_statistics R rm catalog db_schema table approximate =
     connection_stream_call R rm ''get_statistics'' (t_get_statistics (l_types (dr_lib R))) get_statistics_validate
       \<lparr>gs_session_id = rm_session_id rm, gs_catalog = catalog, gs_db_schema = db_schema,
        gs_table_name = table, gs_approximate = approximate\<rparr>"

definition connection_commit where
  "connection_commit R rm = session_call R rm ''commit''"

definition connection_rollback where
  "connection_rollback R rm = session_call R rm ''rollback''"

definition connection_read_partition ::
  "('v, 'cl, 'n, 'st, 'sch) driver \<Rightarrow> 'cl remote_connection \<Rightarrow> bytes \<Rightarrow>
   ('v, 'n, ('st, 'sch) remote_reader) call" where
  "connection_read_partition R rm token =
     st_bind (remote_call R rm ''read_partition'' (connection_binary_request (rm_session_id rm) token))
       (\<lambda>response. reader_from_response R rm response)"

text \<open>A cancel handle holds the connection weakly: without it there is nothing to cancel.\<close>

definition connection_try_cancel ::
  "('v, 'cl, 'n, 'st, 'sch) driver \<Rightarrow> 'cl remote_connection option \<Rightarrow> ('v, 'n, unit) call" where
  "connection_try_cancel R rm =
     (case rm of None \<Rightarrow> result_step (Inr ()) | Some rm \<Rightarrow> session_call R rm ''cancel_connection'')"

subsection \<open>Statement methods\<close>

definition statement_call ::
  "('v, 'cl, 'n, 'st, 'sch) driver \<Rightarrow> 'cl remote_connection \<Rightarrow> string \<Rightarrow> string \<Rightarrow> ('v, 'n, record_batch) call" where
  "statement_call R rm hid name = remote_call R rm name (statement_request (rm_session_id rm) hid)"

definition statement_drop ::
  "('v, 'cl, 'n, 'st, 'sch) driver \<Rightarrow> 'cl remote_connection \<Rightarrow> string \<Rightarrow> ('v, 'n) net \<Rightarrow> ('v, 'n) net" where
  "statement_drop R rm hid s = snd (statement_call R rm hid ''close_statement'' s)"

definition statement_set_option ::
  "('v, 'cl, 'n, 'st, 'sch) driver \<Rightarrow> 'cl remote_connection \<Rightarrow> string \<Rightarrow> string \<Rightarrow> option_value \<Rightarrow>
   ('v, 'n, unit) call" where
  "statement_set_option R rm hid key v =
     st_bind (result_step (statement_option_request (dr_lib R) (rm_session_id rm) hid key v)) (\<lambda>req.
     call_ok R rm ''set_statement_option'' req)"

definition statement_get_option ::
  "('v, 'cl, 'n, 'st, 'sch) driver \<Rightarrow> 'cl remote_connection \<Rightarrow> string \<Rightarrow> string \<Rightarrow> string \<Rightarrow>
   ('v, 'n, option_value) call" where
  "statement_get_option R rm hid key value_type =
     st_bind (remote_call R rm ''get_statement_option''
       (statement_option_key_request (rm_session_id rm) hid key value_type)) (\<lambda>response.
     result_step (decode_option_response (dr_lib R) response))"

definition statement_get_string where
  "statement_get_string R rm hid key = then_result (statement_get_option R rm hid key ''string'') as_string"

definition statement_get_bytes where
  "statement_get_bytes R rm hid key = then_result (statement_get_option R rm hid key ''bytes'') as_bytes"

definition statement_get_int where
  "statement_get_int R rm hid key = then_result (statement_get_option R rm hid key ''int'') as_int"

definition statement_get_double where
  "statement_get_double R rm hid key = then_result (statement_get_option R rm hid key ''double'') as_double"

definition statement_bind where
  "statement_bind R rm hid from_arrow sch b = bind_batches R rm ''bind'' hid from_arrow sch [Inr b]"

definition statement_bind_stream where
  "statement_bind_stream R rm hid from_arrow sch items = bind_batches R rm ''bind_stream'' hid from_arrow sch items"

definition statement_execute ::
  "('v, 'cl, 'n, 'st, 'sch) driver \<Rightarrow> 'cl remote_connection \<Rightarrow> string \<Rightarrow> ('v, 'n, ('st, 'sch) remote_reader) call" where
  "statement_execute R rm hid =
     st_bind (statement_call R rm hid ''execute'') (\<lambda>response. reader_from_response R rm response)"

definition statement_execute_update ::
  "('v, 'cl, 'n, 'st, 'sch) driver \<Rightarrow> 'cl remote_connection \<Rightarrow> string \<Rightarrow> ('v, 'n, int option) call" where
  "statement_execute_update R rm hid =
     st_bind (statement_call R rm hid ''execute_update'') (\<lambda>response.
     st_bind (result_step (client_decode_response (dr_lib R) (t_update (l_types (dr_lib R)))
       update_response_validate response)) (\<lambda>r. result_step (Inr (up_rows_affected r))))"

definition statement_execute_schema ::
  "('v, 'cl, 'n, 'st, 'sch) driver \<Rightarrow> 'cl remote_connection \<Rightarrow> string \<Rightarrow> ('v, 'n, 'sch) call" where
  "statement_execute_schema R rm hid =
     then_result (statement_call R rm hid ''execute_schema'') (decode_schema_response (dr_lib R))"

definition statement_get_parameter_schema ::
  "('v, 'cl, 'n, 'st, 'sch) driver \<Rightarrow> 'cl remote_connection \<Rightarrow> string \<Rightarrow> ('v, 'n, 'sch) call" where
  "statement_get_parameter_schema R rm hid =
     then_result (statement_call R rm hid ''get_parameter_schema'') (decode_schema_response (dr_lib R))"

definition statement_execute_partitions ::
  "('v, 'cl, 'n, 'st, 'sch) driver \<Rightarrow> 'cl remote_connection \<Rightarrow> string \<Rightarrow> ('v, 'n, bytes list \<times> 'sch \<times> int) call" where
  "statement_execute_partitions R rm hid =
     st_bind (statement_call R rm hid ''execute_partitions'') (\<lambda>response.
     st_bind (result_step (client_decode_response (dr_lib R) (t_partitions (l_types (dr_lib R)))
       partitions_response_validate response)) (\<lambda>r.
     st_bind (result_step (client_decode_schema (dr_lib R) (pr_schema_ipc r))) (\<lambda>sch.
     result_step (Inr (pr_partitions r, sch, pr_rows_affected r)))))"

definition statement_prepare ::
  "('v, 'cl, 'n, 'st, 'sch) driver \<Rightarrow> 'cl remote_connection \<Rightarrow> string \<Rightarrow> ('v, 'n, unit) call" where
  "statement_prepare R rm hid = call_ok R rm ''prepare'' (statement_request (rm_session_id rm) hid)"

definition statement_set_sql_query ::
  "('v, 'cl, 'n, 'st, 'sch) driver \<Rightarrow> 'cl remote_connection \<Rightarrow> string \<Rightarrow> string \<Rightarrow> ('v, 'n, unit) call" where
  "statement_set_sql_query R rm hid query =
     call_ok R rm ''set_sql_query''
       (one_row set_sql_schema [text_column (rm_session_id rm), text_column hid, text_column query])"

definition statement_set_substrait_plan ::
  "('v, 'cl, 'n, 'st, 'sch) driver \<Rightarrow> 'cl remote_connection \<Rightarrow> string \<Rightarrow> bytes \<Rightarrow> ('v, 'n, unit) call" where
  "statement_set_substrait_plan R rm hid plan =
     call_ok R rm ''set_substrait_plan'' (statement_binary_request (rm_session_id rm) hid plan)"

definition statement_try_cancel ::
  "('v, 'cl, 'n, 'st, 'sch) driver \<Rightarrow> 'cl remote_connection option \<Rightarrow> string \<Rightarrow> ('v, 'n, unit) call" where
  "statement_try_cancel R rm hid =
     (case rm of
        None \<Rightarrow> result_step (Inr ())
      | Some rm \<Rightarrow> call_ok R rm ''cancel_statement'' (statement_request (rm_session_id rm) hid))"

end
