(* ===== verification/Client_Info.thy ===== *)
theory Client_Info
  imports Client
begin

text \<open>
  \<open>GetInfo\<close> of the client driver (\<open>crates/adbc-driver-grainlift/src/lib.rs\<close>): the rows about the
  driver itself come from the driver and replace those of the driver behind the service; all other
  rows are passed on. The columns of a batch and slicing are parameters of Arrow, the codes
  parameters of ADBC.
\<close>

subsection \<open>Parameters\<close>

record 'b info_ops =
  info_names_of :: "'b \<Rightarrow> u32 list option" \<comment> \<open>the \<open>info_name\<close> column, if it is a \<open>UInt32Array\<close>\<close>
  slice_of :: "'b \<Rightarrow> nat \<Rightarrow> nat \<Rightarrow> 'b"
  rows_of :: "'b \<Rightarrow> nat"

record info_codes =
  driver_name_code :: u32
  driver_version_code :: u32
  driver_arrow_version_code :: u32
  driver_adbc_version_code :: u32
  package_version :: string
  adbc_version :: int

definition is_grainlift_driver_info :: "info_codes \<Rightarrow> u32 \<Rightarrow> bool" where
  "is_grainlift_driver_info K code \<longleftrightarrow>
     code = driver_name_code K \<or> code = driver_version_code K \<or> code = driver_arrow_version_code K
     \<or> code = driver_adbc_version_code K"

subsection \<open>The driver's own rows\<close>

definition driver_info_name :: string where "driver_info_name = ''Grainlift ADBC Driver''"
definition driver_arrow_version :: string where "driver_arrow_version = ''v59''"

text \<open>
  The columns of the batch before they become arrays: the codes, the union's type of each row and
  its offset into the strings or the integers.
\<close>

record own_info =
  info_names :: "u32 list"
  type_ids :: "int list"
  offsets :: "nat list"
  strings :: "string list"
  integers :: "int list"

definition add_string :: "u32 \<Rightarrow> string \<Rightarrow> own_info \<Rightarrow> own_info" where
  "add_string code v acc =
     acc\<lparr>info_names := info_names acc @ [code], type_ids := type_ids acc @ [0],
         offsets := offsets acc @ [length (strings acc)], strings := strings acc @ [v]\<rparr>"

definition add_integer :: "u32 \<Rightarrow> int \<Rightarrow> own_info \<Rightarrow> own_info" where
  "add_integer code v acc =
     acc\<lparr>info_names := info_names acc @ [code], type_ids := type_ids acc @ [2],
         offsets := offsets acc @ [length (integers acc)], integers := integers acc @ [v]\<rparr>"

definition own_info_columns :: "info_codes \<Rightarrow> u32 set option \<Rightarrow> own_info" where
  "own_info_columns K codes =
     (let requested = (\<lambda>code. case codes of None \<Rightarrow> True | Some cs \<Rightarrow> code \<in> cs);
          o0 = \<lparr>info_names = [], type_ids = [], offsets = [], strings = [], integers = []\<rparr>;
          o1 = (if requested (driver_name_code K) then add_string (driver_name_code K) driver_info_name o0 else o0);
          o2 = (if requested (driver_version_code K)
                then add_string (driver_version_code K) (package_version K) o1 else o1);
          o3 = (if requested (driver_arrow_version_code K)
                then add_string (driver_arrow_version_code K) driver_arrow_version o2 else o2)
      in if requested (driver_adbc_version_code K)
         then add_integer (driver_adbc_version_code K) (adbc_version K) o3 else o3)"

datatype union_mode = Dense | Sparse

datatype 'f union_column = StringChild "string option list" | IntChild "int option list" | EmptyChild 'f | NullChild 'f nat

definition union_child :: "union_mode \<Rightarrow> own_info \<Rightarrow> int \<times> 'f \<Rightarrow> 'f union_column" where
  "union_child mode acc fld =
     (let cells = zip (type_ids acc) (offsets acc)
      in case mode of
           Dense \<Rightarrow>
             if fst fld = 0 then StringChild (map Some (strings acc))
             else if fst fld = 2 then IntChild (map Some (integers acc))
             else EmptyChild (snd fld)
         | Sparse \<Rightarrow>
             if fst fld = 0
             then StringChild (map (\<lambda>(t, i). if t = 0 then Some (strings acc ! i) else None) cells)
             else if fst fld = 2
             then IntChild (map (\<lambda>(t, i). if t = 2 then Some (integers acc ! i) else None) cells)
             else NullChild (snd fld) (length (type_ids acc)))"

text \<open>
  \<open>union_of\<close> is the type of the schema's second field when it is a union; \<open>union_new\<close> builds the
  union array and the batch from the codes, the types, the dense offsets and the children.
\<close>

definition grainlift_info_batch ::
  "info_codes \<Rightarrow> ((int \<times> 'f) list \<times> union_mode) option \<Rightarrow>
   (u32 list \<Rightarrow> int list \<Rightarrow> nat list option \<Rightarrow> 'f union_column list \<Rightarrow> (adbc_error, 'b) result) \<Rightarrow>
   u32 set option \<Rightarrow> (adbc_error, 'b option) result" where
  "grainlift_info_batch K union_of union_new codes =
     (let acc = own_info_columns K codes
      in if info_names acc = [] then Inr None
         else
           try_bind (ok_or (client_internal [Lit ''ADBC GetInfo schema does not contain a union'']) union_of)
             (\<lambda>(fds, mode).
           try_bind
             (union_new (info_names acc) (type_ids acc) (if mode = Dense then Some (offsets acc) else None)
                (map (union_child mode acc) fds)) (\<lambda>b.
           Inr (Some b))))"

text \<open>What a row of the union holds.\<close>

datatype info_value = InfoString string | InfoInt int | InfoNull

fun child_value :: "'f union_column \<Rightarrow> nat \<Rightarrow> info_value" where
  "child_value (StringChild vs) i = (case vs ! i of Some v \<Rightarrow> InfoString v | None \<Rightarrow> InfoNull)"
| "child_value (IntChild vs) i = (case vs ! i of Some v \<Rightarrow> InfoInt v | None \<Rightarrow> InfoNull)"
| "child_value _ i = InfoNull"

definition union_value ::
  "(int \<times> 'f) list \<Rightarrow> int list \<Rightarrow> nat list option \<Rightarrow> 'f union_column list \<Rightarrow> nat \<Rightarrow> info_value option" where
  "union_value fds tids offs children i =
     map_option (\<lambda>c. child_value c (case offs of Some os \<Rightarrow> os ! i | None \<Rightarrow> i))
       (map_of (zip (map fst fds) children) (tids ! i))"

subsection \<open>The reader\<close>

record ('b, 'r) info_reader =
  own_batch :: "'b option"
  downstream :: 'r
  held_back :: "'b list"

text \<open>The runs of rows of a batch that are passed on, from row \<open>i\<close> with an open run.\<close>

fun runs_from :: "'b info_ops \<Rightarrow> (u32 \<Rightarrow> bool) \<Rightarrow> 'b \<Rightarrow> nat \<Rightarrow> nat option \<Rightarrow> u32 list \<Rightarrow> 'b list" where
  "runs_from F own b i open_run [] =
     (case open_run of Some j \<Rightarrow> [slice_of F b j (rows_of F b - j)] | None \<Rightarrow> [])"
| "runs_from F own b i open_run (code # codes) =
     (if own code
      then (case open_run of
              Some j \<Rightarrow> slice_of F b j (i - j) # runs_from F own b (Suc i) None codes
            | None \<Rightarrow> runs_from F own b (Suc i) None codes)
      else runs_from F own b (Suc i) (case open_run of Some j \<Rightarrow> Some j | None \<Rightarrow> Some i) codes)"

definition missing_info_names :: string where
  "missing_info_names = ''GetInfo response is missing its UInt32 info_name column''"

partial_function (option) info_loop ::
  "'b info_ops \<Rightarrow> (u32 \<Rightarrow> bool) \<Rightarrow> ('r \<Rightarrow> (string, 'b) result option \<times> 'r) \<Rightarrow> 'r \<Rightarrow>
   ((string, 'b) result option \<times> 'r \<times> 'b list) option" where
  "info_loop F own rnext rd =
     (case rnext rd of
        (None, rd') \<Rightarrow> Some (None, rd', [])
      | (Some (Inl e), rd') \<Rightarrow> Some (Some (Inl e), rd', [])
      | (Some (Inr b), rd') \<Rightarrow>
          (case info_names_of F b of
             None \<Rightarrow> Some (Some (Inl missing_info_names), rd', [])
           | Some codes \<Rightarrow>
               (case runs_from F own b 0 None codes of
                  [] \<Rightarrow> info_loop F own rnext rd'
                | run # later \<Rightarrow> Some (Some (Inr run), rd', later))))"

definition info_next ::
  "'b info_ops \<Rightarrow> (u32 \<Rightarrow> bool) \<Rightarrow> ('r \<Rightarrow> (string, 'b) result option \<times> 'r) \<Rightarrow> ('b, 'r) info_reader \<Rightarrow>
   ((string, 'b) result option \<times> ('b, 'r) info_reader) option" where
  "info_next F own rnext ir =
     (case own_batch ir of
        Some b \<Rightarrow> Some (Some (Inr b), ir\<lparr>own_batch := None\<rparr>)
      | None \<Rightarrow>
          (case held_back ir of
             b # later \<Rightarrow> Some (Some (Inr b), ir\<lparr>held_back := later\<rparr>)
           | [] \<Rightarrow>
               map_option (\<lambda>(r, rd, later). (r, ir\<lparr>downstream := rd, held_back := later\<rparr>))
                 (info_loop F own rnext (downstream ir))))"

text \<open>
  \<open>get_info\<close>: the downstream rows are asked for first; if the driver's own batch cannot be built,
  the downstream reader is dropped.
\<close>

definition connection_get_info ::
  "('v, 'cl, 'n, 'st, 'sch) driver \<Rightarrow> info_codes \<Rightarrow> ('sch \<Rightarrow> ((int \<times> 'f) list \<times> union_mode) option) \<Rightarrow>
   ('sch \<Rightarrow> u32 list \<Rightarrow> int list \<Rightarrow> nat list option \<Rightarrow> 'f union_column list \<Rightarrow> (adbc_error, record_batch) result) \<Rightarrow>
   'cl remote_connection \<Rightarrow> u32 list option \<Rightarrow>
   ('v, 'n, (record_batch, ('st, 'sch) remote_reader) info_reader) call" where
  "connection_get_info R K union_of union_new rm codes =
     st_bind (connection_get_info_stream R rm codes) (\<lambda>rd s.
     (case grainlift_info_batch K (union_of (rr_schema rd)) (union_new (rr_schema rd)) (map_option set codes) of
        Inl e \<Rightarrow> (Inl e, reader_drop R rm rd s)
      | Inr own \<Rightarrow> (Inr \<lparr>own_batch = own, downstream = rd, held_back = []\<rparr>, s)))"

subsection \<open>What the reader passes on\<close>

text \<open>The laws of Arrow the reader relies on: a batch has one code per row, and a slice has the codes of its rows.\<close>

definition slices :: "'b info_ops \<Rightarrow> bool" where
  "slices F \<longleftrightarrow>
     (\<forall>b ns. info_names_of F b = Some ns \<longrightarrow>
        rows_of F b = length ns
        \<and> (\<forall>j n. j + n \<le> length ns \<longrightarrow> info_names_of F (slice_of F b j n) = Some (take n (drop j ns))))"

abbreviation codes_of :: "'b info_ops \<Rightarrow> 'b \<Rightarrow> u32 list" where
  "codes_of F b \<equiv> the (info_names_of F b)"

lemma runs_from_codes:
  assumes "slices F" and "info_names_of F b = Some ns" and "codes = drop i ns" and "i \<le> length ns"
    and "\<And>j. open_run = Some j \<Longrightarrow> j \<le> i"
  shows "concat (map (codes_of F) (runs_from F own b i open_run codes)) =
    (case open_run of Some j \<Rightarrow> drop j (take i ns) | None \<Rightarrow> []) @ filter (\<lambda>c. \<not> own c) codes"
  using assms(3-)
proof (induction codes arbitrary: i open_run)
  case Nil
  have rows: "rows_of F b = length ns" using assms(1,2) by (auto simp: slices_def)
  have cut: "info_names_of F (slice_of F b j (length ns - j)) = Some (drop j ns)" if "j \<le> length ns" for j
    using assms(1,2) that by (auto simp: slices_def)
  from Nil have "i = length ns" by simp
  with Nil cut rows show ?case by (auto split: option.split)
next
  case (Cons code codes)
  have i: "i < length ns" using Cons.prems(1) by (metis drop_all list.distinct(1) not_le_imp_less)
  have code: "code = ns ! i" and codes: "codes = drop (Suc i) ns"
    using Cons.prems(1) Cons_nth_drop_Suc [OF i] by (metis list.inject)+
  have cut: "info_names_of F (slice_of F b j (i - j)) = Some (drop j (take i ns))" if "j \<le> i" for j
    using assms(1,2) that i by (auto simp: slices_def take_drop)
  have grow: "drop j (take (Suc i) ns) = drop j (take i ns) @ [code]" if "j \<le> i" for j
    using that i by (simp add: code take_Suc_conv_app_nth)
  show ?case
    using Cons.IH [OF codes, of None] Cons.IH [OF codes, of "Some i"] Cons.IH [OF codes, of open_run]
      Cons.prems(3) i cut grow
    by (auto split: option.split)
qed

text \<open>A reader that serves a finite list of batches without an error.\<close>

definition serves :: "('r \<Rightarrow> (string, 'b) result option \<times> 'r) \<Rightarrow> ('r \<Rightarrow> 'b list) \<Rightarrow> bool" where
  "serves rnext contents \<longleftrightarrow>
     (\<forall>rd. case contents rd of
             [] \<Rightarrow> \<exists>rd'. rnext rd = (None, rd')
           | b # bs \<Rightarrow> \<exists>rd'. rnext rd = (Some (Inr b), rd') \<and> contents rd' = bs)"

lemma serves_Nil: "serves rnext contents \<Longrightarrow> contents rd = [] \<Longrightarrow> \<exists>rd'. rnext rd = (None, rd')"
  by (auto simp: serves_def dest!: spec [of _ rd])

lemma serves_Cons:
  "serves rnext contents \<Longrightarrow> contents rd = b # bs \<Longrightarrow> \<exists>rd'. rnext rd = (Some (Inr b), rd') \<and> contents rd' = bs"
  by (auto simp: serves_def dest!: spec [of _ rd])

definition passed :: "'b info_ops \<Rightarrow> (u32 \<Rightarrow> bool) \<Rightarrow> 'b list \<Rightarrow> u32 list" where
  "passed F own bs = filter (\<lambda>c. \<not> own c) (concat (map (codes_of F) bs))"

lemma passed_simps [simp]:
  "passed F own [] = []"
  "passed F own (b # bs) = filter (\<lambda>c. \<not> own c) (codes_of F b) @ passed F own bs"
  by (simp_all add: passed_def)

text \<open>The loop ends, with the next run of rows or the end of the stream.\<close>

lemma info_loop_ends:
  assumes "slices F" and "serves rnext contents"
    and "\<And>b. b \<in> set (contents rd) \<Longrightarrow> info_names_of F b \<noteq> None"
  shows "(\<exists>rd'. info_loop F own rnext rd = Some (None, rd', []) \<and> passed F own (contents rd) = [])
    \<or> (\<exists>run rd' later. info_loop F own rnext rd = Some (Some (Inr run), rd', later)
        \<and> (\<exists>eaten. eaten \<noteq> [] \<and> contents rd = eaten @ contents rd')
        \<and> passed F own (contents rd) =
            concat (map (codes_of F) (run # later)) @ passed F own (contents rd'))"
  using assms(3)
proof (induction "contents rd" arbitrary: rd)
  case Nil
  obtain rd' where "rnext rd = (None, rd')" using serves_Nil [OF assms(2) Nil.hyps [symmetric]] by blast
  then show ?case by (simp add: info_loop.simps [of F own rnext rd] Nil.hyps [symmetric])
next
  case (Cons b bs)
  obtain rd' where rd': "rnext rd = (Some (Inr b), rd')" "contents rd' = bs"
    using serves_Cons [OF assms(2) Cons.hyps(2) [symmetric]] by blast
  obtain ns where ns: "info_names_of F b = Some ns" using Cons.prems [of b] Cons.hyps(2) [symmetric] by auto
  have runs: "concat (map (codes_of F) (runs_from F own b 0 None ns)) = filter (\<lambda>c. \<not> own c) ns"
    using runs_from_codes [OF assms(1) ns, of ns 0 None own] by simp
  show ?case
  proof (cases "runs_from F own b 0 None ns")
    case Nil
    then have step: "info_loop F own rnext rd = info_loop F own rnext rd'"
      by (simp add: info_loop.simps [of F own rnext rd] rd' ns)
    have skip: "passed F own (contents rd) = passed F own (contents rd')"
      using runs Nil ns by (simp add: Cons.hyps(2) [symmetric] rd'(2))
    have "\<And>x. x \<in> set (contents rd') \<Longrightarrow> info_names_of F x \<noteq> None"
      using Cons.prems Cons.hyps(2) [symmetric] rd'(2) by auto
    from Cons.hyps(1) [OF rd'(2) [symmetric] this] show ?thesis
      unfolding step skip using Cons.hyps(2) rd'(2) by (metis append_Cons list.distinct(1))
  next
    case (Cons run later)
    then have "info_loop F own rnext rd = Some (Some (Inr run), rd', later)"
      by (simp add: info_loop.simps [of F own rnext rd] rd' ns)
    moreover have "passed F own (contents rd) =
        concat (map (codes_of F) (run # later)) @ passed F own (contents rd')"
      using runs Cons ns by (simp add: Cons.hyps(2) [symmetric] rd'(2))
    moreover have "contents rd = [b] @ contents rd'" using \<open>b # bs = contents rd\<close> rd'(2) by simp
    ultimately show ?thesis by blast
  qed
qed

text \<open>A consumer that reads until the end.\<close>

inductive drained ::
  "'b info_ops \<Rightarrow> (u32 \<Rightarrow> bool) \<Rightarrow> ('r \<Rightarrow> (string, 'b) result option \<times> 'r) \<Rightarrow> ('b, 'r) info_reader \<Rightarrow> 'b list \<Rightarrow> bool"
  for F own rnext where
  drained_end: "info_next F own rnext ir = Some (None, ir') \<Longrightarrow> drained F own rnext ir []"
| drained_more: "info_next F own rnext ir = Some (Some (Inr b), ir') \<Longrightarrow> drained F own rnext ir' out \<Longrightarrow>
    drained F own rnext ir (b # out)"

lemma drains_held_back:
  assumes "drained F own rnext (ir\<lparr>held_back := []\<rparr>) out" and "own_batch ir = None"
  shows "drained F own rnext ir (held_back ir @ out)"
  using assms
proof (induction "held_back ir" arbitrary: ir)
  case Nil
  then show ?case by (metis append_Nil info_reader.surjective info_reader.update_convs(3))
next
  case (Cons b later)
  let ?ir = "ir\<lparr>held_back := later\<rparr>"
  have "info_next F own rnext ir = Some (Some (Inr b), ?ir)"
    using Cons.hyps(2) [symmetric] Cons.prems(2) by (simp add: info_next_def)
  moreover have "drained F own rnext ?ir (later @ out)"
    using Cons.hyps(1) [of ?ir] Cons.prems by simp
  ultimately show ?case unfolding Cons.hyps(2) [symmetric] by (simp add: drained_more)
qed

lemma drains_downstream:
  assumes "slices F" and "serves rnext contents"
    and "\<And>b. b \<in> set (contents (downstream ir)) \<Longrightarrow> info_names_of F b \<noteq> None"
    and "own_batch ir = None" and "held_back ir = []"
  shows "\<exists>out. drained F own rnext ir out
    \<and> concat (map (codes_of F) out) = passed F own (contents (downstream ir))"
  using assms(3-)
proof (induction "length (contents (downstream ir))" arbitrary: ir rule: less_induct)
  case less
  from info_loop_ends [OF assms(1,2) less.prems(1)] consider
    (fin) rd' where "info_loop F own rnext (downstream ir) = Some (None, rd', [])"
      "passed F own (contents (downstream ir)) = []"
    | (run) run rd' later eaten where
      "info_loop F own rnext (downstream ir) = Some (Some (Inr run), rd', later)"
      "eaten \<noteq> []" "contents (downstream ir) = eaten @ contents rd'"
      "passed F own (contents (downstream ir)) =
         concat (map (codes_of F) (run # later)) @ passed F own (contents rd')"
    by blast
  then show ?case
  proof cases
    case fin
    then have "info_next F own rnext ir = Some (None, ir\<lparr>downstream := rd', held_back := []\<rparr>)"
      using less.prems by (simp add: info_next_def)
    with fin(2) show ?thesis by (auto intro: drained_end)
  next
    case run
    let ?ir = "ir\<lparr>downstream := rd', held_back := later\<rparr>"
    have next_run: "info_next F own rnext ir = Some (Some (Inr run), ?ir)"
      using run(1) less.prems by (simp add: info_next_def)
    have "\<exists>out. drained F own rnext (?ir\<lparr>held_back := []\<rparr>) out
      \<and> concat (map (codes_of F) out) = passed F own (contents (downstream (?ir\<lparr>held_back := []\<rparr>)))"
      by (rule less.hyps) (use run(2,3) less.prems in auto)
    then obtain out where out: "drained F own rnext (?ir\<lparr>held_back := []\<rparr>) out"
      "concat (map (codes_of F) out) = passed F own (contents rd')" by auto
    have "drained F own rnext ?ir (later @ out)"
      using drains_held_back [OF out(1)] less.prems(2) by simp
    from drained_more [OF next_run this] show ?thesis
      using run(4) out(2) by (intro exI [of _ "run # later @ out"]) simp
  qed
qed

text \<open>
  C40: \<open>GetInfo\<close> ends and reports every row once. When the driver behind the service answers with
  finitely many batches that have an \<open>info_name\<close> column, reading the driver's \<open>GetInfo\<close> result to
  the end takes finitely many calls, each of which returns: the first batch holds the driver's own
  rows if any were asked for, and the batches after it hold, in order, exactly the downstream rows
  whose code is not one of the driver's own.
\<close>

theorem info_reader_terminates_and_filters:
  assumes "slices F" and "serves rnext contents"
    and "\<And>b. b \<in> set (contents rd) \<Longrightarrow> info_names_of F b \<noteq> None"
  shows "\<exists>rest. drained F (is_grainlift_driver_info K) rnext \<lparr>own_batch = own, downstream = rd, held_back = []\<rparr>
      ((case own of Some b \<Rightarrow> [b] | None \<Rightarrow> []) @ rest)
    \<and> concat (map (codes_of F) rest) =
        filter (\<lambda>c. \<not> is_grainlift_driver_info K c) (concat (map (codes_of F) (contents rd)))"
proof -
  let ?ir = "\<lambda>own. \<lparr>own_batch = own, downstream = rd, held_back = []\<rparr>"
  obtain rest where rest: "drained F (is_grainlift_driver_info K) rnext (?ir None) rest"
    "concat (map (codes_of F) rest) = passed F (is_grainlift_driver_info K) (contents rd)"
    using drains_downstream [OF assms(1,2), of "?ir None"] assms(3) by auto
  have "drained F (is_grainlift_driver_info K) rnext (?ir own) ((case own of Some b \<Rightarrow> [b] | None \<Rightarrow> []) @ rest)"
  proof (cases own)
    case (Some b)
    have "info_next F (is_grainlift_driver_info K) rnext (?ir (Some b)) = Some (Some (Inr b), ?ir None)"
      by (simp add: info_next_def)
    from drained_more [OF this rest(1)] Some show ?thesis by simp
  qed (use rest(1) in simp)
  with rest(2) show ?thesis unfolding passed_def by blast
qed

definition list_info :: "u32 list info_ops" where
  "list_info = \<lparr>info_names_of = Some, slice_of = (\<lambda>b j n. take n (drop j b)), rows_of = length\<rparr>"

definition list_next :: "'b list \<Rightarrow> (string, 'b) result option \<times> 'b list" where
  "list_next rd = (case rd of [] \<Rightarrow> (None, []) | b # bs \<Rightarrow> (Some (Inr b), bs))"

definition adbc_codes :: info_codes where
  "adbc_codes =
     \<lparr>driver_name_code = 100, driver_version_code = 101, driver_arrow_version_code = 102,
      driver_adbc_version_code = 103, package_version = ''1'', adbc_version = 1001000\<rparr>"

theorem info_reader_terminates_and_filters_witness:
  "\<exists>rest. drained list_info (is_grainlift_driver_info adbc_codes) list_next
       \<lparr>own_batch = Some [100], downstream = [[0, 100, 1], [101], [2]], held_back = []\<rparr> ([100] # rest)
     \<and> concat rest = [0, 1, 2]"
proof -
  have "slices list_info" by (simp add: slices_def list_info_def)
  moreover have "serves list_next (\<lambda>rd. rd)" by (auto simp: serves_def list_next_def split: list.split)
  ultimately have "\<exists>rest. drained list_info (is_grainlift_driver_info adbc_codes) list_next
       \<lparr>own_batch = Some [100], downstream = [[0, 100, 1], [101], [2]], held_back = []\<rparr>
       ((case Some [100] of Some b \<Rightarrow> [b] | None \<Rightarrow> []) @ rest)
     \<and> concat (map (codes_of list_info) rest) = filter (\<lambda>c. \<not> is_grainlift_driver_info adbc_codes c)
         (concat (map (codes_of list_info) [[0, 100, 1], [101], [2]]))"
    by (rule info_reader_terminates_and_filters) (simp add: list_info_def)
  then show ?thesis
    by (simp add: list_info_def is_grainlift_driver_info_def adbc_codes_def)
qed

subsection \<open>The driver's own rows read back\<close>

text \<open>What the driver says about itself, in the order of the codes.\<close>

definition own_rows :: "info_codes \<Rightarrow> u32 set option \<Rightarrow> (u32 \<times> info_value) list" where
  "own_rows K codes =
     filter (\<lambda>(code, _). case codes of None \<Rightarrow> True | Some cs \<Rightarrow> code \<in> cs)
       [(driver_name_code K, InfoString driver_info_name), (driver_version_code K, InfoString (package_version K)),
        (driver_arrow_version_code K, InfoString driver_arrow_version),
        (driver_adbc_version_code K, InfoInt (adbc_version K))]"

lemma union_child_at:
  "distinct (map fst fds) \<Longrightarrow> (t, f) \<in> set fds \<Longrightarrow>
   map_of (zip (map fst fds) (map (union_child mode acc) fds)) t = Some (union_child mode acc (t, f))"
  by (induction fds) force+

text \<open>
  In both layouts of the union the rows of the batch are the driver's own rows: the offsets of the
  dense layout and the nulls of the sparse one select the same values.
\<close>

lemma own_rows_read_back:
  assumes "distinct (map fst fds)" and "(0, fs) \<in> set fds" and "(2, fi) \<in> set fds"
    and "acc = own_info_columns K codes"
  shows "zip (info_names acc)
      (map (union_value fds (type_ids acc) (if mode = Dense then Some (offsets acc) else None)
         (map (union_child mode acc) fds)) [0..<length (info_names acc)])
    = map (\<lambda>(code, v). (code, Some v)) (own_rows K codes)"
proof -
  let ?req = "\<lambda>code. case codes of None \<Rightarrow> True | Some cs \<Rightarrow> code \<in> cs"
  show ?thesis
    unfolding assms(4) union_value_def
    by (cases mode; cases "?req (driver_name_code K)"; cases "?req (driver_version_code K)";
        cases "?req (driver_arrow_version_code K)"; cases "?req (driver_adbc_version_code K)")
      (simp_all add: own_info_columns_def own_rows_def Let_def add_string_def add_integer_def
        union_child_at [OF assms(1,2)] union_child_at [OF assms(1,3)] union_child_def numeral_nat)
qed

end
