(* ===== verification/End_To_End.thy ===== *)
theory End_To_End
  imports Streams Client_Info
begin

text \<open>
  The driver and the service together: the RPC client library of the driver is instantiated by a
  wire that hands every request to the service's handlers and every reply back. The state of the
  network is then the session manager, the number of requests so far (which selects the
  circumstances of the next one) and the cursors of the open result streams.
\<close>

subsection \<open>The wire\<close>

record ('c, 's, 'k, 'r, 'sch, 'w) server_net =
  sn_manager :: "('c, 's, 'k, 'r, 'sch, 'w) service_manager"
  sn_count :: nat
  sn_cursors :: "(nat, result_cursor) hash_map"

record ('c, 's, 'k, 'r, 'sch, 'x, 'w, 'f) server =
  se_service :: "('c, 's, 'k, 'r, 'sch, 'x, 'w, 'f) service"
  se_ambient :: "nat \<Rightarrow> 'f ambient"
  se_context :: call_context
  se_to_json :: "wire_adbc_error \<Rightarrow> string"
  se_display :: "message \<Rightarrow> string"

datatype stream_handle = BindHandle bind_cursor | ReadHandle nat

text \<open>How the framework reports an error of a handler to the client library.\<close>

definition failure_of :: "('c, 's, 'k, 'r, 'sch, 'x, 'w, 'f) server \<Rightarrow> rpc_error \<Rightarrow> rpc_failure" where
  "failure_of Z e =
     (case e of
        AdbcRpcError kd w \<Rightarrow> \<lparr>error_type = ''AdbcError'', rf_message = se_to_json Z w\<rparr>
      | VersionError m \<Rightarrow> \<lparr>error_type = ''VersionError'', rf_message = m\<rparr>
      | Unauthenticated_Caller \<Rightarrow> \<lparr>error_type = ''PermissionError'', rf_message = ''unauthenticated''\<rparr>
      | ValueError m \<Rightarrow> \<lparr>error_type = ''ValueError'', rf_message = se_display Z m\<rparr>
      | ProtocolRpcError m \<Rightarrow> \<lparr>error_type = ''ProtocolError'', rf_message = se_display Z m\<rparr>
      | RuntimeRpcError m \<Rightarrow> \<lparr>error_type = ''RuntimeError'', rf_message = se_display Z m\<rparr>)"

fun version_of :: "'cl any_client \<Rightarrow> string option" where
  "version_of (HttpC c) = Some (hc_version c)"
| "version_of (ByteC c) = rc_version c"

definition to_request :: "'cl any_client \<Rightarrow> record_batch \<Rightarrow> request" where
  "to_request cl b =
     \<lparr>batch = b,
      metadata = (case version_of cl of Some v \<Rightarrow> [(''vgi_rpc.protocol_version'', v)] | None \<Rightarrow> [])\<rparr>"

definition serve ::
  "('c, 's, 'k, 'r, 'sch, 'x, 'w, 'f) server \<Rightarrow>
   ('f ambient \<Rightarrow> (('c, 's, 'k, 'r, 'sch, 'w) service_manager, rpc_error, 'a) step) \<Rightarrow>
   (('c, 's, 'k, 'r, 'sch, 'w) server_net, rpc_failure, 'a) step" where
  "serve Z f n =
     (case f (se_ambient Z (sn_count n)) (sn_manager n) of
        (r, m) \<Rightarrow> (map_err (failure_of Z) r, n\<lparr>sn_manager := m, sn_count := Suc (sn_count n)\<rparr>))"

text \<open>An output collector that keeps the batch of the turn.\<close>

definition keeping :: "record_batch option collector" where
  "keeping = \<lparr>emit = (\<lambda>b _. Inr (Some b)), finish_output = (\<lambda>out. out)\<rparr>"

definition mode_of :: "string \<Rightarrow> bind_mode option" where
  "mode_of name = (if name = ''bind'' then Some BatchMode else if name = ''bind_stream'' then Some StreamMode else None)"

definition unknown_method :: rpc_error where
  "unknown_method = ProtocolRpcError [Lit ''unknown method'']"

definition served_unary where
  "served_unary Z cl name b =
     serve Z (\<lambda>a. case unary_call name of
        Some h \<Rightarrow> h (se_service Z) a (to_request cl b) (se_context Z)
      | None \<Rightarrow> ret (Inl unknown_method))"

definition served_open_exchange where
  "served_open_exchange Z cl name b =
     serve Z (\<lambda>a. case mode_of name of
        Some mode \<Rightarrow>
          st_bind (bind_init (se_service Z) mode a (to_request cl b) (se_context Z)) (\<lambda>cur. ret (Inr (BindHandle cur)))
      | None \<Rightarrow> ret (Inl unknown_method))"

definition served_turn where
  "served_turn Z h b =
     serve Z (\<lambda>a m. case h of
        BindHandle cur \<Rightarrow>
          (case exchange keeping (se_service Z) a (se_context Z) cur b None m of
             (Inl e, _, m') \<Rightarrow> (Inl e, m')
           | (Inr _, out, m') \<Rightarrow> (Inr out, m'))
      | ReadHandle _ \<Rightarrow> (Inl unknown_method, m))"

definition served_cancel where
  "served_cancel Z h n =
     (let a = se_ambient Z (sn_count n)
      in case h of
           BindHandle cur \<Rightarrow>
             n\<lparr>sn_manager := cancel_bind (se_service Z) a (se_context Z) cur (sn_manager n), sn_count := Suc (sn_count n)\<rparr>
         | ReadHandle i \<Rightarrow>
             (case hm_get (sn_cursors n) i of
                None \<Rightarrow> n
              | Some cur \<Rightarrow>
                  n\<lparr>sn_manager := cancel_read (se_service Z) a (se_context Z) cur (sn_manager n),
                    sn_count := Suc (sn_count n), sn_cursors := hm_remove i (sn_cursors n)\<rparr>))"

definition served_open_producer where
  "served_open_producer Z cl name b n =
     (case serve Z (\<lambda>a. if name = ''read_result''
               then read_result_init (se_service Z) a (to_request cl b) (se_context Z)
               else ret (Inl unknown_method)) n of
        (Inl e, n') \<Rightarrow> (Inl e, n')
      | (Inr (_, cur), n') \<Rightarrow>
          (Inr (ReadHandle (sn_count n)), n'\<lparr>sn_cursors := hm_insert (sn_count n) cur (sn_cursors n')\<rparr>))"

definition served_tick where
  "served_tick Z h n =
     (case h of
        BindHandle _ \<Rightarrow> (Inl (failure_of Z unknown_method), n)
      | ReadHandle i \<Rightarrow>
          (case hm_get (sn_cursors n) i of
             None \<Rightarrow> (Inl (failure_of Z unknown_method), n)
           | Some cur \<Rightarrow>
               (case produce keeping (se_service Z) (se_ambient Z (sn_count n)) (se_context Z) (cur, None) (sn_manager n) of
                  (r, (cur', out), m) \<Rightarrow>
                    (map_err (failure_of Z) (case r of Inl e \<Rightarrow> Inl e | Inr _ \<Rightarrow> Inr out),
                     n\<lparr>sn_manager := m, sn_count := Suc (sn_count n), sn_cursors := hm_insert i cur' (sn_cursors n)\<rparr>))))"

text \<open>Over HTTP a token names the stored cursor: its length is the number of the cursor.\<close>

fun token_of :: "stream_handle \<Rightarrow> string" where
  "token_of (ReadHandle i) = replicate i CHR ''t''"
| "token_of (BindHandle _) = []"

definition served_wire ::
  "('c, 's, 'k, 'r, 'sch, 'x, 'w, 'f) server \<Rightarrow>
   ('cl, ('c, 's, 'k, 'r, 'sch, 'w) server_net, stream_handle) wire" where
  "served_wire Z =
     \<lparr>valid_header = (\<lambda>k v. Inr ()), build_http = (\<lambda>c. Inr ()),
      call_unary = served_unary Z, open_exchange = served_open_exchange Z, exchange_turn = served_turn Z,
      cancel_stream = served_cancel Z, open_producer = served_open_producer Z,
      next_with_token = (\<lambda>h n. case served_tick Z h n of
         (r, n') \<Rightarrow> (map_sum (\<lambda>e. e) (map_option (\<lambda>b. (b, Some (token_of h)))) r, n')),
      stream_finished = (\<lambda>h n. False), resume_stream = (\<lambda>cl name token. ReadHandle (length token)),
      stream_tick = served_tick Z\<rparr>"

subsection \<open>Sending\<close>

text \<open>A sequence of turns, up to the first that fails.\<close>

fun run_turns :: "('t \<Rightarrow> ('m, 'e, unit) step) \<Rightarrow> 't list \<Rightarrow> ('m, 'e, unit) step" where
  "run_turns turn [] s = (Inr (), s)"
| "run_turns turn (t # ts) s = st_bind (turn t) (\<lambda>_. run_turns turn ts) s"

lemma result_step_bind_Inr:
  "st_bind (result_step r) f s = (Inr v, s') \<Longrightarrow> (\<And>a. r = Inr a \<Longrightarrow> f a s = (Inr v, s') \<Longrightarrow> P) \<Longrightarrow> P"
  by (auto simp: st_bind_def result_step_def split: sum.splits)

lemma send_batches_Inr:
  assumes "send_batches A from_arrow max_bind turn logical encoded items s = (Inr (), s')"
  obtains bs ts where "items = map Inr bs"
    "list_all2 (\<lambda>b t. encode_bind_turn A b (min max_bind max_control_bytes) = Inr t) (map Some bs @ [None]) ts"
    "run_turns turn ts s = (Inr (), s')"
proof -
  have "\<exists>bs ts. items = map Inr bs
      \<and> list_all2 (\<lambda>b t. encode_bind_turn A b (min max_bind max_control_bytes) = Inr t) (map Some bs @ [None]) ts
      \<and> run_turns turn ts s = (Inr (), s')"
    using assms
  proof (induction items arbitrary: logical encoded s)
    case Nil
    from Nil.prems obtain t where "encode_bind_turn A None (min max_bind max_control_bytes) = Inr t"
      "turn t s = (Inr (), s')"
      by (auto elim!: result_step_bind_Inr simp: map_err_Inr_iff)
    then show ?case by (intro exI [of _ "[]"] exI [of _ "[t]"]) (simp add: st_bind_def)
  next
    case (Cons entry rest)
    from Cons.prems obtain b t s1 logical' encoded' where b: "entry = Inr b"
      and t: "encode_bind_turn A (Some b) (min max_bind max_control_bytes) = Inr t"
      and s1: "turn t s = (Inr (), s1)"
      and later: "send_batches A from_arrow max_bind turn logical' encoded' rest s1 = (Inr (), s')"
      by (auto elim!: st_bind_Inr simp: result_step_def map_err_Inr_iff)
    from Cons.IH [OF later] obtain bs ts where "rest = map Inr bs"
      "list_all2 (\<lambda>b t. encode_bind_turn A b (min max_bind max_control_bytes) = Inr t) (map Some bs @ [None]) ts"
      "run_turns turn ts s1 = (Inr (), s')" by blast
    with b t s1 show ?case
      by (intro exI [of _ "b # bs"] exI [of _ "t # ts"]) (simp add: st_bind_def)
  qed
  with that show ?thesis by blast
qed

text \<open>The turns of the driver are the exchanges of the service.\<close>

lemma exchange_keeping_out:
  "exchange keeping E a ctx cur t out m = (r, o1, m') \<Longrightarrow> \<exists>o2. exchange keeping E a ctx cur t out' m = (r, o2, m')"
  by (auto simp: exchange_def keeping_def split: prod.splits sum.splits if_splits)

lemma served_turn_Inr:
  assumes "bind_exchange_turn R (BindHandle cur) t (p, n) = (Inr (), (p', n'))" and "dr_wire R = served_wire Z"
  obtains out' where "exchange keeping (se_service Z) (se_ambient Z (sn_count n)) (se_context Z) cur t out (sn_manager n)
      = (Inr (), out', sn_manager n')" "p' = p" "sn_count n' = Suc (sn_count n)"
proof -
  from assms obtain out1 where "exchange keeping (se_service Z) (se_ambient Z (sn_count n)) (se_context Z) cur t None
      (sn_manager n) = (Inr (), out1, sn_manager n')" and "p' = p" "sn_count n' = Suc (sn_count n)"
    by (auto simp: bind_exchange_turn_def rpc_def on_net_def step_err_def served_wire_def served_turn_def serve_def
        st_bind_def result_step_def map_err_Inr_iff split: prod.splits sum.splits)
  with exchange_keeping_out [of "se_service Z" "se_ambient Z (sn_count n)" "se_context Z" cur t None "sn_manager n" "Inr ()" out1
      "sn_manager n'" out] that show ?thesis by blast
qed

lemma run_turns_exchanges:
  assumes "run_turns (bind_exchange_turn R (BindHandle cur)) ts (p, n) = (Inr (), (p', n'))"
    and "dr_wire R = served_wire Z"
  shows "\<exists>out'. exchanges keeping (se_service Z) (se_context Z) cur
      (zip (map (\<lambda>i. se_ambient Z (sn_count n + i)) [0..<length ts]) ts) out (sn_manager n) = (Inr (), out', sn_manager n')"
  using assms(1)
proof (induction ts arbitrary: p n out)
  case Nil
  then show ?case by simp
next
  case (Cons t ts)
  from Cons.prems obtain p1 n1 where first: "bind_exchange_turn R (BindHandle cur) t (p, n) = (Inr (), (p1, n1))"
    and later: "run_turns (bind_exchange_turn R (BindHandle cur)) ts (p1, n1) = (Inr (), (p', n'))"
    by (auto elim!: st_bind_Inr)
  from first obtain out1 where ex: "exchange keeping (se_service Z) (se_ambient Z (sn_count n)) (se_context Z) cur t out
      (sn_manager n) = (Inr (), out1, sn_manager n1)" "sn_count n1 = Suc (sn_count n)"
    by (elim served_turn_Inr [OF _ assms(2)]) blast
  have amb: "map (\<lambda>i. se_ambient Z (sn_count n + i)) [0..<length (t # ts)] =
      se_ambient Z (sn_count n) # map (\<lambda>i. se_ambient Z (sn_count n1 + i)) [0..<length ts]"
    by (simp add: ex(2) upt_conv_Cons map_Suc_upt [symmetric] del: upt_Suc)
  from Cons.IH [OF later] show ?case unfolding amb by (simp add: ex(1))
qed

subsection \<open>What arrives\<close>

text \<open>
  Whatever limit the receiver decodes with, a message that decodes is the message that was
  encoded: nothing else can come out of the wire than what went in.
\<close>

lemma batch_decoded:
  assumes "ipc_round_trips A" and "encode_batch_ipc A b limit = Inr bs" and "decode_batch_ipc A bs limit' = Inr b'"
  shows "b' = b"
proof -
  have "stream_items A bs = Inr [Inr b]"
    using assms(1,2) by (auto simp: encode_batch_ipc_ok_iff ipc_round_trips_def)
  with assms(3) show ?thesis by (auto simp: decode_batch_ipc_def result_iffs split: if_splits)
qed

lemma record_decoded:
  assumes "ipc_round_trips A" and "vgi_round_trips T" and "encode_record A T v fld limit = Inr outer"
    and "decode_record A T outer fld limit' = Inr v'"
  shows "v' = v"
proof -
  from assms(3) obtain bs arr where arr: "build_singleton T v = Inr arr"
    and bs: "encode_record_ipc A T v limit = Inr bs"
    and outer: "binary_value outer fld = Inr bs"
    by (auto simp: encode_record_def encode_record_ipc_def result_iffs binary_value_def require_one_row_def
        column_by_name_def envelope_schema_def binary_field_def)
  from arr obtain cs where cs: "arr = StructArray [True] cs" "read_row T arr 0 = Inr v"
    using assms(2) by (auto simp: vgi_round_trips_def)
  with bs arr have enc: "encode_batch_ipc A (batch_of_struct [True] cs) limit = Inr bs"
    by (auto simp: encode_record_ipc_def result_iffs)
  from assms(4) outer obtain b where b: "decode_batch_ipc A bs limit' = Inr b" "read_row T (struct_of_batch b) 0 = Inr v'"
    by (auto simp: decode_record_def decode_record_ipc_def result_iffs map_err_Inr_iff split: if_splits)
  from batch_decoded [OF assms(1) enc b(1)] b(2) cs show ?thesis by (simp add: struct_of_batch_of_struct)
qed

lemma turn_decoded:
  assumes "ipc_round_trips A" and "encode_bind_turn A b limit = Inr t" and "decode_bind_turn A t limit' = Inr b'"
  shows "b' = b"
proof -
  from assms(2) obtain bs where bs: "(case b of None \<Rightarrow> Inr [] | Some b \<Rightarrow> encode_batch_ipc A b limit) = Inr bs"
    and t: "t = \<lparr>schema_fields = bind_turn_schema, columns = [BinaryArray [Some bs], BooleanArray [Some (b = None)]],
      num_rows = 1\<rparr>"
    by (auto simp: encode_bind_turn_def result_iffs)
  have "binary_value t ''batch_ipc'' = Inr bs"
    by (simp add: t binary_value_def require_one_row_def column_by_name_def bind_turn_schema_def binary_field_def)
  with assms(3) bs show ?thesis
    by (cases b) (auto simp: decode_bind_turn_def t result_iffs split: if_splits dest: batch_decoded [OF assms(1)])
qed

lemma exchanges_decoded:
  assumes "exchanges C E ctx cur turns out m = (Inr (), out', m')" and "(a, t) \<in> set turns"
  shows "\<exists>b. decode_bind_turn (l_ipc (sv_lib E)) t (turn_limit cur) = Inr b"
  using assms
proof (induction turns arbitrary: out m)
  case Nil
  then show ?case by simp
next
  case (Cons turn turns)
  obtain a0 t0 where turn: "turn = (a0, t0)" by fastforce
  from Cons.prems(1) obtain out1 m1 where first: "exchange C E a0 ctx cur t0 out m = (Inr (), out1, m1)"
    and later: "exchanges C E ctx cur turns out1 m1 = (Inr (), out', m')"
    by (auto simp: turn split: prod.splits sum.splits)
  have "\<exists>b. decode_bind_turn (l_ipc (sv_lib E)) t0 (turn_limit cur) = Inr b"
    using first by (elim exchange_Inr) (auto simp: bind_turn_def split: sum.splits)
  with Cons.IH [OF later] Cons.prems(2) turn show ?case by auto
qed

subsection \<open>Binding through the driver\<close>

lemma list_all2_map_eq:
  "list_all2 P xs ys \<Longrightarrow> (\<And>x y. P x y \<Longrightarrow> y \<in> set ys \<Longrightarrow> f y = g x) \<Longrightarrow> map f ys = map g xs"
  by (induction rule: list_all2_induct) auto

lemma bind_request_args:
  "string_arg (to_request cl (bind_init_request sid hid ipc)) ''session_id'' = Inr x \<Longrightarrow> x = sid"
  "string_arg (to_request cl (bind_init_request sid hid ipc)) ''statement_id'' = Inr x \<Longrightarrow> x = hid"
  by (auto simp: string_arg_def to_request_def bind_init_request_def one_row_def string_value_def require_one_row_def
      bind_init_schema_def column_by_name_def text_field_def result_iffs)

lemma bind_batches_Inr:
  fixes R :: "('v, 'cl, ('c, 's, 'k, 'r, 'sch, 'w) server_net, stream_handle, 'sch) driver"
    and Z :: "('c, 's, 'k, 'r, 'sch, 'x, 'w, 'f) server"
  assumes "bind_batches R rm name hid from_arrow sch items (p, n) = (Inr (), (p', n'))"
    and "dr_wire R = served_wire Z" and "mode_of name = Some mode"
  obtains cl :: "'cl any_client" and ipc cur bs ts n1 where
    "bind_init (se_service Z) mode (se_ambient Z (sn_count n)) (to_request cl (bind_init_request (rm_session_id rm) hid ipc))
       (se_context Z) (sn_manager n) = (Inr cur, sn_manager n1)"
    "items = map Inr bs"
    "list_all2 (\<lambda>b t. encode_bind_turn (l_ipc (dr_lib R)) b (min (rm_max_bind_bytes rm) max_control_bytes) = Inr t)
       (map Some bs @ [None]) ts"
    "run_turns (bind_exchange_turn R (BindHandle cur)) ts (p, n1) = (Inr (), (p', n'))"
proof -
  from assms(1) obtain ipc cl st p1 n1 where
    opened: "rpc R (open_exchange (dr_wire R) cl name (bind_init_request (rm_session_id rm) hid ipc)) (p, n) = (Inr st, (p1, n1))"
    and sent: "send_batches (l_ipc (dr_lib R)) from_arrow (rm_max_bind_bytes rm) (bind_exchange_turn R st) 0 0 items (p1, n1)
      = (Inr (), (p', n'))"
    unfolding bind_batches_def
    by (auto elim!: st_bind_Inr simp: result_step_def map_err_Inr_iff split: prod.splits sum.splits)
  from opened assms(2,3) obtain cur where st: "st = BindHandle cur" and p1: "p1 = p"
    and init: "bind_init (se_service Z) mode (se_ambient Z (sn_count n))
       (to_request cl (bind_init_request (rm_session_id rm) hid ipc)) (se_context Z) (sn_manager n) = (Inr cur, sn_manager n1)"
    by (auto simp: rpc_def on_net_def step_err_def served_wire_def served_open_exchange_def serve_def map_err_Inr_iff ret_def
        elim!: st_bind_Inr split: prod.splits)
  from sent obtain bs ts where "items = map Inr bs"
    "list_all2 (\<lambda>b t. encode_bind_turn (l_ipc (dr_lib R)) b (min (rm_max_bind_bytes rm) max_control_bytes) = Inr t)
       (map Some bs @ [None]) ts"
    "run_turns (bind_exchange_turn R st) ts (p1, n1) = (Inr (), (p', n'))" by (rule send_batches_Inr)
  with init st p1 that show ?thesis by blast
qed

subsection \<open>A driver connected to the list service\<close>

definition idle_dialer :: "(unit, unit, 'n) dialer" where
  "idle_dialer =
     \<lparr>dl_json = \<lparr>from_json = (\<lambda>_. None), from_base64 = (\<lambda>_. None), display_failure = (\<lambda>e. [Str (rf_message e)])\<rparr>,
      dl_parse_url = (\<lambda>_. None), http_builder = (\<lambda>_. Inr ()), tcp_connect = (\<lambda>h p t n. (Inr (), n)),
      tls_tcp_connect = (\<lambda>h p name i t n. (Inr (), n)), pem_file_iter = (\<lambda>_. Inr []),
      pem_key = (\<lambda>_. Inr []), add_root = (\<lambda>_. Inr ()), tls_versions = Inr (),
      client_auth_cert = (\<lambda>c k. Inr ()), parse_iroh_target = Inr, parse_secret_key = Inr,
      parse_socket_addr = (\<lambda>_. Inl ''address''),
      dl_iroh = \<lparr>iroh_runtime = Inr (), public_key = (\<lambda>s. s), bind_endpoint = (\<lambda>s n. (Inr s, n)),
        connect_addr = (\<lambda>e r a t n. (Inr (), n)), open_stream = (\<lambda>v n. (Inr (), n))\<rparr>,
      process_secret_key = ''me'', spawn_thread = Inr ()\<rparr>"

definition list_server ::
  "(nat, record_batch list, nat, record_batch list, nat, string, record_batch list counting_file, record_batch list) server"
  where
  "list_server =
     \<lparr>se_service = list_service, se_ambient = (\<lambda>i. calm (if i = 0 then ''u1'' else ''x'')), se_context = alice,
      se_to_json = (\<lambda>_. ''{}''), se_display = (\<lambda>_. ''error'')\<rparr>"

type_synonym list_net =
  "(nat, record_batch list, nat, record_batch list, nat, record_batch list counting_file) server_net"

definition list_driver :: "(unit, unit, list_net, stream_handle, nat) driver" where
  "list_driver = \<lparr>dr_lib = list_lib, dr_dialer = idle_dialer, dr_wire = served_wire list_server\<rparr>"

definition list_remote :: "unit remote_connection" where
  "list_remote =
     \<lparr>rm_transport = ByteT \<lparr>bt_client = fresh_mutex (configure_rpc_client ()), bt_lease = None,
        bt_connector = \<lparr>bn_endpoint = ''tcp://h:1'', bn_timeout = 5,
          bn_options = \<lparr>tls_ca = None, tls_cert = None, tls_key = None, tls_server_name = None,
            iroh_secret_key = None, iroh_direct_address = None\<rparr>\<rparr>\<rparr>,
      rm_session_id = ''s1'', rm_max_bind_bytes = 100\<rparr>"

abbreviation list_net_at :: "(nat, record_batch list, nat, record_batch list, nat, record_batch list counting_file) service_manager \<Rightarrow> nat \<Rightarrow> list_net"
  where "list_net_at m k \<equiv> \<lparr>sn_manager = m, sn_count = k, sn_cursors = []\<rparr>"

lemma list_open_exchange:
  "rpc list_driver (open_exchange (dr_wire list_driver) (ByteC (configure_rpc_client ())) ''bind_stream''
     (bind_init_request ''s1'' ''st1'' [3])) (p, list_net_at binding_manager 0)
   = (Inr (BindHandle list_cursor), (p, list_net_at (started []) (Suc 0)))"
proof -
  have "to_request (ByteC (configure_rpc_client ())) (bind_init_request ''s1'' ''st1'' [3]) = bind_request"
    by (simp add: to_request_def configure_rpc_client_def protocol_version_def bind_init_request_def one_row_def
        bind_init_schema_def bind_request_def)
  then show ?thesis
    using list_bind_init
    by (simp add: rpc_def on_net_def step_err_def list_driver_def served_wire_def served_open_exchange_def
        mode_of_def serve_def list_server_def st_bind_def ret_def)
qed

lemma keeping_accepts: "\<exists>out'. emit keeping b out = Inr out'"
  by (simp add: keeping_def)

lemma list_driver_turn:
  assumes "bind_turn list_service (calm ''x'') list_cursor t (started_session bs) = (Inr fin, s')"
  shows "bind_exchange_turn list_driver (BindHandle list_cursor) t (p, list_net_at (started bs) (Suc k))
    = (Inr (), (p, list_net_at (put_session ''s1'' s' binding_manager) (Suc (Suc k))))"
proof -
  obtain out' where ex: "exchange keeping list_service (calm ''x'') alice list_cursor t None (started bs) =
      (Inr (), out', put_session ''s1'' s' binding_manager)"
    using list_exchange [OF assms keeping_accepts] by blast
  then have "out' = Some bind_ack"
    by (auto simp: exchange_def keeping_def split: prod.splits sum.splits if_splits)
  moreover have "validate_bind_ack bind_ack = Inr ()"
    by (simp add: validate_bind_ack_def bind_ack_def)
  ultimately show ?thesis
    using ex
    by (simp add: bind_exchange_turn_def rpc_def on_net_def step_err_def list_driver_def served_wire_def
        served_turn_def serve_def list_server_def st_bind_def result_step_def)
qed

lemma list_encode_turn:
  "length x \<le> 70 \<Longrightarrow> encode_bind_turn list_ipc (Some (demo_batch x)) 100 = Inr (turn_of (Some (demo_batch x)) (packed x))"
  "encode_bind_turn list_ipc None 100 = Inr (turn_of None [])"
  "binary_value (turn_of (Some (demo_batch x)) (packed x)) ''batch_ipc'' = Inr (packed x)"
  using list_encode(1) [of x 100]
  by (simp_all add: encode_bind_turn_def turn_of_def binary_value_def require_one_row_def column_by_name_def
      bind_turn_schema_def binary_field_def)

lemma list_driver_bind:
  "\<exists>n'. bind_batches list_driver list_remote ''bind_stream'' ''st1'' (\<lambda>e. internal [Str e]) 3
      [Inr (demo_batch [1]), Inr (demo_batch [2])] (empty_pool, list_net_at binding_manager 0)
    = (Inr (), (empty_pool, n'))"
proof -
  have first: "bind_exchange_turn list_driver (BindHandle list_cursor) (turn_of (Some (demo_batch [1])) (packed [1]))
      (empty_pool, list_net_at (started []) (Suc 0)) = (Inr (), (empty_pool, list_net_at (started [demo_batch [1]]) 2))"
    using list_driver_turn [OF list_turn_batch(2) [of "[1]" "[]"], of empty_pool 0] by (simp add: started_def numeral_2_eq_2)
  have second: "bind_exchange_turn list_driver (BindHandle list_cursor) (turn_of (Some (demo_batch [2])) (packed [2]))
      (empty_pool, list_net_at (started [demo_batch [1]]) 2)
        = (Inr (), (empty_pool, list_net_at (started [demo_batch [1], demo_batch [2]]) 3))"
    using list_driver_turn [OF list_turn_batch(2) [of "[2]" "[demo_batch [1]]"], of empty_pool 1]
    by (simp add: started_def numeral_2_eq_2 numeral_3_eq_3)
  obtain s3 where "bind_turn list_service (calm ''x'') list_cursor (turn_of None [])
      (started_session [demo_batch [1], demo_batch [2]]) = (Inr True, s3)"
    using list_turn_finish(2) [of "[demo_batch [1], demo_batch [2]]" "''x''"] by auto
  from list_driver_turn [OF this, of empty_pool 2]
  have third: "bind_exchange_turn list_driver (BindHandle list_cursor) (turn_of None [])
      (empty_pool, list_net_at (started [demo_batch [1], demo_batch [2]]) 3)
        = (Inr (), (empty_pool, list_net_at (put_session ''s1'' s3 binding_manager) 4))"
    by (simp add: numeral_3_eq_3 eval_nat_numeral)
  have sizes: "memory_size list_ipc b = 0" "length (packed [y]) = 23" "min 100 max_control_bytes = 100"
    "checked_add 0 0 = Some 0" "checked_add 0 23 = Some 23" "checked_add 23 23 = Some 46" for b y
    by (simp_all add: list_ipc_def packed_def max_control_bytes_def checked_add_def usize_limit_def)
  have "send_batches list_ipc (\<lambda>e. internal [Str e]) 100 (bind_exchange_turn list_driver (BindHandle list_cursor)) 0 0
      [Inr (demo_batch [1]), Inr (demo_batch [2])] (empty_pool, list_net_at (started []) (Suc 0))
    = (Inr (), (empty_pool, list_net_at (put_session ''s1'' s3 binding_manager) 4))"
    by (simp add: st_bind_def result_step_def sizes list_encode_turn first second third)
  then show ?thesis
    using list_open_exchange [of empty_pool]
    by (simp add: bind_batches_def st_bind_def result_step_def encode_schema_def client_of_def list_remote_def
        list_driver_def list_lib_def)
qed

subsection \<open>Opening through the driver\<close>

lemma wire_value_from_supported: "wire_value_from v = wire_value_from v' \<Longrightarrow> supported v' \<Longrightarrow> v = v'"
  by (cases v; cases v') (auto simp: wire_value_base_def)

lemma named_options_sent:
  assumes "named_options_into_adbc (map client_named_option os) = Inr kvs"
  shows "kvs = os"
proof -
  have "map client_named_option os = map wire_named kvs" "list_all (\<lambda>kv. supported (snd kv)) kvs"
    using assms by (auto simp: named_options_into_adbc_def result_iffs collect_named_iff)
  then show ?thesis
    by (induction kvs arbitrary: os)
      (auto simp: client_named_option_def wire_named_def map_eq_Cons_conv Cons_eq_map_conv dest: wire_value_from_supported)
qed

lemma manager_open_Inr:
  assumes "manager_open D mc backend now oc spawn uuid who tn m = (Inr sid, m')"
  obtains tc c where "authorizer_allows (mc_authorizer mc) who tn" "hm_get (mc_targets mc) tn = Some tc"
    "backend tc = Inr c" "sid = uuid"
    "hm_get (sessions (inner (registry m'))) sid = Some (new_session D mc now who tn tc c)"
proof -
  from assms obtain tc m1 where adm: "open_admit mc now who tn m = (Inr tc, m1)"
    and rest: "(case open_result (mc_timeout mc) oc (backend tc) of
         Inl e \<Rightarrow> open_abort who e
       | Inr conn \<Rightarrow>
           (case spawn of
              Inl e \<Rightarrow> open_abort who (internal [Lit ''start session worker: '', Str e])
            | Inr _ \<Rightarrow> open_commit uuid who (new_session D mc now who tn tc conn))) m1 = (Inr sid, m')"
    unfolding manager_open_def by (elim st_bind_Inr)
  have target: "authorizer_allows (mc_authorizer mc) who tn" "hm_get (mc_targets mc) tn = Some tc"
    using adm by (auto simp: open_admit_def st_bind_def split: if_splits option.splits prod.splits sum.splits)
  have abort: "open_abort who e m1 \<noteq> (Inr sid, m')" for e
    by (auto simp: open_abort_def st_bind_def split: prod.splits sum.splits)
  with rest obtain c where c: "open_result (mc_timeout mc) oc (backend tc) = Inr c"
    and commit: "open_commit uuid who (new_session D mc now who tn tc c) m1 = (Inr sid, m')"
    by (auto split: sum.splits)
  from c have "backend tc = Inr c" by (auto simp: open_result_def split: open_outcome.splits)
  moreover from commit have "sid = uuid"
    "hm_get (sessions (inner (registry m'))) sid = Some (new_session D mc now who tn tc c)"
    by (auto simp: open_commit_def locked_def Let_def split: if_splits)
  ultimately show ?thesis using target that by blast
qed

lemma control_request:
  assumes "ipc_round_trips (l_ipc L)" and "vgi_round_trips T" and "client_typed_request L T val v = Inr b"
    and "Service.typed_request L T val (to_request cl b) = Inr v'"
  shows "v' = v"
  using assms(3,4)
  by (auto simp: client_typed_request_def encode_request_def typed_request_def decode_request_def to_request_def
      map_err_Inr_iff result_iffs intro: record_decoded [OF assms(1,2)])

lemma control_response:
  assumes "ipc_round_trips (l_ipc L)" and "vgi_round_trips T"
    and "encode_response (l_ipc L) T val v limit = Inr b" and "client_decode_response L T val b = Inr v'"
  shows "v' = v"
  using assms(3,4)
  by (auto simp: client_decode_response_def encode_response_def decode_response_def map_err_Inr_iff result_iffs
      intro: record_decoded [OF assms(1,2)])

text \<open>A call of the driver is answered by the registered handler of the method.\<close>

lemma transport_call_Inr:
  fixes R :: "('v, 'cl, ('c, 's, 'k, 'r, 'sch, 'w) server_net, stream_handle, 'sch) driver"
    and Z :: "('c, 's, 'k, 'r, 'sch, 'x, 'w, 'f) server"
  assumes "transport_call R t name b (p, n) = (Inr reply, (p', n'))" and "dr_wire R = served_wire Z"
  obtains cl :: "'cl any_client" and h where "unary_call name = Some h"
    "h (se_service Z) (se_ambient Z (sn_count n)) (to_request cl b) (se_context Z) (sn_manager n) = (Inr reply, sn_manager n')"
    "p' = p" "sn_count n' = Suc (sn_count n)"
proof -
  from assms obtain cl :: "'cl any_client" where "rpc R (served_unary Z cl name b) (p, n) = (Inr reply, (p', n'))"
    unfolding transport_call_def assms(2) by (elim result_step_bind_Inr) (auto simp: served_wire_def)
  then obtain h where "unary_call name = Some h"
    "h (se_service Z) (se_ambient Z (sn_count n)) (to_request cl b) (se_context Z) (sn_manager n) = (Inr reply, sn_manager n')"
    "p' = p" "sn_count n' = Suc (sn_count n)"
    by (cases "unary_call name :: ('c, 's, 'k, 'r, 'sch, 'x, 'w, 'f) handler option")
      (auto simp: rpc_def on_net_def step_err_def served_unary_def serve_def map_err_Inr_iff ret_def split: prod.splits)
  then show ?thesis by (rule that)
qed

lemma open_connection_Inr:
  assumes "open_connection E a req ctx m = (Inr reply, m')"
  obtains args who dbo co tc c where
    "Service.typed_request (sv_lib E) (t_open_connection (l_types (sv_lib E))) open_request_validate req = Inr args"
    "caller E ctx = Inr who" "named_options_into_adbc (oc_database_options args) = Inr dbo"
    "named_options_into_adbc (oc_connection_options args) = Inr co"
    "authorizer_allows (mc_authorizer (sv_mc E)) who (oc_target args)"
    "hm_get (mc_targets (sv_mc E)) (oc_target args) = Some tc" "sv_backend E tc dbo co = Inr c"
    "encode_response (l_ipc (sv_lib E)) (t_session (l_types (sv_lib E))) response_validate
       \<lparr>sr_session_id = a_uuid a\<rparr> (response_limit ctx) = Inr reply"
    "hm_get (sessions (inner (registry m'))) (a_uuid a) = Some (new_session (sv_ops E) (sv_mc E) (a_now a) who (oc_target args) tc c)"
proof -
  from assms obtain args who dbo co sid m1 where
    args: "Service.typed_request (sv_lib E) (t_open_connection (l_types (sv_lib E))) open_request_validate req = Inr args"
    and who: "caller E ctx = Inr who"
    and opts: "named_options_into_adbc (oc_database_options args) = Inr dbo"
      "named_options_into_adbc (oc_connection_options args) = Inr co"
    and opened: "manager_open (sv_ops E) (sv_mc E) (\<lambda>t. sv_backend E t dbo co) (a_now a) (a_open a)
      (a_spawn a) (a_uuid a) who (oc_target args) m = (Inr sid, m1)"
    and reply: "handle_response (sv_lib E) (t_session (l_types (sv_lib E))) response_validate
       \<lparr>sr_session_id = sid\<rparr> (response_limit ctx) (\<lambda>m. snd (manager_close sid who m)) m1 = (Inr reply, m')"
    by (auto simp: open_connection_def proto_def ret_def adbc_def map_err_Inr_iff elim!: st_bind_Inr split: prod.splits)
  from reply have "encode_response (l_ipc (sv_lib E)) (t_session (l_types (sv_lib E))) response_validate
       \<lparr>sr_session_id = sid\<rparr> (response_limit ctx) = Inr reply" "m' = m1"
    by (auto simp: handle_response_def bounded_response_def result_iffs split: sum.splits)
  moreover obtain tc c where "authorizer_allows (mc_authorizer (sv_mc E)) who (oc_target args)"
    "hm_get (mc_targets (sv_mc E)) (oc_target args) = Some tc" "sv_backend E tc dbo co = Inr c" "sid = a_uuid a"
    "hm_get (sessions (inner (registry m1))) sid = Some (new_session (sv_ops E) (sv_mc E) (a_now a) who (oc_target args) tc c)"
    by (rule manager_open_Inr [OF opened])
  ultimately show ?thesis using args who opts that by blast
qed

text \<open>A connection opened through the driver, from the options of the application to the registered session.\<close>

lemma driver_open_served:
  fixes R :: "('v, 'cl, ('c, 's, 'k, 'r, 'sch, 'w) server_net, stream_handle, 'sch) driver"
    and Z :: "('c, 's, 'k, 'r, 'sch, 'x, 'w, 'f) server"
  assumes wire: "dr_wire R = served_wire Z" and lib: "dr_lib R = sv_lib (se_service Z)"
    and ipc: "ipc_round_trips (l_ipc (dr_lib R))"
    and types: "vgi_round_trips (t_open_connection (l_types (dr_lib R)))" "vgi_round_trips (t_session (l_types (dr_lib R)))"
    and db: "new_database_with_opts db_opts = Inr d"
    and call: "new_connection_with_opts R d opts (p, n) = (Inr rm, (p', n'))"
  obtains who target tc dbo c now where "caller (se_service Z) (se_context Z) = Inr who"
    "string_option d option_target = Inr target"
    "authorizer_allows (mc_authorizer (sv_mc (se_service Z))) who target"
    "hm_get (mc_targets (sv_mc (se_service Z))) target = Some tc"
    "distinct (map fst dbo)" "\<forall>k. map_of dbo k = forwarded d k" "sv_backend (se_service Z) tc dbo opts = Inr c"
    "hm_get (sessions (inner (registry (sn_manager n')))) (rm_session_id rm)
        = Some (new_session (sv_ops (se_service Z)) (sv_mc (se_service Z)) now who target tc c)"
proof -
  let ?E = "se_service Z" and ?L = "dr_lib R"
  from call obtain ro transport req reply r p1 n1 where ro: "connection_request d opts = Inr ro"
    and req: "client_typed_request ?L (t_open_connection (l_types ?L)) open_request_validate
       \<lparr>oc_target = ro_target ro, oc_database_options = ro_database_options ro,
        oc_connection_options = ro_connection_options ro\<rparr> = Inr req"
    and sent: "transport_call R transport ''open_connection'' req (p1, n1) = (Inr reply, (p', n'))"
    and r: "client_decode_response ?L (t_session (l_types ?L)) response_validate reply = Inr r"
    and rm: "rm_session_id rm = sr_session_id r"
    by (auto simp: new_connection_with_opts_def remote_open_def keeping_transport_def result_step_def
        elim!: st_bind_Inr split: prod.splits sum.splits)
  from ro have fields: "ro_database_options ro = remote_options d" "string_option d option_target = Inr (ro_target ro)"
      "ro_connection_options ro = map client_named_option opts"
    by (auto simp: connection_request_def result_iffs)
  obtain os where os: "remote_options d = map client_named_option os" "hm_wf os" "\<forall>k. hm_get os k = forwarded d k"
    by (rule remote_options_forwarded [OF new_database_wf [OF db]])
  from sent obtain cl :: "'cl any_client" where
    handled: "open_connection ?E (se_ambient Z (sn_count n1)) (to_request cl req) (se_context Z) (sn_manager n1)
      = (Inr reply, sn_manager n')"
    by (rule transport_call_Inr [OF _ wire]) (auto simp: unary_open)
  from handled obtain args who dbo co tc c where
    args: "Service.typed_request (sv_lib ?E) (t_open_connection (l_types (sv_lib ?E))) open_request_validate
      (to_request cl req) = Inr args"
    and who: "caller ?E (se_context Z) = Inr who"
    and named: "named_options_into_adbc (oc_database_options args) = Inr dbo"
      "named_options_into_adbc (oc_connection_options args) = Inr co"
    and target: "authorizer_allows (mc_authorizer (sv_mc ?E)) who (oc_target args)"
      "hm_get (mc_targets (sv_mc ?E)) (oc_target args) = Some tc" "sv_backend ?E tc dbo co = Inr c"
    and reply: "encode_response (l_ipc (sv_lib ?E)) (t_session (l_types (sv_lib ?E))) response_validate
       \<lparr>sr_session_id = a_uuid (se_ambient Z (sn_count n1))\<rparr> (response_limit (se_context Z)) = Inr reply"
    and registered: "hm_get (sessions (inner (registry (sn_manager n')))) (a_uuid (se_ambient Z (sn_count n1)))
      = Some (new_session (sv_ops ?E) (sv_mc ?E) (a_now (se_ambient Z (sn_count n1))) who (oc_target args) tc c)"
    by (rule open_connection_Inr)
  have args_sent: "args = \<lparr>oc_target = ro_target ro, oc_database_options = ro_database_options ro,
        oc_connection_options = ro_connection_options ro\<rparr>"
    by (rule control_request [OF ipc types(1) req args [folded lib]])
  have sid: "r = \<lparr>sr_session_id = a_uuid (se_ambient Z (sn_count n1))\<rparr>"
    by (rule control_response [OF ipc types(2) reply [folded lib] r])
  have "dbo = os" "co = opts"
    using named by (auto simp: args_sent fields os(1) dest: named_options_sent)
  with who target registered os fields show ?thesis
    by (intro that [of who "ro_target ro" tc os c]) (auto simp: args_sent rm sid hm_wf_def)
qed

subsection \<open>A database opened through the driver\<close>

definition opening_server ::
  "(nat, record_batch list, nat, record_batch list, nat, string, record_batch list counting_file, record_batch list) server"
  where
  "opening_server = list_server\<lparr>se_ambient := (\<lambda>_. calm ''s1'')\<rparr>"

definition opening_driver :: "(unit, unit, list_net, stream_handle, nat) driver" where
  "opening_driver = list_driver\<lparr>dr_wire := served_wire opening_server\<rparr>"

definition duck_database :: database where
  "duck_database = \<lparr>options = [(''uri'', StringValue ''http://h''), (''grainlift.target'', StringValue ''duck'')]\<rparr>"

lemma duck_database_new:
  "new_database_with_opts [(''uri'', StringValue ''http://h''), (''grainlift.target'', StringValue ''duck'')]
     = Inr duck_database"
  by (simp add: new_database_with_opts_def new_database_def database_set_option_def database_validate_def
      string_option_any_def string_option_def option_names standard_uri_def Let_def duck_database_def)

lemma duck_connection_request:
  obtains ro where "connection_request duck_database [] = Inr ro" "ro_endpoint ro = ''http://h''"
    "ro_target ro = ''duck''" "ro_bearer_token ro = None" "ro_database_options ro = []" "ro_connection_options ro = []"
  by (simp add: connection_request_def duck_database_def database_validate_def string_option_any_def
      string_option_def positive_int_option_def optional_string_def option_names standard_uri_def remote_options_def
      is_grainlift_database_option_def default_request_timeout_ms_def default_max_response_bytes_def
      default_max_bind_bytes_def max_bind_stream_bytes_def usize_try_from_def max_configurable_bind_bytes_def
      i64_max_def Let_def)

lemma list_open_encoded:
  "client_typed_request list_lib (t_open_connection list_types) open_request_validate
     \<lparr>oc_target = ''duck'', oc_database_options = [], oc_connection_options = []\<rparr> = Inr (batch (open_request ''duck''))"
proof -
  have "encode_record_ipc list_ipc (t_open_connection list_types)
      \<lparr>oc_target = ''duck'', oc_database_options = [], oc_connection_options = []\<rparr> max_control_bytes
    = Inr (packed (str_bytes ''duck''))"
    using coded_encode [where v = "\<lparr>oc_target = ''duck'', oc_database_options = [], oc_connection_options = []\<rparr>"
        and limit = max_control_bytes and enc = "\<lambda>r. str_bytes (oc_target r)"
        and dec = "\<lambda>bs. \<lparr>oc_target = bytes_str bs, oc_database_options = [], oc_connection_options = []\<rparr>"]
    by (simp add: list_types_def bytes_str_bytes length_str_bytes max_control_bytes_def)
  then show ?thesis
    using list_encode(1) [of "packed (str_bytes ''duck'')" max_control_bytes]
    by (simp add: client_typed_request_def encode_request_def encode_record_def open_request_validate_def
        packed_def [of "str_bytes _"] length_str_bytes max_control_bytes_def
        validate_handle_def validate_text_def list_lib_def open_request_batch demo_batch_def)
qed

lemma list_session_decoded:
  "client_decode_response list_lib (t_session list_types) response_validate (result_batch (packed (str_bytes ''s1'')))
     = Inr \<lparr>sr_session_id = ''s1''\<rparr>"
proof -
  have "decode_record_ipc list_ipc (t_session list_types) (packed (str_bytes ''s1'')) max_control_bytes
      = Inr \<lparr>sr_session_id = ''s1''\<rparr>"
    using coded_decode [where v = "\<lparr>sr_session_id = ''s1''\<rparr>" and limit = max_control_bytes
        and enc = "\<lambda>r. str_bytes (sr_session_id r)" and dec = "\<lambda>bs. \<lparr>sr_session_id = bytes_str bs\<rparr>"]
    by (simp add: list_types_def bytes_str_bytes length_str_bytes max_control_bytes_def usize_max_def)
  then show ?thesis
    by (simp add: client_decode_response_def decode_response_def decode_record_def result_batch_def list_lib_def
        binary_value_def require_one_row_def column_by_name_def envelope_schema_def binary_field_def
        response_validate_def)
qed

text \<open>A driver over the idle dialer opens the database on any server whose handler accepts the request.\<close>

lemma duck_opens_at:
  fixes R :: "(unit, unit, ('c, 's, 'k, 'r, 'sch, 'w) server_net, stream_handle, 'sch) driver"
    and Z :: "('c, 's, 'k, 'r, 'sch, 'x, 'w, 'f) server"
  assumes parts: "dr_dialer R = idle_dialer" "dr_wire R = served_wire Z"
    and sent: "client_typed_request (dr_lib R) (t_open_connection (l_types (dr_lib R))) open_request_validate
      \<lparr>oc_target = ''duck'', oc_database_options = [], oc_connection_options = []\<rparr> = Inr (batch (open_request ''duck''))"
    and answered: "open_connection (se_service Z) (se_ambient Z (sn_count n)) (open_request ''duck'') (se_context Z) (sn_manager n)
      = (Inr reply, m')"
    and read: "client_decode_response (dr_lib R) (t_session (l_types (dr_lib R))) response_validate reply = Inr \<lparr>sr_session_id = sid\<rparr>"
  obtains rm where "new_connection_with_opts R duck_database [] (empty_pool, n)
      = (Inr rm, (empty_pool, n\<lparr>sn_manager := m', sn_count := Suc (sn_count n)\<rparr>))" "rm_session_id rm = sid"
proof -
  obtain ro where ro: "connection_request duck_database [] = Inr ro" "ro_endpoint ro = ''http://h''"
    "ro_target ro = ''duck''" "ro_bearer_token ro = None" "ro_database_options ro = []" "ro_connection_options ro = []"
    by (rule duck_connection_request)
  let ?t = "HttpT \<lparr>ht_endpoint = ''http://h'', ht_bearer_token = None, ht_timeout = ro_request_timeout_ms ro,
    ht_max_response_bytes = ro_max_response_bytes ro\<rparr> :: unit remote_transport"
  have connected: "transport_connect (dr_dialer R) (ro_endpoint ro) (ro_bearer_token ro) (ro_request_timeout_ms ro)
      (ro_max_response_bytes ro) (ro_transport_options ro) (empty_pool, n) = (Inr ?t, (empty_pool, n))"
    by (simp add: ro parts transport_connect_def normalize_endpoint_def endpoint_aliases_def strip_prefix_def starts_with_def
        is_http_endpoint_def idle_dialer_def st_bind_def result_step_def Let_def)
  have version: "to_request (HttpC c) (batch (open_request ''duck'')) = open_request ''duck''"
    if "hc_version c = protocol_version" for c
    using that by (simp add: to_request_def open_request_def protocol_version_def)
  have called: "transport_call R ?t ''open_connection'' (batch (open_request ''duck'')) (empty_pool, n)
      = (Inr reply, (empty_pool, n\<lparr>sn_manager := m', sn_count := Suc (sn_count n)\<rparr>))"
    using answered
    by (simp add: transport_call_def client_of_def transport_http_client_def build_client_def parts
        served_wire_def served_unary_def unary_open serve_def rpc_def on_net_def step_err_def
        version st_bind_def result_step_def)
  show ?thesis
    using connected called sent read
    by (intro that [of "\<lparr>rm_transport = ?t, rm_session_id = sid, rm_max_bind_bytes = ro_max_bind_bytes ro\<rparr>"])
      (simp_all add: new_connection_with_opts_def remote_open_def keeping_transport_def st_bind_def result_step_def ro)
qed

lemma duck_opens:
  obtains rm n' where "new_connection_with_opts opening_driver duck_database [] (empty_pool, list_net_at empty_manager 0)
      = (Inr rm, (empty_pool, n'))" "rm_session_id rm = ''s1''" "sn_manager n' = live_manager"
proof -
  have "l_types list_lib = list_types" by (simp add: list_lib_def)
  then obtain rm where "new_connection_with_opts opening_driver duck_database [] (empty_pool, list_net_at empty_manager 0)
      = (Inr rm, (empty_pool, list_net_at live_manager 1))" "rm_session_id rm = ''s1''"
    using duck_opens_at [of opening_driver opening_server "list_net_at empty_manager 0" _ live_manager "''s1''"]
      list_open list_open_encoded list_session_decoded
    by (auto simp: opening_driver_def list_driver_def opening_server_def list_server_def)
  then show ?thesis by (intro that [of rm "list_net_at live_manager 1"]) simp_all
qed

subsection \<open>Options read through the driver\<close>

fun has_value_type :: "string \<Rightarrow> option_value \<Rightarrow> bool" where
  "has_value_type t (StringValue _) \<longleftrightarrow> t = ''string''"
| "has_value_type t (BytesValue _) \<longleftrightarrow> t = ''bytes''"
| "has_value_type t (IntValue _) \<longleftrightarrow> t = ''int''"
| "has_value_type t (DoubleValue _) \<longleftrightarrow> t = ''double''"
| "has_value_type t (OtherValue _) \<longleftrightarrow> False"

lemma get_option_as_typed:
  "get_option_as gs gb gi gd t key c = (Inr v, c') \<Longrightarrow> has_value_type t v"
  by (auto simp: get_option_as_def ret_def elim!: st_bind_Inr split: if_splits)

lemma with_connection_Inr:
  assumes "with_connection oc f s = (Inr a, s')"
  obtains c' where "f (inner (connection s)) = (Inr a, c')"
  using worker_call_Inr [OF assms [unfolded with_connection_def]] that by (auto elim!: locked_Inr)

lemma option_key_args:
  "string_arg (to_request cl (connection_option_key_request sid key t)) ''session_id'' = Inr x \<Longrightarrow> x = sid"
  "string_arg (to_request cl (connection_option_key_request sid key t)) ''key'' = Inr x \<Longrightarrow> x = key"
  "string_arg (to_request cl (connection_option_key_request sid key t)) ''value_type'' = Inr x \<Longrightarrow> x = t"
  "string_arg (to_request cl (statement_option_key_request sid hid key t)) ''session_id'' = Inr x \<Longrightarrow> x = sid"
  "string_arg (to_request cl (statement_option_key_request sid hid key t)) ''statement_id'' = Inr x \<Longrightarrow> x = hid"
  "string_arg (to_request cl (statement_option_key_request sid hid key t)) ''key'' = Inr x \<Longrightarrow> x = key"
  "string_arg (to_request cl (statement_option_key_request sid hid key t)) ''value_type'' = Inr x \<Longrightarrow> x = t"
  by (auto simp: string_arg_def to_request_def connection_option_key_request_def statement_option_key_request_def
      one_row_def string_value_def require_one_row_def connection_option_key_schema_def
      statement_option_key_schema_def column_by_name_def text_field_def result_iffs)

lemma value_decoded:
  assumes "ipc_round_trips (l_ipc L)" and "vgi_round_trips (t_value (l_types L))"
    and "value_response L v = Inr b" and "decode_option_response L b = Inr v'"
  shows "v' = v"
proof -
  from assms(3) obtain w where sent: "wire_value_into_adbc (wire_value_from v) = Inr w"
    "encode_response (l_ipc L) (t_value (l_types L)) value_response_validate \<lparr>vr_value = wire_value_from v\<rparr>
       max_control_bytes = Inr b"
    by (auto simp: value_response_def typed_response_def Let_def result_iffs map_err_Inr_iff)
  from assms(4) obtain r where r: "client_decode_response L (t_value (l_types L)) value_response_validate b = Inr r"
    "wire_value_into_adbc (vr_value r) = Inr v'"
    by (auto simp: decode_option_response_def result_iffs map_err_Inr_iff)
  from control_response [OF assms(1,2) sent(2) r(1)] r(2) sent(1) show ?thesis
    by (auto simp: wire_value_into_iff dest: wire_value_from_supported)
qed

lemma unary_getters:
  "unary_call ''get_connection_option'' = Some get_connection_option_call"
  "unary_call ''get_statement_option'' = Some get_statement_option_call"
  by (simp_all add: unary_call_def unary_methods_def)

lemma remote_get_Inr:
  fixes R :: "('v, 'cl, ('c, 's, 'k, 'r, 'sch, 'w) server_net, stream_handle, 'sch) driver"
    and Z :: "('c, 's, 'k, 'r, 'sch, 'x, 'w, 'f) server"
  assumes "st_bind (remote_call R rm name b) (\<lambda>response. result_step (decode_option_response (dr_lib R) response)) (p, n)
      = (Inr v, (p', n'))"
    and "dr_wire R = served_wire Z" and "name \<notin> set acknowledged"
  obtains cl :: "'cl any_client" and h reply where "unary_call name = Some h"
    "h (se_service Z) (se_ambient Z (sn_count n)) (to_request cl b) (se_context Z) (sn_manager n) = (Inr reply, sn_manager n')"
    "decode_option_response (dr_lib R) reply = Inr v"
proof -
  from assms(1,3) obtain reply where "transport_call R (rm_transport rm) name b (p, n) = (Inr reply, (p', n'))"
    and dec: "decode_option_response (dr_lib R) reply = Inr v"
    by (auto simp: remote_call_def check_reply_def result_step_def elim!: st_bind_Inr)
  from this(1) show ?thesis by (rule transport_call_Inr [OF _ assms(2)]) (rule that [OF _ _ dec])
qed

lemma connection_option_got:
  fixes R :: "('v, 'cl, ('c, 's, 'k, 'r, 'sch, 'w) server_net, stream_handle, 'sch) driver"
    and Z :: "('c, 's, 'k, 'r, 'sch, 'x, 'w, 'f) server"
  assumes wire: "dr_wire R = served_wire Z" and lib: "dr_lib R = sv_lib (se_service Z)"
    and ipc: "ipc_round_trips (l_ipc (dr_lib R))" and types: "vgi_round_trips (t_value (l_types (dr_lib R)))"
    and call: "get_connection_option R rm key t (p, n) = (Inr v, (p', n'))"
  shows "\<exists>s c'. hm_get (sessions (inner (registry (sn_manager n)))) (rm_session_id rm) = Some s
    \<and> get_option_as (c_get_option_string (sv_calls (se_service Z))) (c_get_option_bytes (sv_calls (se_service Z)))
        (c_get_option_int (sv_calls (se_service Z))) (c_get_option_double (sv_calls (se_service Z))) t key
        (inner (connection s)) = (Inr v, c')"
proof -
  have "''get_connection_option'' \<notin> set acknowledged" by (simp add: acknowledged_def)
  with call obtain cl :: "'cl any_client" and reply where
    handled: "get_connection_option_call (se_service Z) (se_ambient Z (sn_count n))
      (to_request cl (connection_option_key_request (rm_session_id rm) key t)) (se_context Z) (sn_manager n)
      = (Inr reply, sn_manager n')"
    and dec: "decode_option_response (dr_lib R) reply = Inr v"
    unfolding get_connection_option_def
    by (elim remote_get_Inr [OF _ wire]) (auto simp: unary_getters)
  from handled show ?thesis
    unfolding get_connection_option_call_def
    by (elim on_session_Inr)
      (auto simp: arg_def ret_def adbc_def map_err_Inr_iff split: prod.splits elim!: st_bind_Inr with_connection_Inr
        dest!: option_key_args(1-3) value_decoded [OF ipc types, unfolded lib, OF _ dec [unfolded lib]])
qed

lemma statement_option_got:
  fixes R :: "('v, 'cl, ('c, 's, 'k, 'r, 'sch, 'w) server_net, stream_handle, 'sch) driver"
    and Z :: "('c, 's, 'k, 'r, 'sch, 'x, 'w, 'f) server"
  assumes wire: "dr_wire R = served_wire Z" and lib: "dr_lib R = sv_lib (se_service Z)"
    and ipc: "ipc_round_trips (l_ipc (dr_lib R))" and types: "vgi_round_trips (t_value (l_types (dr_lib R)))"
    and call: "statement_get_option R rm hid key t (p, n) = (Inr v, (p', n'))"
  shows "\<exists>s entry st'. hm_get (sessions (inner (registry (sn_manager n)))) (rm_session_id rm) = Some s
    \<and> hm_get (inner (statements s)) hid = Some entry
    \<and> get_option_as (s_get_option_string (sv_calls (se_service Z))) (s_get_option_bytes (sv_calls (se_service Z)))
        (s_get_option_int (sv_calls (se_service Z))) (s_get_option_double (sv_calls (se_service Z))) t key
        (inner (statement entry)) = (Inr v, st')"
proof -
  have "''get_statement_option'' \<notin> set acknowledged" by (simp add: acknowledged_def)
  with call obtain cl :: "'cl any_client" and reply where
    handled: "get_statement_option_call (se_service Z) (se_ambient Z (sn_count n))
      (to_request cl (statement_option_key_request (rm_session_id rm) hid key t)) (se_context Z) (sn_manager n)
      = (Inr reply, sn_manager n')"
    and dec: "decode_option_response (dr_lib R) reply = Inr v"
    unfolding statement_get_option_def
    by (elim remote_get_Inr [OF _ wire]) (auto simp: unary_getters)
  from handled show ?thesis
    unfolding get_statement_option_call_def
    by (elim on_session_Inr)
      (auto simp: arg_def ret_def adbc_def map_err_Inr_iff split: prod.splits elim!: st_bind_Inr with_statement_Inr
        dest!: option_key_args(4-7) value_decoded [OF ipc types, unfolded lib, OF _ dec [unfolded lib]])
qed

lemma list_option_reply:
  "value_response list_lib (StringValue ''k'') = Inr (result_batch (packed (str_bytes ''k'')))"
  "decode_option_response list_lib (result_batch (packed (str_bytes ''k''))) = Inr (StringValue ''k'')"
proof -
  let ?v = "\<lparr>vr_value = wire_value_from (StringValue ''k'')\<rparr>"
  have enc: "encode_record_ipc list_ipc (t_value list_types) ?v max_control_bytes = Inr (packed (str_bytes ''k''))"
    and dec: "decode_record_ipc list_ipc (t_value list_types) (packed (str_bytes ''k'')) max_control_bytes = Inr ?v"
    using coded_encode [where v = ?v and limit = max_control_bytes
        and enc = "\<lambda>r. case wv_string (vr_value r) of None \<Rightarrow> [] | Some v \<Rightarrow> str_bytes v"
        and dec = "\<lambda>bs. \<lparr>vr_value = wire_value_from (StringValue (bytes_str bs))\<rparr>"]
      coded_decode [where v = ?v and limit = max_control_bytes
        and enc = "\<lambda>r. case wv_string (vr_value r) of None \<Rightarrow> [] | Some v \<Rightarrow> str_bytes v"
        and dec = "\<lambda>bs. \<lparr>vr_value = wire_value_from (StringValue (bytes_str bs))\<rparr>"]
    by (simp_all add: list_types_def bytes_str_bytes length_str_bytes max_control_bytes_def usize_max_def)
  have ok: "wire_value_into_adbc (wire_value_from (StringValue ''k'')) = Inr (StringValue ''k'')"
    by (simp add: wire_value_into_adbc_def wire_value_base_def)
  then have val: "value_response_validate ?v = Inr ()"
    using wire_value_validate_iff [of "wire_value_from (StringValue ''k'')" "()"]
    by (simp add: value_response_validate_def)
  from list_encode(2) [of "packed (str_bytes ''k'')" max_control_bytes]
  obtain bs where bs: "encode_batch_ipc list_ipc (result_batch (packed (str_bytes ''k''))) max_control_bytes = Inr bs"
    by (auto simp: packed_def length_str_bytes max_control_bytes_def)
  from enc ok val bs show "value_response list_lib (StringValue ''k'') = Inr (result_batch (packed (str_bytes ''k'')))"
    by (simp add: value_response_def typed_response_def encode_response_def encode_record_def list_lib_def
        result_batch_def Let_def)
  from dec ok val show "decode_option_response list_lib (result_batch (packed (str_bytes ''k''))) = Inr (StringValue ''k'')"
    by (simp add: decode_option_response_def client_decode_response_def decode_response_def decode_record_def
        result_batch_def list_lib_def binary_value_def require_one_row_def column_by_name_def envelope_schema_def
        binary_field_def)
qed

lemma list_get_option:
  obtains n' where "get_connection_option list_driver list_remote ''k'' ''string'' (empty_pool, list_net_at live_manager 0)
      = (Inr (StringValue ''k''), (empty_pool, n'))"
proof -
  let ?req = "to_request (ByteC (configure_rpc_client ())) (connection_option_key_request ''s1'' ''k'' ''string'')"
  have args: "validate_protocol_version ?req = Inr ()" "string_arg ?req ''session_id'' = Inr ''s1''"
    "string_arg ?req ''key'' = Inr ''k''" "string_arg ?req ''value_type'' = Inr ''string''"
    by (simp_all add: validate_protocol_version_def compatible_version_def strip_prefix_def is_ascii_digit_def
        string_arg_def to_request_def configure_rpc_client_def protocol_version_def
        connection_option_key_request_def one_row_def string_value_def require_one_row_def
        connection_option_key_schema_def column_by_name_def text_field_def validate_handle_def validate_text_def)
  have body: "\<exists>m. get_connection_option_call list_service (calm ''u1'') ?req alice live_manager
      = (Inr (result_batch (packed (str_bytes ''k''))), m)"
    unfolding get_connection_option_call_def
    by (subst live_request [OF args(1,2) list_caller, where s = live_session])
      (simp_all add: live_manager_def live_session_def new_session_def list_service_def calm_def demo_mc_def
        elapsed_def arg_def args(3,4) st_bind_def ret_def adbc_def with_connection_def locked_def list_calls_def
        get_option_as_def list_option_reply(1))
  then obtain m where m: "get_connection_option_call list_service (calm ''u1'') ?req alice live_manager
      = (Inr (result_batch (packed (str_bytes ''k''))), m)" ..
  show ?thesis
    by (rule that [of "list_net_at m 1"])
      (simp add: get_connection_option_def remote_call_def check_reply_def acknowledged_def transport_call_def client_of_def
        list_remote_def list_driver_def served_wire_def served_unary_def unary_getters serve_def rpc_def on_net_def
        step_err_def list_server_def m st_bind_def result_step_def list_option_reply(2))
qed

end
