(* ===== verification/Reading.thy ===== *)
theory Reading
  imports End_To_End
begin

text \<open>
  Reading a result through the driver. The theory follows a statement execution across the two
  programs: the service inserts the result under a new id, the driver opens a reader on that id and
  asks for one batch after the other, and the read stream of the service answers from the session.
  The lemmas carry the position of the reader through every turn (\<^term>\<open>stream_at\<close>), for a reader on
  a byte stream, which owns its connection, and for a reader over HTTP, which reopens the stream from
  a continuation token in every turn.
\<close>

section \<open>Positions\<close>

text \<open>What an application sees that calls the reader until it ends, at most \<open>k\<close> times.\<close>

fun drain_reader ::
  "('v, 'cl, 'n, 'st, 'sch) driver \<Rightarrow> 'cl remote_connection \<Rightarrow> nat \<Rightarrow> ('st, 'sch) remote_reader \<Rightarrow> ('v, 'n) net \<Rightarrow>
   (adbc_error, record_batch) result list" where
  "drain_reader R rm 0 rd s = []"
| "drain_reader R rm (Suc k) rd s =
     (case reader_next R rm rd s of
        (None, _, _) \<Rightarrow> []
      | (Some v, rd', s') \<Rightarrow> v # drain_reader R rm k rd' s')"

text \<open>
  From request \<open>k\<close> on the session is used within its lease, last at time \<open>t\<close>, and its worker completes
  what it is asked.
\<close>

definition prompt :: "('c, 's, 'k, 'r, 'sch, 'x, 'w, 'f) server \<Rightarrow> nat \<Rightarrow> nat \<Rightarrow> bool" where
  "prompt Z t k \<longleftrightarrow>
     elapsed (a_now (se_ambient Z k)) t \<le> mc_ttl (sv_mc (se_service Z))
     \<and> (\<forall>j\<ge>k. a_outcome (se_ambient Z j) 0 = Completed
          \<and> elapsed (a_now (se_ambient Z (Suc j))) (a_now (se_ambient Z j)) \<le> mc_ttl (sv_mc (se_service Z)))"

text \<open>The service is at position \<open>i\<close> of the result, for the stream \<open>h\<close>.\<close>

definition stream_at ::
  "('c, 's, 'k, 'r, 'sch, 'x, 'w, 'f) server \<Rightarrow> ('r \<Rightarrow> record_batch list) \<Rightarrow> string \<Rightarrow> string \<Rightarrow> record_batch list \<Rightarrow>
   nat \<Rightarrow> nat \<Rightarrow> nat \<Rightarrow> ('c, 's, 'k, 'r, 'sch, 'w) server_net \<Rightarrow> bool" where
  "stream_at Z contents sid rid bs h i t n \<longleftrightarrow>
     (\<exists>who. caller (se_service Z) (se_context Z) = Inr who
        \<and> streaming who sid rid contents bs i t (sn_manager n)
        \<and> hm_get (sn_cursors n) h = Some \<lparr>cu_session_id = sid, cu_result_id = rid, cu_sequence = of_nat i\<rparr>)"

text \<open>The driver's reader is open on the stream \<open>h\<close> and has handed out all it fetched.\<close>

definition reads_from ::
  "('v, 'cl, ('c, 's, 'k, 'r, 'sch, 'w) server_net, stream_handle, 'sch) driver \<Rightarrow> 'cl remote_connection \<Rightarrow> nat \<Rightarrow>
   (stream_handle, 'sch) remote_reader \<Rightarrow> bool" where
  "reads_from R rm h rd \<longleftrightarrow>
     \<not> rr_finished rd
     \<and> (case rr_mode rd of
          ByteMode worker \<Rightarrow> \<exists>lease. worker = Some (ReadHandle h, lease)
        | HttpMode queued token \<Rightarrow>
            queued = [] \<and> token = Some (token_of (ReadHandle h)) \<and> (\<exists>c. transport_http_client R (rm_transport rm) = Inr c))"

text \<open>Dialing a new byte stream does not change the state of the service.\<close>

definition quiet_dialer ::
  "('v, 'cl, ('c, 's, 'k, 'r, 'sch, 'w) server_net, stream_handle, 'sch) driver \<Rightarrow> 'cl remote_connection \<Rightarrow> bool" where
  "quiet_dialer R rm \<longleftrightarrow>
     (case rm_transport rm of
        HttpT _ \<Rightarrow> True
      | ByteT b \<Rightarrow> \<forall>p n. snd (snd (byte_connect (dr_dialer R) (bt_connector b) (p, n))) = n)"

section \<open>Turns\<close>

lemma prompt_next: "prompt Z t k \<Longrightarrow> prompt Z (a_now (se_ambient Z k)) (Suc k)"
  by (simp add: prompt_def)

lemma served_tick_at:
  assumes "reads (sv_ops (se_service Z)) contents" and "stream_at Z contents sid rid bs h i t n" and "i \<le> length bs"
    and "prompt Z t (sn_count n)"
  obtains n' where "served_tick Z (ReadHandle h) n = (Inr (if i < length bs then Some (bs ! i) else None), n')"
    "sn_count n' = Suc (sn_count n)"
    "i < length bs \<longrightarrow> stream_at Z contents sid rid bs h (Suc i) (a_now (se_ambient Z (sn_count n))) n'"
proof -
  let ?E = "se_service Z" and ?a = "se_ambient Z (sn_count n)"
  let ?cur = "\<lparr>cu_session_id = sid, cu_result_id = rid, cu_sequence = of_nat i\<rparr>"
  obtain who where who: "caller ?E (se_context Z) = Inr who"
    and live: "streaming who sid rid contents bs i t (sn_manager n)"
    and cur: "hm_get (sn_cursors n) h = Some ?cur"
    using assms(2) by (auto simp: stream_at_def)
  have now: "elapsed (a_now ?a) t \<le> mc_ttl (sv_mc ?E)" "a_outcome ?a 0 = Completed"
    using assms(4) by (auto simp: prompt_def)
  obtain m' where m': "on_session_id ?E ?a sid (se_context Z) (adbc (sv_lib ?E)
       (next_result (sv_ops ?E) (a_outcome ?a 0) rid (of_nat i))) (sn_manager n) =
       (Inr (if i < length bs then Some (bs ! i) else None), m')"
    "i < length bs \<longrightarrow> streaming who sid rid contents bs i (a_now ?a) m'
       \<and> streaming who sid rid contents bs (Suc i) (a_now ?a) m'"
    by (rule next_turn [OF assms(1) who live assms(3) now])
  let ?cur' = "if i < length bs then ?cur\<lparr>cu_sequence := of_nat (Suc i)\<rparr> else ?cur"
  let ?n' = "n\<lparr>sn_manager := m', sn_count := Suc (sn_count n), sn_cursors := hm_insert h ?cur' (sn_cursors n)\<rparr>"
  have "served_tick Z (ReadHandle h) n = (Inr (if i < length bs then Some (bs ! i) else None), ?n')"
    using m'(1) cur by (simp add: served_tick_def produce_def keeping_def add.commute)
  moreover have "i < length bs \<longrightarrow> stream_at Z contents sid rid bs h (Suc i) (a_now ?a) ?n'"
    using m'(2) who by (auto simp: stream_at_def)
  ultimately show ?thesis by (intro that [of ?n']) simp_all
qed

lemma reader_next_at:
  assumes wire: "dr_wire R = served_wire Z" and "reads (sv_ops (se_service Z)) contents"
    and "stream_at Z contents sid rid bs h i t n" and "i \<le> length bs" and "prompt Z t (sn_count n)"
    and "reads_from R rm h rd"
  obtains rd' p' n' where
    "reader_next R rm rd (p, n) = (if i < length bs then Some (Inr (bs ! i)) else None, rd', (p', n'))"
    "sn_count n' = Suc (sn_count n)"
    "i < length bs \<longrightarrow> stream_at Z contents sid rid bs h (Suc i) (a_now (se_ambient Z (sn_count n))) n' \<and> reads_from R rm h rd'"
proof -
  obtain n' where tick: "served_tick Z (ReadHandle h) n = (Inr (if i < length bs then Some (bs ! i) else None), n')"
    and n': "sn_count n' = Suc (sn_count n)"
      "i < length bs \<longrightarrow> stream_at Z contents sid rid bs h (Suc i) (a_now (se_ambient Z (sn_count n))) n'"
    by (rule served_tick_at [OF assms(2-5)])
  show ?thesis
  proof (cases "rr_mode rd")
    case (ByteMode worker)
    with assms(6) obtain lease where "rr_mode rd = ByteMode (Some (ReadHandle h, lease))" "\<not> rr_finished rd"
      by (auto simp: reads_from_def)
    moreover obtain q where "release lease (p, n') = (q, n')"
      by (cases lease) (auto simp: release_def)
    ultimately show ?thesis
      using tick n'
      by (cases "i < length bs")
        (auto simp: reader_next_def next_remote_def byte_reader_next_def rpc_def on_net_def step_err_def wire
          served_wire_def reads_from_def intro!: that)
  next
    case (HttpMode queued token)
    with assms(6) obtain c where "rr_mode rd = HttpMode [] (Some (token_of (ReadHandle h)))" "\<not> rr_finished rd"
      "transport_http_client R (rm_transport rm) = Inr c"
      by (auto simp: reads_from_def)
    with tick n' show ?thesis
      by (cases "i < length bs")
        (auto simp: reader_next_def next_remote_def http_turn_def rpc_def on_net_def step_err_def st_bind_def wire
          served_wire_def reads_from_def intro!: that)
  qed
qed

lemma drain_reader_at:
  assumes "dr_wire R = served_wire Z" and "reads (sv_ops (se_service Z)) contents"
    and "stream_at Z contents sid rid bs h i t n" and "i \<le> length bs" and "prompt Z t (sn_count n)"
    and "reads_from R rm h rd" and "length bs - i < k"
  shows "drain_reader R rm k rd (p, n) = map Inr (drop i bs)"
  using assms(3-7)
proof (induction k arbitrary: i t n rd p)
  case 0
  then show ?case by simp
next
  case (Suc k)
  obtain rd' p' n' where first: "reader_next R rm rd (p, n) = (if i < length bs then Some (Inr (bs ! i)) else None, rd', (p', n'))"
    and n': "sn_count n' = Suc (sn_count n)"
      "i < length bs \<longrightarrow> stream_at Z contents sid rid bs h (Suc i) (a_now (se_ambient Z (sn_count n))) n' \<and> reads_from R rm h rd'"
    by (rule reader_next_at [OF assms(1,2) Suc.prems(1-4)])
  show ?case
  proof (cases "i < length bs")
    case True
    have "drain_reader R rm k rd' (p', n') = map Inr (drop (Suc i) bs)"
      using n' True Suc.prems(2,5) prompt_next [OF Suc.prems(3)] by (intro Suc.IH) auto
    with first True show ?thesis by (simp add: Cons_nth_drop_Suc [symmetric])
  next
    case False
    with first show ?thesis by simp
  qed
qed

section \<open>Calls on a live session\<close>

lemma manager_get_live:
  assumes "manager_get mc now sid who m = (Inr s', m')"
  obtains s where "hm_get (sessions (inner (registry m))) sid = Some s" "s_principal s = who"
    "s' = s\<lparr>last_used := fresh_mutex now\<rparr>" "\<not> poisoned (registry m')"
proof -
  from assms obtain m1 where m1: "with_registry (lookup_job mc now (held m) sid who) m = (Inr s', m1)"
    and m': "m' = m1\<lparr>held := (held m1)(sid := held m1 sid + 1)\<rparr>"
    by (auto simp: manager_get_def split: prod.splits sum.splits)
  from m1 obtain r' where look: "lookup_job mc now (held m) sid who (inner (registry m)) = (Inr s', r')"
    and reg: "\<not> poisoned (registry m)" "m1 = put_registry (store (registry m) r') m"
    by (cases rule: with_registry_cases) auto
  obtain s where s: "hm_get (sessions (inner (registry m))) sid = Some s" "s_principal s = who"
      "s' = s\<lparr>last_used := store (last_used s) now\<rparr>"
    using look by (cases rule: lookup_job_cases) auto
  moreover have "\<not> poisoned (last_used s)"
    using look s(1,2) by (auto simp: lookup_job_def lock_def split: if_splits)
  then have "store (last_used s) now = fresh_mutex now"
    by (cases "last_used s") (simp add: store_def)
  ultimately show ?thesis using reg m' by (intro that [of s]) simp_all
qed

lemma on_session_live:
  assumes "on_session E a req ctx body m = (Inr v, m')"
  obtains who sid s s' where "caller E ctx = Inr who" "string_arg req ''session_id'' = Inr sid"
    "hm_get (sessions (inner (registry m))) sid = Some s" "s_principal s = who"
    "body sid (s\<lparr>last_used := fresh_mutex (a_now a)\<rparr>) = (Inr v, s')" "\<not> poisoned (registry m')"
    "hm_get (sessions (inner (registry m'))) sid = Some s'"
proof -
  from assms obtain h m1 where got: "get_session E a req ctx m = (Inr h, m1)"
    and used: "use_session (body (snd h)) h m1 = (Inr v, m')"
    unfolding on_session_def by (auto elim: st_bind_Inr)
  from got obtain who sid s1 where s1: "manager_get (sv_mc E) (a_now a) sid who m = (Inr s1, m1)"
    "h = (s1, sid)" "string_arg req ''session_id'' = Inr sid" "caller E ctx = Inr who"
    by (cases rule: get_session_cases) (auto split: sum.splits)
  from s1(1) obtain s where "hm_get (sessions (inner (registry m))) sid = Some s" "s_principal s = who"
    "s1 = s\<lparr>last_used := fresh_mutex (a_now a)\<rparr>" "\<not> poisoned (registry m1)"
    by (rule manager_get_live)
  with used that s1 show ?thesis
    by (auto simp: use_session_def give_back_eq put_session_def split: prod.splits)
qed

lemma reading_args:
  "string_arg (to_request cl (read_result_request sid rid)) ''session_id'' = Inr x \<Longrightarrow> x = sid"
  "string_arg (to_request cl (read_result_request sid rid)) ''result_id'' = Inr x \<Longrightarrow> x = rid"
  "int64_value (batch (to_request cl (read_result_request sid rid))) ''sequence'' = Inr i \<Longrightarrow> i = 0"
  "string_arg (to_request cl (statement_request sid hid)) ''session_id'' = Inr x \<Longrightarrow> x = sid"
  "string_arg (to_request cl (statement_request sid hid)) ''statement_id'' = Inr x \<Longrightarrow> x = hid"
  by (auto simp: string_arg_def to_request_def read_result_request_def statement_request_def one_row_def
      string_value_def int64_value_def require_one_row_def read_result_schema_def statement_schema_def
      column_by_name_def text_field_def result_iffs)

lemma result_schema_same:
  assumes "result_schema oc rid s = (Inr sch, s')"
  shows "s' = s"
proof -
  obtain rs where rs: "\<not> poisoned (results s)"
    "result_job rid (\<lambda>e. (Inr (re_schema e), e)) (inner (results s)) = (Inr sch, rs)"
    "s' = put_results (store (results s) rs) s"
    using worker_call_Inr [OF assms [unfolded result_schema_def]] by (auto elim: locked_Inr)
  from rs(2) have "rs = inner (results s)"
    by (auto simp: result_job_def locked_def hm_insert_same split: option.splits if_splits)
  with rs(3) show ?thesis by (simp add: store_def)
qed

lemma read_init_at:
  assumes "streaming who sid rid contents bs 0 t m"
    and "read_result_init E a (to_request cl (read_result_request sid rid)) ctx m = (Inr (sch, cur), m')"
    and "caller E ctx = Inr who"
  shows "cur = \<lparr>cu_session_id = sid, cu_result_id = rid, cu_sequence = 0\<rparr>"
    and "streaming who sid rid contents bs 0 (a_now a) m'"
proof -
  obtain s s' oc where s: "hm_get (sessions (inner (registry m))) sid = Some s" "\<not> poisoned (registry m')"
    "hm_get (sessions (inner (registry m'))) sid = Some s'" "s_principal s = who"
    and cur: "cur = \<lparr>cu_session_id = sid, cu_result_id = rid, cu_sequence = 0\<rparr>"
    and run: "result_schema oc rid (s\<lparr>last_used := fresh_mutex (a_now a)\<rparr>) = (Inr sch, s')"
    using assms(2,3) unfolding read_result_init_def
    by (elim on_session_live)
      (auto simp: arg_def ret_def proto_def adbc_def map_err_Inr_iff split: prod.splits
        elim!: st_bind_Inr dest!: reading_args)
  show "cur = \<lparr>cu_session_id = sid, cu_result_id = rid, cu_sequence = 0\<rparr>" by (rule cur)
  show "streaming who sid rid contents bs 0 (a_now a) m'"
    using assms(1) s result_schema_same [OF run] by (auto simp: streaming_def)
qed

section \<open>Opening the reader\<close>

lemma open_producer_at:
  assumes "served_open_producer Z cl ''read_result'' (read_result_request sid rid) n = (Inr st, n')"
    and "caller (se_service Z) (se_context Z) = Inr who"
    and "streaming who sid rid contents bs 0 t (sn_manager n)"
  shows "st = ReadHandle (sn_count n) \<and> sn_count n' = Suc (sn_count n)
    \<and> stream_at Z contents sid rid bs (sn_count n) 0 (a_now (se_ambient Z (sn_count n))) n'"
proof -
  let ?E = "se_service Z" and ?a = "se_ambient Z (sn_count n)"
  from assms(1) obtain sch cur m' where
    init: "read_result_init ?E ?a (to_request cl (read_result_request sid rid)) (se_context Z) (sn_manager n)
      = (Inr (sch, cur), m')"
    and st: "st = ReadHandle (sn_count n)"
    and n': "n' = n\<lparr>sn_manager := m', sn_count := Suc (sn_count n), sn_cursors := hm_insert (sn_count n) cur (sn_cursors n)\<rparr>"
    by (auto simp: served_open_producer_def serve_def map_err_Inr_iff split: prod.splits sum.splits)
  from read_init_at [OF assms(3) init assms(2)] st n' assms(2) show ?thesis by (simp add: stream_at_def)
qed

lemma rpc_open_producer:
  "rpc R (open_producer (dr_wire R) cl name req) (p, n) = (Inr st, (p', n')) \<Longrightarrow> dr_wire R = served_wire Z \<Longrightarrow>
   served_open_producer Z cl name req n = (Inr st, n')"
  by (auto simp: rpc_def on_net_def step_err_def served_wire_def map_err_Inr_iff split: prod.splits)

lemma reader_open_drains:
  assumes wire: "dr_wire R = served_wire Z" and law: "reads (sv_ops (se_service Z)) contents" and quiet: "quiet_dialer R rm"
    and who: "caller (se_service Z) (se_context Z) = Inr who"
    and live: "streaming who (rm_session_id rm) rid contents bs 0 t (sn_manager n)" and prompt: "prompt Z t (sn_count n)"
    and opened: "reader_open R rm rid sch (p, n) = (Inr rd, (p', n'))" and "length bs < k"
  shows "drain_reader R rm k rd (p', n') = map Inr bs"
proof (cases "rm_transport rm")
  case (ByteT b)
  let ?h = "sn_count n" and ?t = "a_now (se_ambient Z (sn_count n))"
  from opened ByteT obtain client lease p1 n1 st where
    conn: "byte_connect (dr_dialer R) (bt_connector b) (p, n) = (Inr (client, lease), (p1, n1))"
    and st: "rpc R (open_producer (dr_wire R) (ByteC client) ''read_result'' (read_result_request (rm_session_id rm) rid)) (p1, n1)
      = (Inr st, (p', n'))"
    and rd: "rd = \<lparr>rr_result_id = rid, rr_schema = sch, rr_mode = ByteMode (Some (st, lease)), rr_finished = False\<rparr>"
    by (auto simp: reader_open_def Let_def byte_reader_open_def result_step_def elim!: st_bind_Inr
        split: prod.splits sum.splits)
  have "n1 = n" using quiet conn ByteT by (auto simp: quiet_dialer_def dest!: spec [of _ p] spec [of _ n])
  note st = rpc_open_producer [OF st wire, unfolded this]
  from open_producer_at [OF st who live] have at: "st = ReadHandle ?h" "sn_count n' = Suc ?h"
    "stream_at Z contents (rm_session_id rm) rid bs ?h 0 ?t n'" by blast+
  have "reads_from R rm ?h rd" by (simp add: reads_from_def rd at(1))
  from drain_reader_at [OF wire law at(3) _ _ this, of k p'] prompt_next [OF prompt] at(2) \<open>length bs < k\<close>
  show ?thesis by simp
next
  case (HttpT h)
  let ?h = "sn_count n" and ?t = "a_now (se_ambient Z (sn_count n))"
  from opened HttpT obtain client st p1 n1 first continuation fin where
    client: "transport_http_client R (rm_transport rm) = Inr client"
    and st: "rpc R (open_producer (dr_wire R) (HttpC client) ''read_result'' (read_result_request (rm_session_id rm) rid)) (p, n)
      = (Inr st, (p1, n1))"
    and turn: "http_turn R st (p1, n1) = (Inr (first, continuation, fin), (p', n'))"
    and rd: "rd = \<lparr>rr_result_id = rid, rr_schema = sch,
      rr_mode = HttpMode (case first of Some b \<Rightarrow> [b] | None \<Rightarrow> []) continuation, rr_finished = fin\<rparr>"
    by (auto simp: reader_open_def Let_def result_step_def elim!: st_bind_Inr)
  from open_producer_at [OF rpc_open_producer [OF st wire] who live] have at: "st = ReadHandle ?h" "sn_count n1 = Suc ?h"
    "stream_at Z contents (rm_session_id rm) rid bs ?h 0 ?t n1" by blast+
  have soon: "prompt Z ?t (sn_count n1)" using prompt_next [OF prompt] at(2) by simp
  obtain n2 where tick: "served_tick Z (ReadHandle ?h) n1 = (Inr (if 0 < length bs then Some (bs ! 0) else None), n2)"
    "sn_count n2 = Suc (sn_count n1)"
    "0 < length bs \<longrightarrow> stream_at Z contents (rm_session_id rm) rid bs ?h (Suc 0) (a_now (se_ambient Z (sn_count n1))) n2"
    by (rule served_tick_at [OF law at(3) _ soon]) simp
  have fetched: "n' = n2" "first = (if 0 < length bs then Some (bs ! 0) else None)"
    "continuation = (if 0 < length bs then Some (token_of (ReadHandle ?h)) else None)" "fin \<longleftrightarrow> bs = []"
    using turn tick(1) at(1) wire
    by (auto simp: http_turn_def rpc_def on_net_def step_err_def served_wire_def st_bind_def split: if_splits)
  show ?thesis
  proof (cases bs)
    case Nil
    with fetched rd show ?thesis by (cases k) (simp_all add: reader_next_def next_remote_def)
  next
    case (Cons b rest)
    let ?rd = "rd\<lparr>rr_mode := HttpMode [] continuation\<rparr>"
    obtain k' where k: "k = Suc k'" using \<open>length bs < k\<close> by (cases k) auto
    have "reader_next R rm rd (p', n') = (Some (Inr b), ?rd, (p', n'))"
      using Cons fetched rd by (simp add: reader_next_def next_remote_def)
    moreover have "drain_reader R rm k' ?rd (p', n') = map Inr (drop (Suc 0) bs)"
    proof (rule drain_reader_at [OF wire law])
      show "stream_at Z contents (rm_session_id rm) rid bs ?h (Suc 0) (a_now (se_ambient Z (sn_count n1))) n'"
        using tick(3) fetched(1) Cons by simp
      show "prompt Z (a_now (se_ambient Z (sn_count n1))) (sn_count n')"
        using prompt_next [OF soon] tick(2) fetched(1) by simp
      show "reads_from R rm ?h ?rd" using fetched Cons rd client by (simp add: reads_from_def)
    qed (use Cons k \<open>length bs < k\<close> in simp_all)
    ultimately show ?thesis by (simp add: k Cons)
  qed
qed

section \<open>Executing a statement\<close>

lemma unary_execute: "unary_call ''execute'' = Some execute_call"
  by (simp add: unary_call_def unary_methods_def)

lemma cursor_at_fresh: "cursor_at contents (contents rd) 0 (fresh_result owner rd sch)"
  by (simp add: cursor_at_def fresh_result_def)

lemma insert_statement_result_Inr:
  assumes "insert_statement_result D oc1 oc2 uuid hid rd s = (Inr (rid, sch), s')"
  obtains rs where "rid = uuid" "sch = d_schema D rd" "\<not> poisoned (results s)" "s' = put_results (store (results s) rs) s"
    "hm_get rs uuid = Some (fresh_mutex (fresh_result (Some hid) rd sch))"
proof -
  obtain s1 where inv: "invalidate_statement_results oc1 hid s = (Inr (), s1)"
    and ins: "insert_owned_result D oc2 uuid (Some hid) rd s1 = (Inr (rid, sch), s')"
    using assms unfolding insert_statement_result_def by (auto elim!: st_bind_Inr)
  from invalidate_Inr [OF inv] insert_owned_result_Inr [OF ins] show ?thesis
    by (intro that) (auto simp: store_def)
qed

lemma execute_call_Inr:
  assumes "execute_call E a (to_request cl (statement_request sid hid)) ctx m = (Inr reply, m')"
  obtains who s entry rd st' where "caller E ctx = Inr who"
    "hm_get (sessions (inner (registry m))) sid = Some s" "hm_get (inner (statements s)) hid = Some entry"
    "s_execute_query (sv_calls E) (inner (statement entry)) = (Inr rd, st')"
    "encode_response (l_ipc (sv_lib E)) (t_execute (l_types (sv_lib E))) execute_response_validate
       \<lparr>er_result_id = a_uuid a, er_rows_affected = None, er_schema_ipc = schema_to_bytes (sv_lib E) (d_schema (sv_ops E) rd)\<rparr>
       (response_limit ctx) = Inr reply"
    "streaming who sid (a_uuid a) contents (contents rd) 0 (a_now a) m'"
proof -
  let ?L = "sv_lib E"
  obtain who s s' where who: "caller E ctx = Inr who"
    and s: "hm_get (sessions (inner (registry m))) sid = Some s" "s_principal s = who"
    and body: "execute_with E a (to_request cl (statement_request sid hid)) (s_execute_query (sv_calls E)) (\<lambda>hid rd.
       st_bind (adbc ?L (insert_statement_result (sv_ops E) (a_outcome a 2) (a_outcome a 3) (a_uuid a) hid rd))
       (\<lambda>(rid, sch). result_response ?L (a_outcome a 4) rid sch (response_limit ctx)))
       (s\<lparr>last_used := fresh_mutex (a_now a)\<rparr>) = (Inr reply, s')"
    and m': "\<not> poisoned (registry m')" "hm_get (sessions (inner (registry m'))) sid = Some s'"
    using assms unfolding execute_call_def by (elim on_session_live) (auto dest!: reading_args)
  obtain s1 s2 s3 rd rid sch where
    inv: "invalidate_statement_results (a_outcome a 0) hid (s\<lparr>last_used := fresh_mutex (a_now a)\<rparr>) = (Inr (), s1)"
    and run: "with_statement (a_outcome a 1) hid (s_execute_query (sv_calls E)) s1 = (Inr rd, s2)"
    and ins: "insert_statement_result (sv_ops E) (a_outcome a 2) (a_outcome a 3) (a_uuid a) hid rd s2 = (Inr (rid, sch), s3)"
    and sent: "result_response ?L (a_outcome a 4) rid sch (response_limit ctx) s3 = (Inr reply, s')"
    using body unfolding execute_with_def
    by (auto simp: arg_def ret_def adbc_def map_err_Inr_iff split: prod.splits elim!: st_bind_Inr dest!: reading_args)
  from run obtain entry st' where entry: "hm_get (inner (statements s1)) hid = Some entry"
    "s_execute_query (sv_calls E) (inner (statement entry)) = (Inr rd, st')"
    and s2: "results s2 = results s1" "s_principal s2 = s_principal s1" "last_used s2 = last_used s1"
    by (elim with_statement_Inr) auto
  from ins obtain rs where rs: "rid = a_uuid a" "sch = d_schema (sv_ops E) rd" "\<not> poisoned (results s2)"
    "s3 = put_results (store (results s2) rs) s2" "hm_get rs (a_uuid a) = Some (fresh_mutex (fresh_result (Some hid) rd sch))"
    by (rule insert_statement_result_Inr)
  from sent have reply: "encode_response (l_ipc ?L) (t_execute (l_types ?L)) execute_response_validate
       \<lparr>er_result_id = rid, er_rows_affected = None, er_schema_ipc = schema_to_bytes ?L sch\<rparr> (response_limit ctx) = Inr reply"
    and s': "s' = s3"
    by (auto simp: result_response_def encode_schema_def bounded_response_def result_iffs split: sum.splits)
  have "streaming who sid (a_uuid a) contents (contents rd) 0 (a_now a) m'"
    using m' s' rs s2 s(2) invalidate_Inr [OF inv] cursor_at_fresh [of contents rd "Some hid" sch] by (auto simp: streaming_def)
  with who s entry invalidate_Inr [OF inv] reply rs(1,2) that show ?thesis by auto
qed

lemma remote_call_Inr:
  fixes R :: "('v, 'cl, ('c, 's, 'k, 'r, 'sch, 'w) server_net, stream_handle, 'sch) driver"
    and Z :: "('c, 's, 'k, 'r, 'sch, 'x, 'w, 'f) server"
  assumes "remote_call R rm name b (p, n) = (Inr reply, (p', n'))" and "dr_wire R = served_wire Z"
  obtains cl :: "'cl any_client" and h where "unary_call name = Some h"
    "h (se_service Z) (se_ambient Z (sn_count n)) (to_request cl b) (se_context Z) (sn_manager n) = (Inr reply, sn_manager n')"
    "p' = p" "sn_count n' = Suc (sn_count n)"
proof -
  from assms(1) have "transport_call R (rm_transport rm) name b (p, n) = (Inr reply, (p', n'))"
    by (auto simp: remote_call_def check_reply_def result_step_def result_iffs elim!: st_bind_Inr split: if_splits)
  from this assms(2) that show ?thesis by (rule transport_call_Inr)
qed

section \<open>A statement executed through the driver\<close>

definition held_batches :: "record_batch list" where
  "held_batches = [demo_batch [1], demo_batch [2]]"

definition holding_session ::
  "(nat, record_batch list, nat, record_batch list, nat, record_batch list counting_file) service_session"
  where
  "holding_session =
     live_session\<lparr>statements := fresh_mutex [(''st1'', \<lparr>statement = fresh_mutex held_batches, cancel = 7\<rparr>)]\<rparr>"

definition holding_manager ::
  "(nat, record_batch list, nat, record_batch list, nat, record_batch list counting_file) service_manager"
  where
  "holding_manager =
     live_manager\<lparr>registry := fresh_mutex \<lparr>sessions = [(''s1'', holding_session)],
        opening_total = 0, opening_by_principal = []\<rparr>\<rparr>"

definition list_http :: "unit remote_connection" where
  "list_http =
     list_remote\<lparr>rm_transport := HttpT \<lparr>ht_endpoint = ''http://h'', ht_bearer_token = None, ht_timeout = 5,
       ht_max_response_bytes = 65536\<rparr>\<rparr>"

lemma holding_parts:
  "s_principal holding_session = alice_name" "last_used holding_session = fresh_mutex 5"
  "results holding_session = fresh_mutex []" "s_limits holding_session = mc_limits demo_mc"
  "statements holding_session = fresh_mutex [(''st1'', \<lparr>statement = fresh_mutex held_batches, cancel = 7\<rparr>)]"
  by (simp_all add: holding_session_def live_session_def new_session_def)

lemma dec2_enc2: "length x < 256 \<Longrightarrow> dec2 (enc2 x y) = (x, y)"
  by (simp add: dec2_def enc2_def unat_of_nat)

lemma list_execute_reply:
  "bounded_response list_lib (t_execute list_types) execute_response_validate
     \<lparr>er_result_id = ''u1'', er_rows_affected = None, er_schema_ipc = [2]\<rparr> max_control_bytes
   = Inr (result_batch (packed (enc2 (str_bytes ''u1'') [2])))"
  "client_decode_response list_lib (t_execute list_types) execute_response_validate
     (result_batch (packed (enc2 (str_bytes ''u1'') [2])))
   = Inr \<lparr>er_result_id = ''u1'', er_rows_affected = None, er_schema_ipc = [2]\<rparr>"
proof -
  let ?v = "\<lparr>er_result_id = ''u1'', er_rows_affected = None, er_schema_ipc = [2]\<rparr>"
  have enc: "encode_record_ipc list_ipc (t_execute list_types) ?v max_control_bytes = Inr (packed (enc2 (str_bytes ''u1'') [2]))"
    and dec: "decode_record_ipc list_ipc (t_execute list_types) (packed (enc2 (str_bytes ''u1'') [2])) max_control_bytes = Inr ?v"
    using coded_encode [where v = ?v and limit = max_control_bytes
        and enc = "\<lambda>r. enc2 (str_bytes (er_result_id r)) (er_schema_ipc r)"
        and dec = "\<lambda>bs. \<lparr>er_result_id = bytes_str (fst (dec2 bs)), er_rows_affected = None, er_schema_ipc = snd (dec2 bs)\<rparr>"]
      coded_decode [where v = ?v and limit = max_control_bytes
        and enc = "\<lambda>r. enc2 (str_bytes (er_result_id r)) (er_schema_ipc r)"
        and dec = "\<lambda>bs. \<lparr>er_result_id = bytes_str (fst (dec2 bs)), er_rows_affected = None, er_schema_ipc = snd (dec2 bs)\<rparr>"]
    by (simp_all add: list_types_def dec2_enc2 bytes_str_bytes length_str_bytes max_control_bytes_def usize_max_def)
      (simp_all add: enc2_def length_str_bytes)
  have val: "execute_response_validate ?v = Inr ()"
    by (simp add: execute_response_validate_def validate_rows_def validate_handle_def validate_text_def)
  have "length (packed (enc2 (str_bytes ''u1'') [2])) < 256"
    by (simp add: packed_def enc2_def length_str_bytes)
  with list_encode(2) [OF this, of max_control_bytes]
  obtain bs where "encode_batch_ipc list_ipc (result_batch (packed (enc2 (str_bytes ''u1'') [2]))) max_control_bytes = Inr bs"
    by (auto simp: max_control_bytes_def)
  with enc val show "bounded_response list_lib (t_execute list_types) execute_response_validate ?v max_control_bytes
      = Inr (result_batch (packed (enc2 (str_bytes ''u1'') [2])))"
    by (simp add: bounded_response_def encode_response_def encode_record_def list_lib_def result_batch_def)
  from dec val show "client_decode_response list_lib (t_execute list_types) execute_response_validate
      (result_batch (packed (enc2 (str_bytes ''u1'') [2]))) = Inr ?v"
    by (simp add: client_decode_response_def decode_response_def decode_record_def result_batch_def list_lib_def
        binary_value_def require_one_row_def column_by_name_def envelope_schema_def binary_field_def)
qed

lemma list_execute:
  assumes "version_of cl = Some protocol_version"
  obtains m where "execute_call list_service (calm ''u1'') (to_request cl (statement_request ''s1'' ''st1'')) alice holding_manager
     = (Inr (result_batch (packed (enc2 (str_bytes ''u1'') [2]))), m)"
proof -
  let ?req = "to_request cl (statement_request ''s1'' ''st1'')"
  have args: "validate_protocol_version ?req = Inr ()" "string_arg ?req ''session_id'' = Inr ''s1''"
    "string_arg ?req ''statement_id'' = Inr ''st1''"
    using assms
    by (simp_all add: validate_protocol_version_def compatible_version_def strip_prefix_def is_ascii_digit_def
        string_arg_def to_request_def protocol_version_def statement_request_def one_row_def string_value_def
        require_one_row_def statement_schema_def column_by_name_def text_field_def validate_handle_def validate_text_def)
  have "\<exists>m. execute_call list_service (calm ''u1'') ?req alice holding_manager
      = (Inr (result_batch (packed (enc2 (str_bytes ''u1'') [2]))), m)"
    unfolding execute_call_def
    by (subst live_request [OF args(1,2) list_caller, where s = holding_session])
      (simp_all add: holding_manager_def holding_parts list_service_def calm_def elapsed_def execute_with_def arg_def args(3)
        st_bind_def ret_def adbc_def invalidate_statement_results_def with_statement_def statement_job_def locked_def
        list_calls_def insert_statement_result_def insert_owned_result_def demo_mc_def list_ops_def result_response_def
        encode_schema_def list_lib_def response_limit_def alice_def held_batches_def list_execute_reply(1) [unfolded list_lib_def])
  with that show ?thesis by blast
qed

lemma list_prompt: "prompt list_server 5 k"
  by (simp add: prompt_def list_server_def list_service_def demo_mc_def calm_def elapsed_def)

lemma list_server_reads: "reads (sv_ops (se_service list_server)) (\<lambda>rd. rd)"
  by (simp add: list_server_def list_service_def list_reads)

text \<open>A result that is being read can be opened by its reader.\<close>

lemma read_init_live:
  assumes live: "streaming who sid rid contents bs 0 t m" and who: "caller E ctx = Inr who"
    and version: "version_of cl = Some protocol_version"
    and named: "validate_handle sid = Inr ()" "validate_handle rid = Inr ()"
    and prompt: "elapsed (a_now a) t \<le> mc_ttl (sv_mc E)" and finished: "a_outcome a 0 = Completed"
  shows "\<exists>sch cur m'. read_result_init E a (to_request cl (read_result_request sid rid)) ctx m = (Inr (sch, cur), m')"
proof -
  let ?req = "to_request cl (read_result_request sid rid)"
  obtain s e where s: "\<not> poisoned (registry m)" "hm_get (sessions (inner (registry m))) sid = Some s" "s_principal s = who"
    "last_used s = fresh_mutex t" "\<not> poisoned (results s)" "hm_get (inner (results s)) rid = Some (fresh_mutex e)"
    using live by (auto simp: streaming_def)
  have args: "validate_protocol_version ?req = Inr ()" "string_arg ?req ''session_id'' = Inr sid"
    "string_arg ?req ''result_id'' = Inr rid" "int64_value (batch ?req) ''sequence'' = Inr 0"
    using version named
    by (simp_all add: validate_protocol_version_def compatible_version_def strip_prefix_def is_ascii_digit_def
        string_arg_def to_request_def protocol_version_def read_result_request_def one_row_def string_value_def int64_value_def
        require_one_row_def read_result_schema_def column_by_name_def text_field_def)
  show ?thesis
    unfolding read_result_init_def
    by (subst live_request [OF args(1,2) who s(1-3)])
      (use s prompt finished args in \<open>auto simp: arg_def st_bind_def ret_def proto_def adbc_def result_schema_def locked_def
        result_job_def store_def\<close>)
qed

lemma list_http_parts:
  "rm_session_id list_http = ''s1''" "dr_lib list_driver = list_lib" "l_types list_lib = list_types"
  "rm_transport list_http =
     HttpT \<lparr>ht_endpoint = ''http://h'', ht_bearer_token = None, ht_timeout = 5, ht_max_response_bytes = 65536\<rparr>"
  by (simp_all add: list_http_def list_remote_def list_driver_def list_lib_def)

lemma list_statement_execute:
  obtains rd p n where "statement_execute list_driver list_http ''st1'' (empty_pool, list_net_at holding_manager 0) = (Inr rd, (p, n))"
proof -
  let ?L = list_lib and ?Z = list_server and ?n = "list_net_at holding_manager 0"
  obtain c where c: "transport_http_client list_driver (rm_transport list_http) = Inr c" "version_of (HttpC c :: unit any_client) = Some protocol_version"
    by (simp add: transport_http_client_def list_http_def build_client_def list_driver_def served_wire_def Let_def)
  let ?reply = "result_batch (packed (enc2 (str_bytes ''u1'') [2]))"
  obtain m where m: "execute_call list_service (calm ''u1'') (to_request (HttpC c :: unit any_client) (statement_request ''s1'' ''st1'')) alice holding_manager
     = (Inr ?reply, m)"
    using c(2) by (rule list_execute)
  then obtain src where live: "streaming alice_name ''s1'' ''u1'' (\<lambda>rd. rd) src 0 5 m"
    by (rule execute_call_Inr [where contents = "\<lambda>rd. rd"]) (auto simp: list_caller calm_def)
  have sent: "remote_call list_driver list_http ''execute'' (statement_request ''s1'' ''st1'') (empty_pool, ?n)
      = (Inr ?reply, (empty_pool, list_net_at m 1))"
    using m c
    by (simp add: remote_call_def transport_call_def client_of_def list_http_def rpc_def on_net_def step_err_def st_bind_def
        result_step_def check_reply_def acknowledged_def list_driver_def served_wire_def served_unary_def serve_def
        unary_execute list_server_def)
  obtain sch cur m1 where init: "read_result_init list_service (calm ''x'') (to_request (HttpC c :: unit any_client) (read_result_request ''s1'' ''u1'')) alice m
     = (Inr (sch, cur), m1)"
    using read_init_live [OF live list_caller c(2), of "calm ''x''"]
    by (auto simp: validate_handle_def validate_text_def calm_def elapsed_def)
  let ?n1 = "\<lparr>sn_manager = m1, sn_count = 2, sn_cursors = [(1, cur)]\<rparr>"
  have opened: "rpc list_driver (open_producer (dr_wire list_driver) (HttpC c) ''read_result'' (read_result_request ''s1'' ''u1''))
      (empty_pool, list_net_at m 1) = (Inr (ReadHandle 1), (empty_pool, ?n1))"
    using init
    by (simp add: rpc_def on_net_def step_err_def list_driver_def served_wire_def served_open_producer_def serve_def
        list_server_def)
  have "stream_at list_server (\<lambda>rd. rd) ''s1'' ''u1'' src 1 0 5 ?n1"
    using read_init_at [OF live init list_caller] list_caller
    by (auto simp: stream_at_def list_server_def calm_def)
  then obtain n2 where "served_tick list_server (ReadHandle 1) ?n1 = (Inr (if 0 < length src then Some (src ! 0) else None), n2)"
    by (rule served_tick_at [OF list_server_reads]) (simp_all add: list_prompt)
  then have "\<exists>r. http_turn list_driver (ReadHandle 1) (empty_pool, ?n1) = (Inr r, (empty_pool, n2))"
    by (cases src) (auto simp: http_turn_def rpc_def on_net_def step_err_def list_driver_def served_wire_def st_bind_def result_step_def)
  then obtain r where "http_turn list_driver (ReadHandle 1) (empty_pool, ?n1) = (Inr r, (empty_pool, n2))" by blast
  moreover have "client_decode_schema list_lib [2] = Inr 2"
    by (simp add: client_decode_schema_def decode_schema_def list_lib_def)
  ultimately have "\<exists>rd. statement_execute list_driver list_http ''st1'' (empty_pool, ?n) = (Inr rd, (empty_pool, n2))"
    using sent opened c(1) list_execute_reply(2) list_http_parts
    by (cases r) (simp add: statement_execute_def statement_call_def reader_from_response_def st_bind_def result_step_def
        reader_open_def Let_def)
  with that show ?thesis by blast
qed

end
