(* ===== verification/Error_Path.thy ===== *)
theory Error_Path
  imports Reading
begin

text \<open>
  Errors on their way from the database to the application. An error of the downstream driver leaves
  the handler as the JSON form of its wire record (\<open>adbc_rpc_error\<close> of \<open>service.rs\<close>), travels as the
  message of an RPC failure and is read back by the driver (\<open>rpc_error\<close> of
  \<open>adbc-driver-grainlift/src/lib.rs\<close>). The theory follows the calls on a statement that fail downstream
  or whose deadline passes.
\<close>

subsection \<open>What the application is told\<close>

definition reported :: "adbc_error \<Rightarrow> adbc_error" where
  "reported e =
     (if ascii_sqlstate (sqlstate e) then normal_details e
      else with_message_and_status [Lit ''Malformed remote ADBC error''] InvalidData)"

text \<open>
  The JSON and base64 libraries of the two programs agree on the error \<open>e\<close>: the driver reads the record
  that the service wrote, and its text is not taken for one with the prefix of the Python server.
\<close>

definition errors_round_trip ::
  "('v, 'cl, 'n, 'st, 'sch) driver \<Rightarrow> ('c, 's, 'k, 'r, 'sch, 'x, 'w, 'f) server \<Rightarrow> adbc_error \<Rightarrow> bool" where
  "errors_round_trip R Z e \<longleftrightarrow>
     (let J = dl_json (dr_dialer R); L = sv_lib (se_service Z); w = wire_error_from (l_base64 L) e in
      from_json J (se_to_json Z w) = Some w \<and> strip_prefix ''AdbcError: '' (se_to_json Z w) = None
      \<and> (\<forall>bs. from_base64 J (l_base64 L bs) = Some bs))"

lemma client_reads_error:
  assumes "errors_round_trip R Z e"
  shows "client_rpc_error (dl_json (dr_dialer R)) (failure_of Z (adbc_rpc_error (sv_lib (se_service Z)) e)) = reported e"
  using assms
  by (simp add: errors_round_trip_def Let_def client_rpc_error_def failure_of_def adbc_rpc_error_def
      reported_def wire_error_into_adbc_def try_into_adbc_from)

text \<open>A call whose handler ends with an ADBC error.\<close>

lemma remote_call_fails:
  fixes R :: "('v, 'cl, ('c, 's, 'k, 'r, 'sch, 'w) server_net, stream_handle, 'sch) driver"
    and Z :: "('c, 's, 'k, 'r, 'sch, 'x, 'w, 'f) server"
  assumes "dr_wire R = served_wire Z" and "errors_round_trip R Z e" and "client_of R (rm_transport rm) = Inr cl"
    and "unary_call name = Some h"
    and "h (se_service Z) (se_ambient Z (sn_count n)) (to_request cl b) (se_context Z) (sn_manager n)
      = (Inl (adbc_rpc_error (sv_lib (se_service Z)) e), m')"
  shows "remote_call R rm name b (p, n) = (Inl (reported e), (p, n\<lparr>sn_manager := m', sn_count := Suc (sn_count n)\<rparr>))"
  using assms
  by (simp add: remote_call_def transport_call_def st_bind_def result_step_def rpc_def on_net_def step_err_def
      served_wire_def served_unary_def serve_def client_reads_error)

subsection \<open>Statements of a live session\<close>

abbreviation next_ambient :: "('c, 's, 'k, 'r, 'sch, 'x, 'w, 'f) server \<Rightarrow> ('c, 's, 'k, 'r, 'sch, 'w) server_net \<Rightarrow> 'f ambient" where
  "next_ambient Z n \<equiv> se_ambient Z (sn_count n)"

text \<open>The network after one call that left the session of the connection as \<open>s'\<close>.\<close>

definition after_call ::
  "'cl remote_connection \<Rightarrow> ('c, 's, 'k, 'r, 'sch, 'w) service_session \<Rightarrow> ('c, 's, 'k, 'r, 'sch, 'w) server_net \<Rightarrow>
   ('c, 's, 'k, 'r, 'sch, 'w) server_net" where
  "after_call rm s' n = n\<lparr>sn_manager := put_session (rm_session_id rm) s' (sn_manager n), sn_count := Suc (sn_count n)\<rparr>"

text \<open>
  The call number \<open>sn_count n\<close> reaches the session \<open>s\<close> of the connection: the caller owns it, its lease has
  not expired, and nothing on the way to it is poisoned.
\<close>

definition session_reached ::
  "('c, 's, 'k, 'r, 'sch, 'x, 'w, 'f) server \<Rightarrow> 'cl remote_connection \<Rightarrow>
   ('c, 's, 'k, 'r, 'sch, 'w) server_net \<Rightarrow> ('c, 's, 'k, 'r, 'sch, 'w) service_session \<Rightarrow> bool" where
  "session_reached Z rm n s \<longleftrightarrow>
     caller (se_service Z) (se_context Z) = Inr (s_principal s) \<and> \<not> poisoned (registry (sn_manager n))
     \<and> hm_get (sessions (inner (registry (sn_manager n)))) (rm_session_id rm) = Some s
     \<and> \<not> poisoned (last_used s)
     \<and> elapsed (a_now (se_ambient Z (sn_count n))) (inner (last_used s)) \<le> mc_ttl (sv_mc (se_service Z))
     \<and> validate_handle (rm_session_id rm) = Inr ()"

definition live_statement ::
  "('c, 's, 'k, 'r, 'sch, 'x, 'w, 'f) server \<Rightarrow> 'cl remote_connection \<Rightarrow> string \<Rightarrow>
   ('c, 's, 'k, 'r, 'sch, 'w) server_net \<Rightarrow> ('c, 's, 'k, 'r, 'sch, 'w) service_session \<Rightarrow>
   ('s, 'k) statement_entry \<Rightarrow> bool" where
  "live_statement Z rm hid n s entry \<longleftrightarrow>
     session_reached Z rm n s \<and> validate_handle hid = Inr () \<and> \<not> poisoned (statements s) \<and> \<not> poisoned (results s)
     \<and> hm_get (inner (statements s)) hid = Some entry \<and> \<not> poisoned (statement entry)"

text \<open>The session with its lease renewed by the call.\<close>

definition stamped ::
  "('c, 's, 'k, 'r, 'sch, 'x, 'w, 'f) server \<Rightarrow> ('c, 's, 'k, 'r, 'sch, 'w) server_net \<Rightarrow>
   ('c, 's, 'k, 'r, 'sch, 'w) service_session \<Rightarrow> ('c, 's, 'k, 'r, 'sch, 'w) service_session" where
  "stamped Z n s = s\<lparr>last_used := fresh_mutex (a_now (next_ambient Z n))\<rparr>"

text \<open>The session after a failed call that left the statement in the state \<open>st'\<close>.\<close>

definition after_failure ::
  "string \<Rightarrow> ('s, 'k) statement_entry \<Rightarrow> 's \<Rightarrow>
   ('c, 's, 'k, 'r, 'b, 'sch, 'w) session \<Rightarrow> ('c, 's, 'k, 'r, 'b, 'sch, 'w) session" where
  "after_failure hid entry st' s =
     s\<lparr>statements := fresh_mutex (hm_insert hid (entry\<lparr>statement := fresh_mutex st'\<rparr>) (inner (statements s)))\<rparr>"

definition without_results :: "string \<Rightarrow> ('c, 's, 'k, 'r, 'b, 'sch, 'w) session \<Rightarrow> ('c, 's, 'k, 'r, 'b, 'sch, 'w) session" where
  "without_results hid s = s\<lparr>results := fresh_mutex (filter (\<lambda>(_, result). keeps_result hid result) (inner (results s)))\<rparr>"

lemma statement_args:
  assumes "version_of cl = Some protocol_version" and "validate_handle sid = Inr ()" and "validate_handle hid = Inr ()"
  shows "validate_protocol_version (to_request cl (statement_request sid hid)) = Inr ()"
    "string_arg (to_request cl (statement_request sid hid)) ''session_id'' = Inr sid"
    "string_arg (to_request cl (statement_request sid hid)) ''statement_id'' = Inr hid"
  using assms
  by (simp_all add: validate_protocol_version_def compatible_version_def strip_prefix_def is_ascii_digit_def
      string_arg_def to_request_def protocol_version_def statement_request_def one_row_def string_value_def
      require_one_row_def statement_schema_def column_by_name_def text_field_def)

lemma fresh_store: "\<not> poisoned m \<Longrightarrow> store m x = fresh_mutex x"
  by (simp add: store_def)

text \<open>A handler that works on the session named by its request.\<close>

lemma session_reached_call:
  assumes "session_reached Z rm n s" and "validate_protocol_version (to_request cl b) = Inr ()"
    and "string_arg (to_request cl b) ''session_id'' = Inr (rm_session_id rm)"
    and "body (rm_session_id rm) (stamped Z n s) = (r, s')"
  shows "on_session (se_service Z) (next_ambient Z n) (to_request cl b) (se_context Z) body (sn_manager n)
     = (r, put_session (rm_session_id rm) s' (sn_manager n))"
proof -
  have live: "caller (se_service Z) (se_context Z) = Inr (s_principal s)" "\<not> poisoned (registry (sn_manager n))"
    "hm_get (sessions (inner (registry (sn_manager n)))) (rm_session_id rm) = Some s" "\<not> poisoned (last_used s)"
    "elapsed (a_now (next_ambient Z n)) (inner (last_used s)) \<le> mc_ttl (sv_mc (se_service Z))"
    using assms(1) by (auto simp: session_reached_def)
  from live_request [OF assms(2,3) live(1-3) refl live(4,5), of body] assms(4) live(4) show ?thesis
    by (simp add: fresh_store stamped_def)
qed

lemma live_statement_call:
  assumes "live_statement Z rm hid n s entry" and "version_of cl = Some protocol_version"
    and "body (rm_session_id rm) (stamped Z n s) = (r, s')"
  shows "on_session (se_service Z) (next_ambient Z n) (to_request cl (statement_request (rm_session_id rm) hid))
     (se_context Z) body (sn_manager n) = (r, put_session (rm_session_id rm) s' (sn_manager n))"
proof -
  have "session_reached Z rm n s" "validate_handle (rm_session_id rm) = Inr ()" "validate_handle hid = Inr ()"
    using assms(1) by (auto simp: live_statement_def session_reached_def)
  then show ?thesis using session_reached_call statement_args(1,2) [OF assms(2)] assms(3) by blast
qed

lemma with_statement_fails:
  assumes "\<not> poisoned (statements s)" and "hm_get (inner (statements s)) hid = Some entry" and "\<not> poisoned (statement entry)"
    and "f (inner (statement entry)) = (Inl e, st')"
  shows "with_statement Completed hid f s =
    (Inl e, s\<lparr>statements := fresh_mutex (hm_insert hid (entry\<lparr>statement := fresh_mutex st'\<rparr>) (inner (statements s)))\<rparr>)"
  using assms by (simp add: with_statement_def locked_def statement_job_def fresh_store)

text \<open>The beginning that the ways to execute share, when the call fails.\<close>

lemma execute_with_fails:
  assumes "\<not> poisoned (results s)" and "string_arg req ''statement_id'' = Inr hid" and "a_outcome a 0 = Completed"
    and "with_statement (a_outcome a 1) hid f (without_results hid s) = (Inl e, s')"
  shows "execute_with E a req f reply s = (Inl (adbc_rpc_error (sv_lib E) e), s')"
  using assms
  by (simp add: execute_with_def arg_def st_bind_def ret_def adbc_def invalidate_statement_results_def locked_def
      without_results_def fresh_store)

lemma unary_statements:
  "unary_call ''execute_update'' = Some execute_update_call" "unary_call ''prepare'' = Some prepare_call"
  by (simp_all add: unary_call_def unary_methods_def)

text \<open>An execution through the driver whose call on the server's statement fails.\<close>

lemma executions_fail:
  fixes R :: "('v, 'cl, ('c, 's, 'k, 'r, 'sch, 'w) server_net, stream_handle, 'sch) driver"
    and Z :: "('c, 's, 'k, 'r, 'sch, 'x, 'w, 'f) server"
  assumes wire: "dr_wire R = served_wire Z" and errors: "errors_round_trip R Z e"
    and client: "client_of R (rm_transport rm) = Inr cl" "version_of cl = Some protocol_version"
    and live: "live_statement Z rm hid n s entry" and first: "a_outcome (next_ambient Z n) 0 = Completed"
  shows "with_statement (a_outcome (next_ambient Z n) 1) hid (s_execute_query (sv_calls (se_service Z)))
        (without_results hid (stamped Z n s)) = (Inl e, s') \<Longrightarrow>
      statement_execute R rm hid (p, n)
        = (Inl (reported e), (p, after_call rm s' n))"
    and "with_statement (a_outcome (next_ambient Z n) 1) hid (s_execute_update (sv_calls (se_service Z)))
        (without_results hid (stamped Z n s)) = (Inl e, s') \<Longrightarrow>
      statement_execute_update R rm hid (p, n)
        = (Inl (reported e), (p, after_call rm s' n))"
proof -
  let ?E = "se_service Z" and ?a = "next_ambient Z n" and ?sid = "rm_session_id rm"
  let ?req = "to_request cl (statement_request ?sid hid)"
  have parts: "validate_handle ?sid = Inr ()" "validate_handle hid = Inr ()" "\<not> poisoned (results (stamped Z n s))"
    using live by (auto simp: live_statement_def session_reached_def stamped_def)
  note args = statement_args [OF client(2) parts(1,2)]
  show "statement_execute R rm hid (p, n)
      = (Inl (reported e), (p, after_call rm s' n))"
    if fails: "with_statement (a_outcome ?a 1) hid (s_execute_query (sv_calls ?E)) (without_results hid (stamped Z n s)) = (Inl e, s')"
  proof -
    have "execute_call ?E ?a ?req (se_context Z) (sn_manager n)
        = (Inl (adbc_rpc_error (sv_lib ?E) e), put_session ?sid s' (sn_manager n))"
      unfolding execute_call_def
      by (rule live_statement_call [OF live client(2)])
        (use execute_with_fails [OF parts(3) args(3) first fails] in \<open>simp add: stamped_def\<close>)
    from remote_call_fails [OF wire errors client(1) unary_execute this] show ?thesis
      by (simp add: after_call_def statement_execute_def statement_call_def st_bind_def)
  qed
  show "statement_execute_update R rm hid (p, n)
      = (Inl (reported e), (p, after_call rm s' n))"
    if fails: "with_statement (a_outcome ?a 1) hid (s_execute_update (sv_calls ?E)) (without_results hid (stamped Z n s)) = (Inl e, s')"
  proof -
    have "execute_update_call ?E ?a ?req (se_context Z) (sn_manager n)
        = (Inl (adbc_rpc_error (sv_lib ?E) e), put_session ?sid s' (sn_manager n))"
      unfolding execute_update_call_def
      by (rule live_statement_call [OF live client(2)])
        (use execute_with_fails [OF parts(3) args(3) first fails] in \<open>simp add: stamped_def\<close>)
    from remote_call_fails [OF wire errors client(1) unary_statements(1) this] show ?thesis
      by (simp add: after_call_def statement_execute_update_def statement_call_def st_bind_def)
  qed
qed

lemma prepare_fails:
  fixes R :: "('v, 'cl, ('c, 's, 'k, 'r, 'sch, 'w) server_net, stream_handle, 'sch) driver"
    and Z :: "('c, 's, 'k, 'r, 'sch, 'x, 'w, 'f) server"
  assumes wire: "dr_wire R = served_wire Z" and errors: "errors_round_trip R Z e"
    and client: "client_of R (rm_transport rm) = Inr cl" "version_of cl = Some protocol_version"
    and live: "live_statement Z rm hid n s entry"
    and fails: "with_statement (a_outcome (next_ambient Z n) 0) hid (s_prepare (sv_calls (se_service Z)))
      (stamped Z n s) = (Inl e, s')"
  shows "statement_prepare R rm hid (p, n)
      = (Inl (reported e), (p, after_call rm s' n))"
proof -
  let ?E = "se_service Z" and ?a = "next_ambient Z n" and ?sid = "rm_session_id rm"
  have "validate_handle ?sid = Inr ()" "validate_handle hid = Inr ()"
    using live by (auto simp: live_statement_def session_reached_def)
  note args = statement_args [OF client(2) this]
  have "prepare_call ?E ?a (to_request cl (statement_request ?sid hid)) (se_context Z) (sn_manager n)
      = (Inl (adbc_rpc_error (sv_lib ?E) e), put_session ?sid s' (sn_manager n))"
    unfolding prepare_call_def
    by (rule live_statement_call [OF live client(2)])
      (use args(3) fails in \<open>simp add: arg_def st_bind_def ret_def then_ok_def adbc_def\<close>)
  from remote_call_fails [OF wire errors client(1) unary_statements(2) this] show ?thesis
    by (simp add: after_call_def statement_prepare_def call_ok_def st_bind_def)
qed

lemma late_statement:
  "\<exists>s'. with_statement (TimedOut begun) hid f s
     = (Inl (timeout [Lit ''downstream operation exceeded '', Dur (s_timeout s)]), s')"
  by (simp add: with_statement_def worker_call_def)

lemma reported_timeout: "reported (timeout m) = timeout m"
  using ascii_sqlstate_zero by (simp add: reported_def timeout_def with_message_and_status_def normal_details_def)

lemma failing_statement:
  assumes "live_statement Z rm hid n s entry" and "f (inner (statement entry)) = (Inl e, st')"
  shows "with_statement Completed hid f (stamped Z n s) = (Inl e, after_failure hid entry st' (stamped Z n s))"
    and "with_statement Completed hid f (without_results hid (stamped Z n s))
      = (Inl e, without_results hid (after_failure hid entry st' (stamped Z n s)))"
  using assms with_statement_fails [of "stamped Z n s" hid entry f e st']
    with_statement_fails [of "without_results hid (stamped Z n s)" hid entry f e st']
  by (simp_all add: live_statement_def without_results_def after_failure_def stamped_def)

subsection \<open>Properties\<close>

text \<open>
  C4: an error of the database reaches the application. Let a call on a statement of a live session
  reach the downstream driver. When executing a query, executing an update or preparing fails there,
  the driver's call returns that error with its message, status, vendor code, SQLSTATE and details, as
  long as its SQLSTATE is ASCII; the statement on the server is in the state the downstream driver left
  it in, a failed execution leaves no result of the statement behind, and nothing else of the session
  changes but its lease. When the deadline of the execution passes instead, the application is told
  \<open>Timeout\<close>, whether or not the job had been started.
\<close>

theorem driver_reports_downstream_error:
  fixes R :: "('v, 'cl, ('c, 's, 'k, 'r, 'sch, 'w) server_net, stream_handle, 'sch) driver"
    and Z :: "('c, 's, 'k, 'r, 'sch, 'x, 'w, 'f) server"
  assumes wire: "dr_wire R = served_wire Z" and errors: "errors_round_trip R Z e"
    and client: "client_of R (rm_transport rm) = Inr cl" "version_of cl = Some protocol_version"
    and live: "live_statement Z rm hid n s entry" and first: "a_outcome (next_ambient Z n) 0 = Completed"
  shows "(a_outcome (next_ambient Z n) 1 = Completed
        \<and> s_execute_query (sv_calls (se_service Z)) (inner (statement entry)) = (Inl e, st') \<longrightarrow>
      statement_execute R rm hid (p, n)
        = (Inl (reported e), (p, after_call rm (without_results hid (after_failure hid entry st' (stamped Z n s))) n)))
    \<and> (a_outcome (next_ambient Z n) 1 = Completed
        \<and> s_execute_update (sv_calls (se_service Z)) (inner (statement entry)) = (Inl e, st') \<longrightarrow>
      statement_execute_update R rm hid (p, n)
        = (Inl (reported e), (p, after_call rm (without_results hid (after_failure hid entry st' (stamped Z n s))) n)))
    \<and> (s_prepare (sv_calls (se_service Z)) (inner (statement entry)) = (Inl e, st') \<longrightarrow>
      statement_prepare R rm hid (p, n)
        = (Inl (reported e), (p, after_call rm (after_failure hid entry st' (stamped Z n s)) n)))
    \<and> (a_outcome (next_ambient Z n) 1 = TimedOut begun
        \<and> e = timeout [Lit ''downstream operation exceeded '', Dur (s_timeout s)] \<longrightarrow>
      (\<exists>n'. statement_execute R rm hid (p, n) = (Inl e, (p, n')) \<and> status e = Timeout))"
proof (intro conjI impI)
  note fails = executions_fail [OF wire errors client live first]
  show "statement_execute R rm hid (p, n)
      = (Inl (reported e), (p, after_call rm (without_results hid (after_failure hid entry st' (stamped Z n s))) n))"
    if "a_outcome (next_ambient Z n) 1 = Completed
        \<and> s_execute_query (sv_calls (se_service Z)) (inner (statement entry)) = (Inl e, st')"
    using that failing_statement(2) [OF live, of "s_execute_query (sv_calls (se_service Z))" e st'] by (intro fails(1)) simp
  show "statement_execute_update R rm hid (p, n)
      = (Inl (reported e), (p, after_call rm (without_results hid (after_failure hid entry st' (stamped Z n s))) n))"
    if "a_outcome (next_ambient Z n) 1 = Completed
        \<and> s_execute_update (sv_calls (se_service Z)) (inner (statement entry)) = (Inl e, st')"
    using that failing_statement(2) [OF live, of "s_execute_update (sv_calls (se_service Z))" e st'] by (intro fails(2)) simp
  show "statement_prepare R rm hid (p, n)
      = (Inl (reported e), (p, after_call rm (after_failure hid entry st' (stamped Z n s)) n))"
    if "s_prepare (sv_calls (se_service Z)) (inner (statement entry)) = (Inl e, st')"
    using that failing_statement(1) [OF live, of "s_prepare (sv_calls (se_service Z))" e st'] first
    by (intro prepare_fails [OF wire errors client live]) (simp add: stamped_def)
  show "\<exists>n'. statement_execute R rm hid (p, n) = (Inl e, (p, n')) \<and> status e = Timeout"
    if late: "a_outcome (next_ambient Z n) 1 = TimedOut begun
        \<and> e = timeout [Lit ''downstream operation exceeded '', Dur (s_timeout s)]"
  proof -
    obtain s' where "with_statement (a_outcome (next_ambient Z n) 1) hid (s_execute_query (sv_calls (se_service Z)))
        (without_results hid (stamped Z n s)) = (Inl e, s')"
      using late late_statement [of begun hid _ "without_results hid (stamped Z n s)"]
      by (auto simp: without_results_def stamped_def)
    from fails(1) [OF this] late show ?thesis
      by (simp add: reported_timeout)
  qed
qed

text \<open>
  The list service with a statement whose preparation fails; the JSON text of an error shows its status
  and the code of the vendor in unary.
\<close>

definition syntax_error :: adbc_error where
  "syntax_error =
     \<lparr>message = [Str ''syntax''], status = InvalidArguments, vendor_code = 3, sqlstate = [52, 50, 54, 48, 49],
      details = Some [(''position'', [7])]\<rparr>"

definition failing_server ::
  "(nat, record_batch list, nat, record_batch list, nat, string, record_batch list counting_file, record_batch list) server"
  where
  "failing_server =
     list_server\<lparr>se_service := list_service\<lparr>sv_calls := list_calls\<lparr>s_prepare := (\<lambda>st. (Inl syntax_error, []))\<rparr>\<rparr>,
       se_to_json := (\<lambda>w. w_status w @ '':'' @ replicate (unat (w_vendor_code w)) CHR ''1'')\<rparr>"

definition failing_driver :: "(unit, unit, list_net, stream_handle, nat) driver" where
  "failing_driver =
     list_driver\<lparr>dr_wire := served_wire failing_server,
       dr_dialer := idle_dialer\<lparr>dl_json := \<lparr>from_json = (\<lambda>text.
           map_option (\<lambda>(name, code). \<lparr>w_status = name, w_message = [Str ''syntax''], w_vendor_code = of_nat (length code),
              w_sqlstate = [52, 50, 54, 48, 49], w_details = [(''position'', bytes_str [7])]\<rparr>) (split_once CHR '':'' text)),
         from_base64 = (\<lambda>s. Some (str_bytes s)), display_failure = (\<lambda>e. [Str (rf_message e)])\<rparr>\<rparr>\<rparr>"

lemma str_bytes_str: "str_bytes (bytes_str bs) = bs"
proof -
  have "unat b mod 256 = unat b" for b :: u8
    using unsigned_less [of b, where ?'a = nat] by simp
  then show ?thesis by (induction bs) (simp_all add: str_bytes_def bytes_str_def)
qed

lemma failing_parts:
  "errors_round_trip failing_driver failing_server syntax_error"
  "live_statement failing_server list_http ''st1'' (list_net_at holding_manager 0) holding_session
     \<lparr>statement = fresh_mutex held_batches, cancel = 7\<rparr>"
  subgoal
    by (simp add: errors_round_trip_def Let_def failing_driver_def failing_server_def list_server_def list_service_def
        list_lib_def wire_error_from_def syntax_error_def split_once_def strip_prefix_def str_bytes_str)
  subgoal
    by (simp add: live_statement_def session_reached_def failing_server_def list_server_def list_service_def holding_manager_def holding_parts
        list_http_parts caller_def principal_of_def alice_def alice_name_def demo_mc_def calm_def elapsed_def validate_handle_def
        validate_text_def)
  done

theorem driver_reports_downstream_error_witness:
  "\<exists>n. statement_prepare failing_driver list_http ''st1'' (empty_pool, list_net_at holding_manager 0)
      = (Inl syntax_error, (empty_pool, n))
     \<and> (\<exists>s. hm_get (sessions (inner (registry (sn_manager n)))) ''s1'' = Some s
          \<and> hm_get (inner (statements s)) ''st1'' = Some \<lparr>statement = fresh_mutex [], cancel = 7\<rparr>)"
proof -
  obtain c where c: "client_of failing_driver (rm_transport list_http) = Inr (HttpC c)" "version_of (HttpC c :: unit any_client) = Some protocol_version"
    by (simp add: client_of_def transport_http_client_def list_http_def build_client_def failing_driver_def list_driver_def
        served_wire_def Let_def)
  have "dr_wire failing_driver = served_wire failing_server" "a_outcome (next_ambient failing_server (list_net_at holding_manager 0)) 0 = Completed"
    by (simp_all add: failing_driver_def failing_server_def list_server_def calm_def)
  from driver_reports_downstream_error [OF this(1) failing_parts(1) c failing_parts(2) this(2), of "[]" empty_pool]
  have "statement_prepare failing_driver list_http ''st1'' (empty_pool, list_net_at holding_manager 0)
      = (Inl (reported syntax_error), (empty_pool, after_call list_http
          (after_failure ''st1'' \<lparr>statement = fresh_mutex held_batches, cancel = 7\<rparr> []
             (stamped failing_server (list_net_at holding_manager 0) holding_session)) (list_net_at holding_manager 0)))"
    by (simp add: failing_server_def list_service_def)
  moreover have "reported syntax_error = syntax_error"
    by (simp add: reported_def syntax_error_def ascii_sqlstate_def normal_details_def)
  ultimately show ?thesis
    by (simp add: after_call_def after_failure_def stamped_def list_http_parts)
qed

end
