(* ===== verification/Release.thy ===== *)
theory Release
  imports Error_Path
begin

text \<open>
  What dropping a handle of the driver releases on the server: \<open>Drop\<close> of the statement, the reader and
  the connection (\<open>adbc-driver-grainlift/src/lib.rs\<close>) through the close handlers of \<open>service.rs\<close>. The
  answer of the server is ignored by the drops, so the theory follows the state and not the reply.
\<close>

subsection \<open>Calls whose reply is ignored\<close>

lemma remote_call_state:
  fixes R :: "('v, 'cl, ('c, 's, 'k, 'r, 'sch, 'w) server_net, stream_handle, 'sch) driver"
    and Z :: "('c, 's, 'k, 'r, 'sch, 'x, 'w, 'f) server"
  assumes "dr_wire R = served_wire Z" and "client_of R (rm_transport rm) = Inr cl" and "unary_call name = Some h"
    and "h (se_service Z) (se_ambient Z (sn_count n)) (to_request cl b) (se_context Z) (sn_manager n) = (r, m')"
  shows "snd (remote_call R rm name b (p, n)) = (p, n\<lparr>sn_manager := m', sn_count := Suc (sn_count n)\<rparr>)"
  using assms
  by (cases r) (simp_all add: remote_call_def transport_call_def st_bind_def result_step_def rpc_def on_net_def step_err_def
      served_wire_def served_unary_def serve_def split: sum.split)

lemma unary_closes:
  "unary_call ''close_statement'' = Some close_statement_call" "unary_call ''close_result'' = Some close_result_call"
  "unary_call ''close_connection'' = Some close_connection"
  by (simp_all add: unary_call_def unary_methods_def)

lemma result_args:
  assumes "version_of cl = Some protocol_version" and "validate_handle sid = Inr ()" and "validate_handle hid = Inr ()"
  shows "validate_protocol_version (to_request cl (result_request sid hid)) = Inr ()"
    "string_arg (to_request cl (result_request sid hid)) ''session_id'' = Inr sid"
    "string_arg (to_request cl (result_request sid hid)) ''result_id'' = Inr hid"
  using assms
  by (simp_all add: validate_protocol_version_def compatible_version_def strip_prefix_def is_ascii_digit_def
      string_arg_def to_request_def protocol_version_def result_request_def one_row_def string_value_def
      require_one_row_def result_schema_fields_def column_by_name_def text_field_def)

lemma session_args:
  assumes "version_of cl = Some protocol_version" and "validate_handle sid = Inr ()"
  shows "validate_protocol_version (to_request cl (session_request sid)) = Inr ()"
    "string_arg (to_request cl (session_request sid)) ''session_id'' = Inr sid"
  using assms
  by (simp_all add: validate_protocol_version_def compatible_version_def strip_prefix_def is_ascii_digit_def
      string_arg_def to_request_def protocol_version_def session_request_def one_row_def string_value_def
      require_one_row_def session_schema_def column_by_name_def text_field_def)

lemma then_ok_state: "f s = (r, s') \<Longrightarrow> then_ok L f s = (fst (then_ok L f s), s')"
  by (cases r) (simp_all add: then_ok_def st_bind_def adbc_def ret_def)

lemma release_net: "\<exists>q. release lease (p, n) = (q, n)" "\<exists>q. release_transport t (p, n) = (q, n)"
  by (auto simp: release_def release_transport_def split: option.split remote_transport.split)

subsection \<open>Statements\<close>

lemma statement_drop_state:
  fixes R :: "('v, 'cl, ('c, 's, 'k, 'r, 'sch, 'w) server_net, stream_handle, 'sch) driver"
    and Z :: "('c, 's, 'k, 'r, 'sch, 'x, 'w, 'f) server"
  assumes wire: "dr_wire R = served_wire Z" and client: "client_of R (rm_transport rm) = Inr cl" "version_of cl = Some protocol_version"
    and live: "session_reached Z rm n s" and hid: "validate_handle hid = Inr ()"
    and closed: "close_statement (a_outcome (next_ambient Z n) 0) (a_outcome (next_ambient Z n) 1) hid (stamped Z n s) = (r, s')"
  shows "statement_drop R rm hid (p, n) = (p, after_call rm s' n)"
proof -
  have sid: "validate_handle (rm_session_id rm) = Inr ()" using live by (simp add: session_reached_def)
  note args = statement_args [OF client(2) sid hid]
  let ?f = "close_statement (a_outcome (next_ambient Z n) 0) (a_outcome (next_ambient Z n) 1) hid"
  obtain r' where "then_ok (sv_lib (se_service Z)) ?f (stamped Z n s) = (r', s')"
    using then_ok_state [of ?f, OF closed] by blast
  then have "close_statement_call (se_service Z) (next_ambient Z n) (to_request cl (statement_request (rm_session_id rm) hid))
      (se_context Z) (sn_manager n) = (r', put_session (rm_session_id rm) s' (sn_manager n))"
    unfolding close_statement_call_def
    by (intro session_reached_call [OF live args(1,2)]) (simp add: arg_def st_bind_def ret_def args(3))
  from remote_call_state [OF wire client(1) unary_closes(1) this] show ?thesis
    by (simp add: statement_drop_def statement_call_def after_call_def)
qed

lemma statement_drop_releases:
  fixes R :: "('v, 'cl, ('c, 's, 'k, 'r, 'sch, 'w) server_net, stream_handle, 'sch) driver"
    and Z :: "('c, 's, 'k, 'r, 'sch, 'x, 'w, 'f) server"
  assumes wire: "dr_wire R = served_wire Z" and client: "client_of R (rm_transport rm) = Inr cl" "version_of cl = Some protocol_version"
    and reached: "session_reached Z rm n s" and inv: "session_inv s"
    and intact: "\<not> poisoned (statements s)" "\<not> poisoned (results s)" "\<not> poisoned (bind_uploads s)"
    and completes: "a_outcome (next_ambient Z n) 0 = Completed" "a_outcome (next_ambient Z n) 1 = Completed"
    and hid: "validate_handle hid = Inr ()" "hm_contains (inner (statements s)) hid"
  obtains s' where "statement_drop R rm hid (p, n) = (p, after_call rm s' n)"
    "hm_get (inner (statements s')) hid = None"
    "\<forall>k m. hm_get (inner (results s')) k = Some m \<longrightarrow> owner_statement_id (inner m) \<noteq> Some hid"
    "\<forall>k u. hm_get (inner (bind_uploads s')) k = Some u \<longrightarrow> bu_statement_id u \<noteq> hid"
    "\<forall>k. k \<noteq> hid \<longrightarrow> hm_get (inner (statements s')) k = hm_get (inner (statements s)) k"
    "\<forall>k m. hm_get (inner (results s)) k = Some m \<longrightarrow> \<not> poisoned m \<longrightarrow>
       owner_statement_id (inner m) \<noteq> Some hid \<longrightarrow> hm_get (inner (results s')) k = Some m"
proof -
  obtain entry where entry: "hm_get (inner (statements s)) hid = Some entry"
    using hid(2) by (metis hm_get_None_iff not_Some_eq)
  have "\<exists>s'. close_statement Completed Completed hid (stamped Z n s) = (Inr (), s')"
    using intact entry
    by (simp add: close_statement_def remove_statement_def invalidate_statement_results_def st_bind_def locked_def stamped_def)
  then obtain s' where s': "close_statement Completed Completed hid (stamped Z n s) = (Inr (), s')" by blast
  have "session_inv (stamped Z n s)" using inv by (simp add: session_inv_def stamped_def)
  moreover have same: "statements (stamped Z n s) = statements s" "results (stamped Z n s) = results s"
    by (simp_all add: stamped_def)
  ultimately have released: "hm_get (inner (statements s')) hid = None"
    "\<forall>k m. hm_get (inner (results s')) k = Some m \<longrightarrow> owner_statement_id (inner m) \<noteq> Some hid"
    "\<forall>k u. hm_get (inner (bind_uploads s')) k = Some u \<longrightarrow> bu_statement_id u \<noteq> hid"
    "\<forall>k. k \<noteq> hid \<longrightarrow> hm_get (inner (statements s')) k = hm_get (inner (statements s)) k"
    "\<forall>k m. hm_get (inner (results s)) k = Some m \<longrightarrow> \<not> poisoned m \<longrightarrow>
       owner_statement_id (inner m) \<noteq> Some hid \<longrightarrow> hm_get (inner (results s')) k = Some m"
    using close_statement_releases_everything [OF _ s', unfolded same] by blast+
  have "statement_drop R rm hid (p, n) = (p, after_call rm s' n)"
    by (rule statement_drop_state [OF wire client reached, unfolded completes, OF hid(1) s'])
  from that [OF this released] show ?thesis .
qed

subsection \<open>Readers\<close>

text \<open>A session without the result \<open>rid\<close>.\<close>

definition without_result :: "string \<Rightarrow> ('c, 's, 'k, 'r, 'b, 'sch, 'w) session \<Rightarrow> ('c, 's, 'k, 'r, 'b, 'sch, 'w) session" where
  "without_result rid s = s\<lparr>results := fresh_mutex (hm_remove rid (inner (results s)))\<rparr>"

lemma close_result_state:
  assumes "\<not> poisoned (results s)"
  shows "\<exists>r. close_result Completed rid s = (r, without_result rid s)"
proof -
  have same: "fresh_mutex (inner (results s)) = results s" using assms by (cases "results s") simp
  show ?thesis
  proof (cases "hm_get (inner (results s)) rid")
    case None
    then have "hm_remove rid (inner (results s)) = inner (results s)"
      by (simp add: delete_id map_of_eq_None_iff)
    with None same assms show ?thesis
      by (simp add: close_result_def locked_def without_result_def fresh_store)
  next
    case (Some x)
    with assms show ?thesis by (simp add: close_result_def locked_def without_result_def fresh_store)
  qed
qed

lemma close_result_call_state:
  fixes R :: "('v, 'cl, ('c, 's, 'k, 'r, 'sch, 'w) server_net, stream_handle, 'sch) driver"
    and Z :: "('c, 's, 'k, 'r, 'sch, 'x, 'w, 'f) server"
  assumes wire: "dr_wire R = served_wire Z" and client: "client_of R (rm_transport rm) = Inr cl" "version_of cl = Some protocol_version"
    and live: "session_reached Z rm n s" "\<not> poisoned (results s)" and rid: "validate_handle rid = Inr ()"
    and completes: "a_outcome (next_ambient Z n) 0 = Completed"
  shows "snd (remote_call R rm ''close_result'' (result_request (rm_session_id rm) rid) (p, n))
     = (p, after_call rm (without_result rid (stamped Z n s)) n)"
proof -
  have sid: "validate_handle (rm_session_id rm) = Inr ()" using live by (simp add: session_reached_def)
  note args = result_args [OF client(2) sid rid]
  obtain r where "close_result Completed rid (stamped Z n s) = (r, without_result rid (stamped Z n s))"
    using close_result_state [of "stamped Z n s"] live(2) by (auto simp: stamped_def)
  then obtain r' where "then_ok (sv_lib (se_service Z)) (close_result Completed rid) (stamped Z n s)
      = (r', without_result rid (stamped Z n s))"
    using then_ok_state [of "close_result Completed rid"] by blast
  then have "close_result_call (se_service Z) (next_ambient Z n) (to_request cl (result_request (rm_session_id rm) rid))
      (se_context Z) (sn_manager n) = (r', put_session (rm_session_id rm) (without_result rid (stamped Z n s)) (sn_manager n))"
    unfolding close_result_call_def
    by (intro session_reached_call [OF live(1) args(1,2)]) (simp add: arg_def st_bind_def ret_def args(3) completes)
  from remote_call_state [OF wire client(1) unary_closes(2) this] show ?thesis by (simp add: after_call_def)
qed

text \<open>The state after a call is the state before the next one.\<close>

lemma session_reached_next:
  assumes "session_reached Z rm n s" and "prompt Z (a_now (next_ambient Z n)) (Suc (sn_count n))"
    and "s_principal s1 = s_principal s" and "last_used s1 = fresh_mutex (a_now (next_ambient Z n))"
  shows "session_reached Z rm (after_call rm s1 n) s1"
  using assms by (simp add: session_reached_def prompt_def after_call_def put_session_def)

text \<open>A reader whose worker still runs owns a stream of its result.\<close>

definition owns_stream :: "'cl remote_connection \<Rightarrow> (stream_handle, 'sch) remote_reader \<Rightarrow>
   ('c, 's, 'k, 'r, 'sch, 'w) server_net \<Rightarrow> bool" where
  "owns_stream rm rd n \<longleftrightarrow>
     (case rr_mode rd of
        ByteMode (Some (ReadHandle i, _)) \<Rightarrow>
          (\<exists>q. hm_get (sn_cursors n) i = Some \<lparr>cu_session_id = rm_session_id rm, cu_result_id = rr_result_id rd, cu_sequence = q\<rparr>)
      | ByteMode (Some (BindHandle _, _)) \<Rightarrow> False
      | _ \<Rightarrow> True)"

lemma cancel_read_state:
  assumes "session_reached Z rm n s" and "\<not> poisoned (results s)" and "a_outcome (next_ambient Z n) 0 = Completed"
    and "hm_get (sn_cursors n) i = Some \<lparr>cu_session_id = rm_session_id rm, cu_result_id = rid, cu_sequence = q\<rparr>"
  shows "served_cancel Z (ReadHandle i) n
     = (after_call rm (without_result rid (stamped Z n s)) n)\<lparr>sn_cursors := hm_remove i (sn_cursors n)\<rparr>"
proof -
  have reached: "caller (se_service Z) (se_context Z) = Inr (s_principal s)" "\<not> poisoned (registry (sn_manager n))"
    "hm_get (sessions (inner (registry (sn_manager n)))) (rm_session_id rm) = Some s" "\<not> poisoned (last_used s)"
    "elapsed (a_now (next_ambient Z n)) (inner (last_used s)) \<le> mc_ttl (sv_mc (se_service Z))"
    using assms(1) by (auto simp: session_reached_def)
  obtain r where r: "close_result Completed rid (stamped Z n s) = (r, without_result rid (stamped Z n s))"
    using close_result_state [of "stamped Z n s"] assms(2) by (auto simp: stamped_def)
  have stamp: "s\<lparr>last_used := store (last_used s) (a_now (next_ambient Z n))\<rparr> = stamped Z n s"
    using reached(4) by (simp add: fresh_store stamped_def)
  have "cancel_read (se_service Z) (next_ambient Z n) (se_context Z)
      \<lparr>cu_session_id = rm_session_id rm, cu_result_id = rid, cu_sequence = q\<rparr> (sn_manager n)
      = put_session (rm_session_id rm) (without_result rid (stamped Z n s)) (sn_manager n)"
    using live_call [OF reached(1-3) refl reached(4,5), of "adbc (sv_lib (se_service Z)) (close_result Completed rid)"]
    unfolding stamp by (simp add: cancel_read_def assms(3) adbc_def r)
  with assms(4) show ?thesis by (simp add: served_cancel_def Let_def after_call_def)
qed

lemma without_result_twice:
  "without_result rid (stamped Z n1 (without_result rid (stamped Z n s)))
     = (without_result rid s)\<lparr>last_used := fresh_mutex (a_now (next_ambient Z n1))\<rparr>"
  by (simp add: without_result_def stamped_def delete_idem)

lemma reader_drop_state:
  fixes R :: "('v, 'cl, ('c, 's, 'k, 'r, 'sch, 'w) server_net, stream_handle, 'sch) driver"
    and Z :: "('c, 's, 'k, 'r, 'sch, 'x, 'w, 'f) server"
  assumes wire: "dr_wire R = served_wire Z" and client: "client_of R (rm_transport rm) = Inr cl" "version_of cl = Some protocol_version"
    and reached: "session_reached Z rm n s" "\<not> poisoned (results s)" and rid: "validate_handle (rr_result_id rd) = Inr ()"
    and completes: "a_outcome (next_ambient Z n) 0 = Completed"
    and soon: "prompt Z (a_now (next_ambient Z n)) (Suc (sn_count n))" and own: "owns_stream rm rd n"
  obtains q n' t where "reader_drop R rm rd (p, n) = (q, n')"
    "sn_manager n' = put_session (rm_session_id rm) ((without_result (rr_result_id rd) s)\<lparr>last_used := fresh_mutex t\<rparr>) (sn_manager n)"
    "\<And>i lease. rr_mode rd = ByteMode (Some (ReadHandle i, lease)) \<Longrightarrow> hm_get (sn_cursors n') i = None"
proof -
  let ?rid = "rr_result_id rd"
  let ?s1 = "without_result ?rid (stamped Z n s)"
  let ?n1 = "after_call rm ?s1 n"
  note call = close_result_call_state [OF wire client reached rid completes]
  have s1: "?s1 = (without_result ?rid s)\<lparr>last_used := fresh_mutex (a_now (next_ambient Z n))\<rparr>"
    by (simp add: without_result_def stamped_def)
  have m1: "sn_manager ?n1 = put_session (rm_session_id rm) ?s1 (sn_manager n)" by (simp add: after_call_def)
  consider (worker) i lease where "rr_mode rd = ByteMode (Some (ReadHandle i, lease))"
    | (idle) "\<And>st lease. rr_mode rd \<noteq> ByteMode (Some (st, lease))"
    using own by (cases "rr_mode rd"; cases "case rr_mode rd of ByteMode w \<Rightarrow> w | _ \<Rightarrow> None")
      (auto simp: owns_stream_def split: stream_handle.splits)
  then show ?thesis
  proof cases
    case idle
    then have "reader_drop R rm rd (p, n) = (p, ?n1)"
      using call by (auto simp: reader_drop_def Let_def split: reader_mode.split option.split)
    with that m1 s1 idle show ?thesis by metis
  next
    case worker
    then obtain k where cur: "hm_get (sn_cursors n) i
        = Some \<lparr>cu_session_id = rm_session_id rm, cu_result_id = ?rid, cu_sequence = k\<rparr>"
      using own by (auto simp: owns_stream_def)
    have next': "session_reached Z rm ?n1 ?s1"
      by (rule session_reached_next [OF reached(1) soon]) (simp_all add: without_result_def stamped_def)
    let ?n2 = "(after_call rm (without_result ?rid (stamped Z ?n1 ?s1)) ?n1)\<lparr>sn_cursors := hm_remove i (sn_cursors n)\<rparr>"
    have cancelled: "served_cancel Z (ReadHandle i) ?n1 = ?n2"
      using cancel_read_state [OF next' _ _, of i ?rid k] cur soon
      by (simp add: after_call_def without_result_def prompt_def)
    obtain q where q: "release lease (p, ?n2) = (q, ?n2)" using release_net(1) [of lease p ?n2] by blast
    have "reader_drop R rm rd (p, n) = (q, ?n2)"
      using call [of p] cancelled q wire worker by (simp add: reader_drop_def Let_def served_wire_def)
    moreover have "sn_manager ?n2 = put_session (rm_session_id rm)
        ((without_result ?rid s)\<lparr>last_used := fresh_mutex (a_now (next_ambient Z ?n1))\<rparr>) (sn_manager n)"
      by (simp add: after_call_def put_session_def hm_insert_twice without_result_twice)
    ultimately show ?thesis
      using worker by (intro that [of q ?n2 "a_now (next_ambient Z ?n1)"]) (auto simp: delete_conv)
  qed
qed

subsection \<open>Connections\<close>

lemma remote_drop_state:
  fixes R :: "('v, 'cl, ('c, 's, 'k, 'r, 'sch, 'w) server_net, stream_handle, 'sch) driver"
    and Z :: "('c, 's, 'k, 'r, 'sch, 'x, 'w, 'f) server"
  assumes wire: "dr_wire R = served_wire Z" and client: "client_of R (rm_transport rm) = Inr cl" "version_of cl = Some protocol_version"
    and reached: "session_reached Z rm n s"
  obtains q n' where "remote_drop R rm (p, n) = (q, n')"
    "sessions (inner (registry (sn_manager n'))) = hm_remove (rm_session_id rm) (sessions (inner (registry (sn_manager n))))"
    "held (sn_manager n') = held (sn_manager n)"
proof -
  let ?sid = "rm_session_id rm" and ?m = "sn_manager n"
  have owner: "caller (se_service Z) (se_context Z) = Inr (s_principal s)" "\<not> poisoned (registry ?m)"
    "hm_get (sessions (inner (registry ?m))) ?sid = Some s" "validate_handle ?sid = Inr ()"
    using reached by (auto simp: session_reached_def)
  note args = session_args [OF client(2) owner(4)]
  let ?m' = "put_registry (store (registry ?m) ((inner (registry ?m))\<lparr>sessions := hm_remove ?sid (sessions (inner (registry ?m)))\<rparr>)) ?m"
  have "manager_close ?sid (s_principal s) ?m = (Inr (), ?m')"
    using owner by (simp add: manager_close_def locked_def)
  then obtain r' where "then_ok (sv_lib (se_service Z)) (manager_close ?sid (s_principal s)) ?m = (r', ?m')"
    using then_ok_state [of "manager_close ?sid (s_principal s)"] by blast
  then have "close_connection (se_service Z) (next_ambient Z n) (to_request cl (session_request ?sid)) (se_context Z) ?m = (r', ?m')"
    by (simp add: close_connection_def st_bind_def ret_def arg_def args owner(1))
  note called = remote_call_state [OF wire client(1) unary_closes(3) this, of p]
  let ?n' = "n\<lparr>sn_manager := ?m', sn_count := Suc (sn_count n)\<rparr>"
  obtain q where "release_transport (rm_transport rm) (p, ?n') = (q, ?n')"
    using release_net(2) [of "rm_transport rm" p ?n'] by blast
  with called have "remote_drop R rm (p, n) = (q, ?n')" by (simp add: remote_drop_def)
  then show ?thesis by (rule that) simp_all
qed

subsection \<open>Properties\<close>


text \<open>A byte stream of the list service that is dropped before its end.\<close>

definition reading_session ::
  "(nat, record_batch list, nat, record_batch list, nat, record_batch list counting_file) service_session" where
  "reading_session = holding_session\<lparr>results := fresh_mutex [(''u1'', fresh_mutex (fresh_result (Some ''st1'') held_batches 2))]\<rparr>"

definition reading_net :: list_net where
  "reading_net =
     \<lparr>sn_manager = live_manager\<lparr>registry := fresh_mutex \<lparr>sessions = [(''s1'', reading_session)],
        opening_total = 0, opening_by_principal = []\<rparr>\<rparr>, sn_count = 0,
      sn_cursors = [(0, \<lparr>cu_session_id = ''s1'', cu_result_id = ''u1'', cu_sequence = 0\<rparr>)]\<rparr>"

definition byte_reader :: "(stream_handle, nat) remote_reader" where
  "byte_reader = \<lparr>rr_result_id = ''u1'', rr_schema = 2, rr_mode = ByteMode (Some (ReadHandle 0, None)), rr_finished = False\<rparr>"

lemma reading_parts:
  "session_reached list_server list_remote reading_net reading_session" "session_inv reading_session"
  "\<not> poisoned (statements reading_session)" "\<not> poisoned (results reading_session)" "\<not> poisoned (bind_uploads reading_session)"
  "owns_stream list_remote byte_reader reading_net" "sn_count reading_net = 0"
  by (simp_all add: session_reached_def session_inv_def table_within_def reading_session_def holding_session_def
      List_Service.live_session_def new_session_def reading_net_def list_remote_def list_server_def list_service_def
      list_caller elapsed_def calm_def demo_mc_def validate_handle_def validate_text_def owns_stream_def byte_reader_def
      hm_wf_def caller_def principal_of_def alice_def alice_name_def)


end
