(* ===== verification/Lifecycle.thy ===== *)
theory Lifecycle
  imports Manager "HOL-Library.Multiset"
begin

text \<open>
  The life of a session (\<open>crates/grainlift-server/src/session.rs\<close>). A session is an \<open>Arc\<close>: the registry
  holds one reference and every handler that looked it up holds another, so a session that was
  closed, expired or taken by shutdown lives on, detached, while a handler still uses it, and is
  dropped when the last reference goes away. Dropping runs \<open>Drop for Session\<close>, which cancels the
  connection and the statements and releases the native handles. The machine of the session manager
  is extended by the detached and the dropped sessions; the invariant says that none is lost, none is
  dropped twice and none is dropped in use.
\<close>

subsection \<open>Detached and dropped sessions\<close>

text \<open>\<open>created\<close> lists the sessions that were ever constructed with the cancel handle of their connection.\<close>

record ('S, 'k) life =
  lf_world :: "'S world"
  detached :: "(string, 'S) hash_map"
  dropped :: "(string \<times> 'S) list"
  created :: "(string \<times> 'k) list"

abbreviation registered :: "'S world \<Rightarrow> (string, 'S) hash_map" where
  "registered w \<equiv> sessions (inner (registry (mgr w)))"

abbreviation in_use :: "'S world \<Rightarrow> string \<Rightarrow> nat" where
  "in_use w \<equiv> held (mgr w)"

text \<open>
  The references after a step to \<open>w'\<close>: a session that left the registry is dropped if no handler holds
  it and detached otherwise; a detached session is dropped with its last handler.
\<close>

definition settle :: "'S world \<Rightarrow> ('S, 'k) life \<Rightarrow> ('S, 'k) life" where
  "settle w' l =
     (let pool = filter (\<lambda>(sid, _). \<not> hm_contains (registered w') sid) (registered (lf_world l)) @ detached l
      in l\<lparr>lf_world := w', detached := filter (\<lambda>(sid, _). in_use w' sid > 0) pool,
           dropped := dropped l @ filter (\<lambda>(sid, _). in_use w' sid = 0) pool\<rparr>)"

definition life_start :: "('S, 'k) life \<Rightarrow> bool" where
  "life_start l \<longleftrightarrow> world_start (lf_world l) \<and> (\<forall>sid. in_use (lf_world l) sid = 0)
     \<and> detached l = [] \<and> dropped l = [] \<and> created l = []"

text \<open>
  The steps of the session manager with their effect on the references. An open constructs its
  session before it takes the registry lock, so a session that is refused there because of a shutdown
  or a poisoned registry is dropped at once. A handler may go on working on a detached session.
\<close>

inductive life_step ::
  "('c, 's, 'k, 'r, 'b, 'sch, 'x) driver_ops \<Rightarrow> ('w, 'b, 'f, 'r) arrow_stream \<Rightarrow> manager_config \<Rightarrow>
   (('c, 's, 'k, 'r, 'b, 'sch, 'w) session, 'k) life \<Rightarrow>
   (('c, 's, 'k, 'r, 'b, 'sch, 'w) session, 'k) life \<Rightarrow> bool"
  for D :: "('c, 's, 'k, 'r, 'b, 'sch, 'x) driver_ops" and A :: "('w, 'b, 'f, 'r) arrow_stream" and mc
  where
  l_admitted: "lf_world l = w \<Longrightarrow> open_admit mc now who tn (mgr w) = (Inr t, m') \<Longrightarrow>
     life_step D A mc l (settle (w\<lparr>mgr := m', pending := pending w @ [(who, tn, t)]\<rparr>) l)"
| l_refused: "lf_world l = w \<Longrightarrow> open_admit mc now who tn (mgr w) = (Inl e, m') \<Longrightarrow>
     life_step D A mc l (settle (w\<lparr>mgr := m'\<rparr>) l)"
| l_abort: "lf_world l = w \<Longrightarrow> (who, tn, t) \<in> set (pending w) \<Longrightarrow>
     open_abort who e (mgr w) = (r :: (adbc_error, unit) result, m') \<Longrightarrow>
     life_step D A mc l (settle (w\<lparr>mgr := m', pending := remove1 (who, tn, t) (pending w)\<rparr>) l)"
| l_commit: "lf_world l = w \<Longrightarrow> (who, tn, t) \<in> set (pending w) \<Longrightarrow> uuid \<notin> set (map fst (created l)) \<Longrightarrow>
     s = new_session D mc now who tn t conn \<Longrightarrow> open_commit uuid who s (mgr w) = (r', m') \<Longrightarrow>
     life_step D A mc l
       (l\<lparr>lf_world := w\<lparr>mgr := m', pending := remove1 (who, tn, t) (pending w)\<rparr>,
          dropped := dropped l @ (case r' of Inl _ \<Rightarrow> [(uuid, s)] | Inr _ \<Rightarrow> []),
          created := created l @ [(uuid, connection_cancel s)]\<rparr>)"
| l_get: "lf_world l = w \<Longrightarrow> manager_get mc now sid who (mgr w) = (rs, m') \<Longrightarrow>
     life_step D A mc l (settle (w\<lparr>mgr := m'\<rparr>) l)"
| l_work: "lf_world l = w \<Longrightarrow> in_use w sid > 0 \<Longrightarrow> hm_get (registered w) sid = Some s \<Longrightarrow> session_step D A s s' \<Longrightarrow>
     life_step D A mc l (settle (w\<lparr>mgr := put_registry
       (store (registry (mgr w)) ((inner (registry (mgr w)))\<lparr>sessions := hm_insert sid s' (registered w)\<rparr>)) (mgr w)\<rparr>) l)"
| l_work_detached: "in_use (lf_world l) sid > 0 \<Longrightarrow> hm_get (detached l) sid = Some s \<Longrightarrow> session_step D A s s' \<Longrightarrow>
     life_step D A mc l (l\<lparr>detached := hm_insert sid s' (detached l)\<rparr>)"
| l_return: "lf_world l = w \<Longrightarrow> in_use w sid > 0 \<Longrightarrow>
     life_step D A mc l (settle (w\<lparr>mgr := (mgr w)\<lparr>held := (in_use w)(sid := in_use w sid - 1)\<rparr>\<rparr>) l)"
| l_close: "lf_world l = w \<Longrightarrow> manager_close sid who (mgr w) = (ru, m') \<Longrightarrow>
     life_step D A mc l (settle (w\<lparr>mgr := m'\<rparr>) l)"
| l_reap: "lf_world l = w \<Longrightarrow> reap_expired mc now (mgr w) = (rn, m') \<Longrightarrow>
     life_step D A mc l (settle (w\<lparr>mgr := m'\<rparr>) l)"
| l_begin: "lf_world l = w \<Longrightarrow> life_step D A mc l (settle (w\<lparr>mgr := begin_closing (mgr w)\<rparr>) l)"
| l_take: "lf_world l = w \<Longrightarrow> closing (mgr w) \<Longrightarrow> take_sessions (mgr w) = (Inr n, m') \<Longrightarrow>
     life_step D A mc l (settle (w\<lparr>mgr := m', world.drained := True\<rparr>) l)"

subsection \<open>The invariant\<close>

text \<open>A session seen from outside: its identifier and the cancel handle of its connection.\<close>

definition tag :: "string \<times> ('c, 's, 'k, 'r, 'b, 'sch, 'w) session \<Rightarrow> string \<times> 'k" where
  "tag = (\<lambda>(sid, s). (sid, connection_cancel s))"

definition life_inv ::
  "manager_config \<Rightarrow> (('c, 's, 'k, 'r, 'b, 'sch, 'w) session, 'k) life \<Rightarrow> bool" where
  "life_inv mc l \<longleftrightarrow>
     world_inv mc (lf_world l) \<and> distinct (map fst (created l))
     \<and> mset (map tag (registered (lf_world l) @ detached l @ dropped l)) = mset (created l)
     \<and> (\<forall>sid. in_use (lf_world l) sid > 0 \<longrightarrow>
          hm_contains (registered (lf_world l)) sid \<or> hm_contains (detached l) sid)
     \<and> (\<forall>(sid, s) \<in> set (detached l). in_use (lf_world l) sid > 0)"

text \<open>A step that only removes sessions or works on them.\<close>

definition shrinks ::
  "(string, ('c, 's, 'k, 'r, 'b, 'sch, 'w) session) hash_map \<Rightarrow>
   (string, ('c, 's, 'k, 'r, 'b, 'sch, 'w) session) hash_map \<Rightarrow> bool" where
  "shrinks ss ss' \<longleftrightarrow>
     (\<forall>sid s'. hm_get ss' sid = Some s' \<longrightarrow>
        (\<exists>s. hm_get ss sid = Some s \<and> connection_cancel s' = connection_cancel s))"

lemma shrinks_refl [simp]: "shrinks ss ss"
  by (simp add: shrinks_def)

lemma shrinks_remove: "shrinks ss (hm_remove sid ss)"
  by (auto simp: shrinks_def delete_conv split: if_splits)

lemma shrinks_empty [simp]: "shrinks ss []"
  by (simp add: shrinks_def)

lemma shrinks_replace:
  "hm_get ss sid = Some s \<Longrightarrow> connection_cancel s' = connection_cancel s \<Longrightarrow> shrinks ss (hm_insert sid s' ss)"
  by (auto simp: shrinks_def update_conv)

lemma shrinks_trans: "shrinks a b \<Longrightarrow> shrinks b c \<Longrightarrow> shrinks a c"
  unfolding shrinks_def by metis

lemma shrinks_removes: "shrinks ss (fold hm_remove ids ss)"
  by (induction ids arbitrary: ss) (auto intro: shrinks_trans shrinks_remove)

lemma shrinks_registry:
  assumes "with_registry f m = (res, m')" and "\<And>r. shrinks (sessions r) (sessions (snd (f r)))"
  shows "shrinks (sessions (inner (registry m))) (sessions (inner (registry m')))"
  using assms(1)
proof (cases rule: with_registry_cases)
  case (locked r')
  with assms(2) [of "inner (registry m)"] show ?thesis by simp
qed simp

lemma held_registry: "with_registry f m = (res, m') \<Longrightarrow> held m' = held m"
  by (auto elim!: with_registry_cases)

lemma shrinks_admit:
  assumes "open_admit mc now who tn m = (res, m')"
  shows "shrinks (sessions (inner (registry m))) (sessions (inner (registry m'))) \<and> held m' = held m"
proof -
  have "m' = m \<or> (\<exists>res1. reserve_open mc now who m = (res1, m'))"
    using assms by (auto simp: open_admit_def st_bind_def split: if_splits option.splits prod.splits sum.splits)
  then show ?thesis
  proof (elim disjE exE)
    fix res1 assume "reserve_open mc now who m = (res1, m')"
    then show ?thesis
    proof (cases rule: reserve_open_cases)
      case (decided ids r')
      have "sessions r' = fold hm_remove ids (sessions (inner (registry m)))"
        using decided(3) by (auto simp: admit_def Let_def split: if_splits)
      with decided(4) show ?thesis by (simp add: shrinks_removes)
    qed simp
  qed simp
qed

lemma shrinks_get:
  assumes "manager_get mc now sid who m = (res, m')"
  shows "shrinks (sessions (inner (registry m))) (sessions (inner (registry m')))"
    and "held m' x > 0 \<Longrightarrow> held m x > 0 \<or> hm_contains (sessions (inner (registry m))) x"
proof -
  obtain r1 m1 where m1: "with_registry (lookup_job mc now (held m) sid who) m = (r1, m1)" by fastforce
  with assms have m': "registry m' = registry m1" "held m' = (case r1 of Inl _ \<Rightarrow> held m1 | Inr _ \<Rightarrow> (held m1)(sid := held m1 sid + 1))"
    by (auto simp: manager_get_def split: sum.splits)
  have look: "shrinks (sessions r) (sessions (snd (lookup_job mc now (held m) sid who r)))" for r
    by (cases "lookup_job mc now (held m) sid who r")
      (auto elim!: lookup_job_cases simp: shrinks_remove shrinks_replace [of _ _ s "s\<lparr>last_used := l\<rparr>" for s l])
  show "shrinks (sessions (inner (registry m))) (sessions (inner (registry m')))"
    unfolding m'(1) by (rule shrinks_registry [OF m1 look])
  have "hm_contains (sessions (inner (registry m))) sid" if "r1 = Inr s" for s
    using m1 that
    by (auto elim!: with_registry_cases lookup_job_cases dest: map_of_SomeD intro: rev_image_eqI)
  then show "held m x > 0 \<or> hm_contains (sessions (inner (registry m))) x" if "held m' x > 0"
    using that m'(2) held_registry [OF m1] by (cases r1) (auto split: if_splits)
qed

lemma shrinks_simple:
  "manager_close sid who m = (ru, m') \<Longrightarrow>
     shrinks (sessions (inner (registry m))) (sessions (inner (registry m'))) \<and> held m' = held m"
  "reap_expired mc now m = (rn, m') \<Longrightarrow>
     shrinks (sessions (inner (registry m))) (sessions (inner (registry m'))) \<and> held m' = held m"
  "take_sessions m = (rn, m') \<Longrightarrow>
     shrinks (sessions (inner (registry m))) (sessions (inner (registry m'))) \<and> held m' = held m"
  "open_abort who e m = (ra, m') \<Longrightarrow>
     shrinks (sessions (inner (registry m))) (sessions (inner (registry m'))) \<and> held m' = held m"
proof -
  show "shrinks (sessions (inner (registry m))) (sessions (inner (registry m'))) \<and> held m' = held m"
    if "manager_close sid who m = (ru, m')"
    using shrinks_registry [OF that [unfolded manager_close_def]] held_registry [OF that [unfolded manager_close_def]]
    by (simp add: shrinks_remove split: option.split)
  show "shrinks (sessions (inner (registry m))) (sessions (inner (registry m'))) \<and> held m' = held m"
    if "reap_expired mc now m = (rn, m')"
    using shrinks_registry [OF that [unfolded reap_expired_def]] held_registry [OF that [unfolded reap_expired_def]]
    by (simp add: shrinks_removes split: sum.split)
  show "shrinks (sessions (inner (registry m))) (sessions (inner (registry m'))) \<and> held m' = held m"
    if "take_sessions m = (rn, m')"
    using shrinks_registry [OF that [unfolded take_sessions_def]] held_registry [OF that [unfolded take_sessions_def]]
    by simp
  show "shrinks (sessions (inner (registry m))) (sessions (inner (registry m'))) \<and> held m' = held m"
    if "open_abort who e m = (ra, m')"
    using that by (auto simp: open_abort_def st_bind_def release_open_reservation_def locked_def split: if_splits)
qed

lemma map_tag_replace:
  "hm_get m sid = Some s \<Longrightarrow> connection_cancel s' = connection_cancel s \<Longrightarrow>
   map tag (hm_insert sid s' m) = map tag m"
  by (induction m) (auto simp: tag_def)

lemma map_fst_tag: "map fst (map tag m) = map fst m"
  by (simp add: tag_def case_prod_unfold)

lemma tagged_iff: "hm_wf m \<Longrightarrow> (sid, k) \<in> set (map tag m) \<longleftrightarrow> (\<exists>s. hm_get m sid = Some s \<and> connection_cancel s = k)"
  by (force simp: tag_def hm_wf_def dest: map_of_SomeD)

text \<open>What a shrinking step leaves and what it removes is what there was.\<close>

lemma shrinks_split:
  assumes "hm_wf ss" and "hm_wf ss'" and "shrinks ss ss'"
  shows "mset (map tag ss') + mset (map tag (filter (\<lambda>(sid, _). \<not> hm_contains ss' sid) ss)) = mset (map tag ss)"
proof -
  let ?kept = "filter (\<lambda>(sid, _). hm_contains ss' sid) ss"
  have wf: "hm_wf ?kept" using assms(1) by (simp add: hm_wf_def distinct_map_filter)
  have got: "hm_get ?kept sid = (if hm_contains ss' sid then hm_get ss sid else None)" for sid
    by (induction ss) (force split: prod.splits)+
  have "(sid, k) \<in> set (map tag ss') \<longleftrightarrow> (sid, k) \<in> set (map tag ?kept)" for sid k
    unfolding tagged_iff [OF assms(2)] tagged_iff [OF wf] got
    using assms(3) by (cases "hm_get ss' sid") (force simp: shrinks_def map_of_eq_None_iff dest: map_of_SomeD)+
  then have "set (map tag ss') = set (map tag ?kept)"
    by (simp only: set_eq_iff split_paired_All) blast
  moreover have distinct: "distinct (map tag ss')" "distinct (map tag ?kept)"
    using assms(2) wf by (metis distinct_map map_fst_tag hm_wf_def)+
  ultimately have "mset (map tag ss') = mset (map tag ?kept)"
    using set_eq_iff_mset_eq_distinct [OF distinct] by blast
  moreover have "mset (map tag ?kept) + mset (map tag (filter (\<lambda>(sid, _). \<not> hm_contains ss' sid) ss)) = mset (map tag ss)"
    by (induction ss) auto
  ultimately show ?thesis by simp
qed

lemma world_wf: "world_inv mc w \<Longrightarrow> hm_wf (registered w)"
  by (simp add: world_inv_def registry_ok_def)

lemma mset_partition:
  "mset (map f (filter (\<lambda>(sid, _). 0 < g sid) xs)) + mset (map f (filter (\<lambda>(sid, _). g sid = (0::nat)) xs)) = mset (map f xs)"
  by (induction xs) auto

lemma settle_inv:
  assumes inv: "life_inv mc l" and w': "world_inv mc w'" and shrinks: "shrinks (registered (lf_world l)) (registered w')"
    and used: "\<And>sid. in_use w' sid > 0 \<Longrightarrow> in_use (lf_world l) sid > 0 \<or> hm_contains (registered (lf_world l)) sid"
  shows "life_inv mc (settle w' l)"
proof -
  let ?old = "registered (lf_world l)" and ?new = "registered w'"
  let ?pool = "filter (\<lambda>(sid, _). \<not> hm_contains ?new sid) ?old @ detached l"
  have wf: "hm_wf ?old" "hm_wf ?new" using inv w' by (auto simp: life_inv_def intro: world_wf)
  have "mset (map tag (?new @ filter (\<lambda>(sid, _). 0 < in_use w' sid) ?pool @ dropped l @ filter (\<lambda>(sid, _). in_use w' sid = 0) ?pool))
      = mset (map tag ?new) + mset (map tag ?pool) + mset (map tag (dropped l))"
    using mset_partition [of tag "in_use w'" ?pool] by (simp add: ac_simps)
  also have "\<dots> = mset (map tag (?old @ detached l @ dropped l))"
    using shrinks_split [OF wf shrinks] by (simp add: ac_simps)
  also have "\<dots> = mset (created l)" using inv unfolding life_inv_def by blast
  finally have tags: "mset (map tag (?new @ filter (\<lambda>(sid, _). 0 < in_use w' sid) ?pool @ dropped l @ filter (\<lambda>(sid, _). in_use w' sid = 0) ?pool))
      = mset (created l)" .
  have cover: "hm_contains ?new sid \<or> hm_contains (filter (\<lambda>(sid, _). 0 < in_use w' sid) ?pool) sid" if pos: "in_use w' sid > 0" for sid
  proof -
    obtain s where s: "(sid, s) \<in> set ?old \<or> (sid, s) \<in> set (detached l)"
      using used [OF pos] inv by (force simp: life_inv_def)
    show ?thesis
    proof (cases "hm_contains ?new sid")
      case False
      with s pos have "(sid, s) \<in> set (filter (\<lambda>(sid, _). 0 < in_use w' sid) ?pool)" by auto
      from imageI [OF this, of fst] show ?thesis by (simp only: list.set_map fst_conv) blast
    qed simp
  qed
  have parts: "lf_world (settle w' l) = w'" "created (settle w' l) = created l"
      "detached (settle w' l) = filter (\<lambda>(sid, _). 0 < in_use w' sid) ?pool"
      "dropped (settle w' l) = dropped l @ filter (\<lambda>(sid, _). in_use w' sid = 0) ?pool"
    by (simp_all add: settle_def Let_def)
  have distinct: "distinct (map fst (created l))" using inv by (simp add: life_inv_def)
  show ?thesis
    unfolding life_inv_def parts by (intro conjI allI impI w' distinct tags cover) auto
qed

lemma settle_simps [simp]: "lf_world (settle w' l) = w'" "created (settle w' l) = created l"
  by (simp_all add: settle_def Let_def)

text \<open>The machine of the session manager is the machine seen through its world.\<close>

lemma life_step_world:
  assumes "life_step D A mc l l'" and "life_inv mc l"
  shows "world_step D A mc (lf_world l) (lf_world l') \<or> lf_world l' = lf_world l"
  using assms(1)
proof (cases rule: life_step.cases)
  case (l_commit w who tn t uuid s now conn r' m')
  have "\<not> hm_contains (registered w) uuid"
  proof
    assume "hm_contains (registered w) uuid"
    then have "uuid \<in> set (map fst (map tag (registered w @ detached l @ dropped l)))"
      unfolding map_fst_tag by simp
    moreover have "set (map tag (registered w @ detached l @ dropped l)) = set (created l)"
      using assms(2) l_commit(2) by (metis life_inv_def set_mset_mset)
    ultimately show False using l_commit(4) by (metis list.set_map)
  qed
  from world_step.w_commit [OF l_commit(3) this l_commit(6) [unfolded l_commit(5)], of A] l_commit(1,2)
  show ?thesis by simp
next
  case (l_return w sid)
  with world_step.w_drop [of w sid D A mc] show ?thesis by simp
qed (auto intro: world_step.intros)

lemma commit_registered:
  assumes "open_commit uuid who s m = (res, m')"
  shows "held m' = held m"
    and "sessions (inner (registry m')) = (case res of
      Inl _ \<Rightarrow> sessions (inner (registry m)) | Inr _ \<Rightarrow> hm_insert uuid s (sessions (inner (registry m))))"
  using assms by (auto simp: open_commit_def locked_def Let_def split: if_splits)

lemma hm_insert_new: "\<not> hm_contains m k \<Longrightarrow> hm_insert k v m = m @ [(k, v)]"
  by (induction m) auto

lemma not_created:
  assumes "life_inv mc l" and "uuid \<notin> set (map fst (created l))"
  shows "\<not> hm_contains (registered (lf_world l) @ detached l @ dropped l) uuid"
proof -
  have "set (map tag (registered (lf_world l) @ detached l @ dropped l)) = set (created l)"
    using assms(1) by (metis life_inv_def set_mset_mset)
  then have "set (map fst (map tag (registered (lf_world l) @ detached l @ dropped l))) = set (map fst (created l))"
    by (metis list.set_map)
  then show ?thesis using assms(2) unfolding map_fst_tag by blast
qed

lemma life_step_inv:
  assumes step: "life_step D A mc l l'" and inv: "life_inv mc l"
  shows "life_inv mc l'"
proof -
  have w': "world_inv mc (lf_world l')"
    using life_step_world [OF step inv] inv world_step_inv [of D A mc "lf_world l" "lf_world l'"]
    by (auto simp: life_inv_def)
  from step show ?thesis
  proof (cases rule: life_step.cases)
    case (l_admitted w now who tn t m')
    with w' shrinks_admit [OF l_admitted(3)] show ?thesis by (auto intro!: settle_inv [OF inv])
  next
    case (l_refused w now who tn e m')
    with w' shrinks_admit [OF l_refused(3)] show ?thesis by (auto intro!: settle_inv [OF inv])
  next
    case (l_abort w who tn t e r m')
    with w' shrinks_simple(4) [OF l_abort(4)] show ?thesis by (auto intro!: settle_inv [OF inv])
  next
    case (l_commit w who tn t uuid s now conn r' m')
    have new: "\<not> hm_contains (registered w) uuid"
      using not_created [OF inv l_commit(4)] l_commit(2) by simp
    have "mset (map tag (registered (lf_world l') @ detached l' @ dropped l')) = mset (created l')"
      using inv l_commit(1,2) commit_registered(2) [OF l_commit(6)] hm_insert_new [OF new, of s]
      by (cases r') (auto simp: life_inv_def tag_def)
    with w' inv l_commit(1,2,4) commit_registered [OF l_commit(6)] hm_insert_new [OF new, of s] show ?thesis
      by (cases r') (auto simp: life_inv_def)
  next
    case (l_get w now sid who rs m')
    show ?thesis
      unfolding l_get(1)
    proof (rule settle_inv [OF inv])
      show "world_inv mc (w\<lparr>mgr := m'\<rparr>)" using w' l_get(1) by simp
      show "shrinks (registered (lf_world l)) (registered (w\<lparr>mgr := m'\<rparr>))"
        using shrinks_get(1) [OF l_get(3)] l_get(2) by simp
      show "in_use (lf_world l) x > 0 \<or> hm_contains (registered (lf_world l)) x"
        if "in_use (w\<lparr>mgr := m'\<rparr>) x > 0" for x
        using shrinks_get(2) [OF l_get(3), of x] that l_get(2) by simp
    qed
  next
    case (l_work w sid s s')
    have "connection_cancel s' = connection_cancel s"
      using session_step_identity [OF l_work(5)] by (simp add: identity_def)
    with w' l_work shrinks_replace [OF l_work(4)] show ?thesis by (auto intro!: settle_inv [OF inv])
  next
    case (l_work_detached sid s s')
    have "connection_cancel s' = connection_cancel s"
      using session_step_identity [OF l_work_detached(4)] by (simp add: identity_def)
    then have "map tag (hm_insert sid s' (detached l)) = map tag (detached l)"
      by (rule map_tag_replace [OF l_work_detached(3)])
    moreover from arg_cong [OF this, of "map fst"] have "map fst (hm_insert sid s' (detached l)) = map fst (detached l)"
      by (simp only: map_fst_tag)
    ultimately show ?thesis
      using inv l_work_detached(1) unfolding life_inv_def
      by (simp add: case_prod_unfold) (metis (no_types, lifting) image_iff list.set_map)
  next
    case (l_return w sid)
    with w' show ?thesis by (auto intro!: settle_inv [OF inv] split: if_splits)
  next
    case (l_close w sid who ru m')
    with w' shrinks_simple(1) [OF l_close(3)] show ?thesis by (auto intro!: settle_inv [OF inv])
  next
    case (l_reap w now rn m')
    with w' shrinks_simple(2) [OF l_reap(3)] show ?thesis by (auto intro!: settle_inv [OF inv])
  next
    case (l_begin w)
    with w' show ?thesis by (auto intro!: settle_inv [OF inv] simp: begin_closing_def)
  next
    case (l_take w n m')
    with w' shrinks_simple(3) [OF l_take(4)] show ?thesis by (auto intro!: settle_inv [OF inv])
  qed
qed

interpretation life_machine: inductive_invariant life_start "life_step D A mc" "life_inv mc"
  for D :: "('c, 's, 'k, 'r, 'b, 'sch, 'x) driver_ops" and A :: "('w, 'b, 'f, 'r) arrow_stream" and mc
proof
  show "life_inv mc l" if "life_start l" for l :: "(('c, 's, 'k, 'r, 'b, 'sch, 'w) session, 'k) life"
    using that manager_machine.inv_init [of "lf_world l" mc]
    by (auto simp: life_start_def life_inv_def world_start_def)
qed (rule life_step_inv)

lemma life_inv_distinct:
  assumes "life_inv mc l"
  shows "distinct (map fst (registered (lf_world l) @ detached l @ dropped l))"
proof -
  have "mset (map tag (registered (lf_world l) @ detached l @ dropped l)) = mset (created l)"
    using assms unfolding life_inv_def by blast
  from arg_cong [OF this, of "image_mset fst"]
  have "mset (map fst (map tag (registered (lf_world l) @ detached l @ dropped l))) = mset (map fst (created l))"
    by (simp only: mset_map)
  then show ?thesis
    using assms mset_eq_imp_distinct_iff unfolding map_fst_tag life_inv_def by blast
qed

subsection \<open>Properties\<close>

text \<open>
  C5: every session is cleaned up exactly once, and never while it is in use. In every run of the
  session manager, however sessions are closed, expire or are taken by a shutdown while handlers work on
  them, no session is dropped twice, and none is dropped while it is registered or a handler holds it.
  Once shutdown has taken the sessions and the last handler has returned, the dropped sessions are
  exactly the sessions that were ever created, those included whose open was refused at the last
  moment, and the cleanup of each cancels first the connection that was opened for it.
\<close>

theorem sessions_dropped_exactly_once:
  fixes D :: "('c, 's, 'k, 'r, 'b, 'sch, 'x) driver_ops" and A :: "('w, 'b, 'f, 'r) arrow_stream"
  assumes "reaches life_start (life_step D A mc) l"
  shows "distinct (map fst (dropped l))
    \<and> (\<forall>sid. hm_contains (registered (lf_world l)) sid \<or> in_use (lf_world l) sid > 0 \<longrightarrow> sid \<notin> set (map fst (dropped l)))
    \<and> (world.drained (lf_world l) \<and> (\<forall>sid. in_use (lf_world l) sid = 0) \<longrightarrow>
        mset (map (\<lambda>(sid, s). (sid, hd (fst (session_drop s)))) (dropped l)) = mset (created l))"
proof -
  have inv: "life_inv mc l" using assms by (rule life_machine.inv_reaches)
  note distinct = life_inv_distinct [OF inv]
  have "sid \<notin> set (map fst (dropped l))"
    if "hm_contains (registered (lf_world l)) sid \<or> in_use (lf_world l) sid > 0" for sid
  proof -
    have "sid \<in> set (map fst (registered (lf_world l))) \<union> set (map fst (detached l))"
      using that inv by (auto simp: life_inv_def)
    with distinct show ?thesis by auto
  qed
  moreover have "mset (map (\<lambda>(sid, s). (sid, hd (fst (session_drop s)))) (dropped l)) = mset (created l)"
    if "world.drained (lf_world l)" "\<forall>sid. in_use (lf_world l) sid = 0"
  proof -
    have "registered (lf_world l) = []" using inv that(1) by (simp add: life_inv_def world_inv_def)
    moreover have "detached l = []" using inv that(2) by (cases "detached l") (auto simp: life_inv_def)
    ultimately have "mset (map tag (dropped l)) = mset (created l)" using inv by (simp add: life_inv_def)
    then show ?thesis by (simp add: tag_def session_drop_def)
  qed
  ultimately show ?thesis using distinct by simp
qed

text \<open>A run in which shutdown takes a session while a handler holds it.\<close>

type_synonym demo_life =
  "((nat, bytes list, nat, bytes list, bytes, nat, bytes counting_file) session, nat) life"

definition life_world :: "(string, (nat, bytes list, nat, bytes list, bytes, nat, bytes counting_file) session) hash_map \<Rightarrow>
    bool \<Rightarrow> nat \<Rightarrow> bool \<Rightarrow> demo_world" where
  "life_world ss cl n dr =
     \<lparr>mgr = \<lparr>registry = fresh_mutex \<lparr>sessions = ss, opening_total = 0, opening_by_principal = []\<rparr>,
             closing = cl, held = (\<lambda>_. 0)(''s1'' := n)\<rparr>, pending = [], drained = dr\<rparr>"

definition life_at :: "demo_world \<Rightarrow> _ \<Rightarrow> _ \<Rightarrow> _ \<Rightarrow> demo_life" where
  "life_at w det drp cr = \<lparr>lf_world = w, detached = det, dropped = drp, created = cr\<rparr>"

abbreviation demo_at :: "nat \<Rightarrow> (nat, bytes list, nat, bytes list, bytes, nat, bytes counting_file) session" where
  "demo_at t \<equiv> new_session demo_driver demo_mc t ''al'' ''duck'' demo_target 0"

lemma demo_life_run:
  "reaches life_start (life_step demo_driver demo_stream demo_mc)
     (life_at (life_world [] True 0 True) [] [(''s1'', demo_at 6)] [(''s1'', 1)])"
proof -
  let ?step = "life_step demo_driver demo_stream demo_mc" and ?cr = "[(''s1'', 1)]"
  have start: "reaches life_start ?step (life_at demo_world0 [] [] [])"
    by (rule reaches_init) (simp add: life_start_def life_at_def world_start_def demo_world0_def)
  have admit: "?step (life_at demo_world0 [] [] []) (life_at demo_world1 [] [] [])"
    using l_admitted [of "life_at demo_world0 [] [] []" demo_world0, OF _ demo_admit, of demo_driver demo_stream]
    by (simp add: life_at_def settle_def demo_world0_def demo_world1_def)
  have commit: "?step (life_at demo_world1 [] [] []) (life_at (life_world [(''s1'', demo_at 5)] False 0 False) [] [] ?cr)"
    using l_commit [of "life_at demo_world1 [] [] []" demo_world1, OF _ _ _ refl demo_commit, of demo_stream]
    by (simp add: life_at_def life_world_def demo_world1_def demo_world2_def new_session_def demo_driver_def fun_upd_idem)
  have get: "?step (life_at (life_world [(''s1'', demo_at 5)] False 0 False) [] [] ?cr)
      (life_at (life_world [(''s1'', demo_at 6)] False 1 False) [] [] ?cr)"
    using l_get [of "life_at (life_world [(''s1'', demo_at 5)] False 0 False) [] [] ?cr"
        "life_world [(''s1'', demo_at 5)] False 0 False" demo_mc 6 "''s1''" "''al''" _ _ demo_driver demo_stream]
    by (simp add: life_at_def life_world_def settle_def manager_get_def lookup_job_def locked_def lock_def store_def
        new_session_def elapsed_def demo_mc_def Let_def)
  have begin_closing: "?step (life_at (life_world [(''s1'', demo_at 6)] False 1 False) [] [] ?cr)
      (life_at (life_world [(''s1'', demo_at 6)] True 1 False) [] [] ?cr)"
    using l_begin [of "life_at (life_world [(''s1'', demo_at 6)] False 1 False) [] [] ?cr"
        "life_world [(''s1'', demo_at 6)] False 1 False" demo_driver demo_stream demo_mc]
    by (simp add: life_at_def life_world_def settle_def begin_closing_def)
  have taken: "?step (life_at (life_world [(''s1'', demo_at 6)] True 1 False) [] [] ?cr)
      (life_at (life_world [] True 1 True) [(''s1'', demo_at 6)] [] ?cr)"
    using l_take [of "life_at (life_world [(''s1'', demo_at 6)] True 1 False) [] [] ?cr"
        "life_world [(''s1'', demo_at 6)] True 1 False" 1 _ demo_driver demo_stream demo_mc]
    by (simp add: life_at_def life_world_def settle_def take_sessions_def locked_def store_def)
  have returned: "?step (life_at (life_world [] True 1 True) [(''s1'', demo_at 6)] [] ?cr)
      (life_at (life_world [] True 0 True) [] [(''s1'', demo_at 6)] ?cr)"
    using l_return [of "life_at (life_world [] True 1 True) [(''s1'', demo_at 6)] [] ?cr"
        "life_world [] True 1 True" "''s1''" demo_driver demo_stream demo_mc]
    by (simp add: life_at_def life_world_def settle_def)
  show ?thesis
    by (rule reaches_step, rule reaches_step, rule reaches_step, rule reaches_step, rule reaches_step,
        rule reaches_step, rule start, rule admit, rule commit, rule get, rule begin_closing, rule taken, rule returned)
qed

theorem sessions_dropped_exactly_once_witness:
  "\<exists>l :: demo_life. reaches life_start (life_step demo_driver demo_stream demo_mc) l \<and> world.drained (lf_world l)
     \<and> map fst (dropped l) = [''s1'']
     \<and> mset (map (\<lambda>(sid, s). (sid, hd (fst (session_drop s)))) (dropped l)) = {#(''s1'', d_connection_cancel demo_driver 0)#}"
  using sessions_dropped_exactly_once [OF demo_life_run] demo_life_run
  by (intro exI [of _ "life_at (life_world [] True 0 True) [] [(''s1'', demo_at 6)] [(''s1'', 1)]"])
    (simp add: life_at_def life_world_def demo_driver_def)

end
