(* ===== verification/Managed.thy ===== *)
theory Managed
  imports Backend Service
begin

text \<open>
  The connections and statements of the driver manager (\<open>ManagerConnection\<close> and
  \<open>ManagerStatement\<close> of \<open>crates/grainlift-server/src/backend.rs\<close>): each method of the backend
  interface calls the method of the same name of the managed object, with an option key turned into
  the option type of the ADBC API first. The driver manager itself and the conversions of keys are
  the parameter \<open>managed_driver\<close>. At the end the methods are assembled to the records the session
  layer calls the backend through.
\<close>

subsection \<open>The managed objects\<close>

text \<open>The option values, readers, cancel handles and option keys of the ADBC crates.\<close>

record ('mc, 'ms, 'k, 'r, 'b, 'sch, 'x, 'oc, 'os) managed_driver =
  option_connection_from :: "string \<Rightarrow> 'oc"
  option_statement_from :: "string \<Rightarrow> 'os"
  mgc_get_cancel_handle :: "'mc \<Rightarrow> 'k"
  mgc_new_statement :: "('mc, adbc_error, 'ms) step"
  mgc_set_option :: "'oc \<Rightarrow> option_value \<Rightarrow> ('mc, adbc_error, unit) step"
  mgc_get_option_string :: "'oc \<Rightarrow> ('mc, adbc_error, string) step"
  mgc_get_option_bytes :: "'oc \<Rightarrow> ('mc, adbc_error, bytes) step"
  mgc_get_option_int :: "'oc \<Rightarrow> ('mc, adbc_error, int) step"
  mgc_get_option_double :: "'oc \<Rightarrow> ('mc, adbc_error, 64 word) step"
  mgc_get_info :: "nat set option \<Rightarrow> ('mc, adbc_error, 'r) step"
  mgc_get_objects :: "nat \<Rightarrow> string option \<Rightarrow> string option \<Rightarrow> string option \<Rightarrow> string list option \<Rightarrow> string option \<Rightarrow> ('mc, adbc_error, 'r) step"
  mgc_get_table_schema :: "string option \<Rightarrow> string option \<Rightarrow> string \<Rightarrow> ('mc, adbc_error, 'sch) step"
  mgc_get_table_types :: "('mc, adbc_error, 'r) step"
  mgc_get_statistic_names :: "('mc, adbc_error, 'r) step"
  mgc_get_statistics :: "string option \<Rightarrow> string option \<Rightarrow> string option \<Rightarrow> bool \<Rightarrow> ('mc, adbc_error, 'r) step"
  mgc_commit :: "('mc, adbc_error, unit) step"
  mgc_rollback :: "('mc, adbc_error, unit) step"
  mgc_read_partition :: "bytes \<Rightarrow> ('mc, adbc_error, 'r) step"
  mgs_get_cancel_handle :: "'ms \<Rightarrow> 'k"
  mgs_set_option :: "'os \<Rightarrow> option_value \<Rightarrow> ('ms, adbc_error, unit) step"
  mgs_get_option_string :: "'os \<Rightarrow> ('ms, adbc_error, string) step"
  mgs_get_option_bytes :: "'os \<Rightarrow> ('ms, adbc_error, bytes) step"
  mgs_get_option_int :: "'os \<Rightarrow> ('ms, adbc_error, int) step"
  mgs_get_option_double :: "'os \<Rightarrow> ('ms, adbc_error, 64 word) step"
  mgs_bind :: "'b \<Rightarrow> ('ms, adbc_error, unit) step"
  mgs_bind_stream :: "'r \<Rightarrow> ('ms, adbc_error, unit) step"
  mgs_set_sql_query :: "string \<Rightarrow> ('ms, adbc_error, unit) step"
  mgs_set_substrait_plan :: "bytes \<Rightarrow> ('ms, adbc_error, unit) step"
  mgs_prepare :: "('ms, adbc_error, unit) step"
  mgs_execute_query :: "('ms, adbc_error, 'r) step"
  mgs_execute_update :: "('ms, adbc_error, int option) step"
  mgs_execute_schema :: "('ms, adbc_error, 'sch) step"
  mgs_execute_partitions :: "('ms, adbc_error, 'sch \<times> int \<times> bytes list) step"
  mgs_get_parameter_schema :: "('ms, adbc_error, 'sch) step"
  mg_try_cancel :: "'k \<Rightarrow> (adbc_error, unit) result"
  mg_next :: "'r \<Rightarrow> ('x + 'b) option \<times> 'r"
  mg_schema :: "'r \<Rightarrow> 'sch"
  mg_from_arrow :: "'x \<Rightarrow> adbc_error"
  mg_info_code_from :: "u32 \<Rightarrow> nat"
  mg_object_depth_try_from :: "int \<Rightarrow> (adbc_error, nat) result"

record 'mc manager_connection =
  mg_connection :: 'mc

record 'ms manager_statement =
  mg_statement :: 'ms

text \<open>A call of a method of the object a wrapper holds.\<close>

definition on_managed :: "('mc, 'e, 'a) step \<Rightarrow> ('mc manager_connection, 'e, 'a) step" where
  "on_managed f c = (case f (mg_connection c) of (r, x) \<Rightarrow> (r, c\<lparr>mg_connection := x\<rparr>))"

definition on_managed_statement :: "('ms, 'e, 'a) step \<Rightarrow> ('ms manager_statement, 'e, 'a) step" where
  "on_managed_statement f s = (case f (mg_statement s) of (r, x) \<Rightarrow> (r, s\<lparr>mg_statement := x\<rparr>))"

subsection \<open>Connections\<close>

definition connection_cancel_handle ::
  "('mc, 'ms, 'k, 'r, 'b, 'sch, 'x, 'oc, 'os) managed_driver \<Rightarrow> 'mc manager_connection \<Rightarrow> 'k" where
  "connection_cancel_handle M c = mgc_get_cancel_handle M (mg_connection c)"

definition mconn_new_statement ::
  "('mc, 'ms, 'k, 'r, 'b, 'sch, 'x, 'oc, 'os) managed_driver \<Rightarrow>
   ('mc manager_connection, adbc_error, 'ms manager_statement) step" where
  "mconn_new_statement M =
     on_managed (\<lambda>c. case mgc_new_statement M c of
       (r, c') \<Rightarrow> (map_sum (\<lambda>e. e) (\<lambda>st. \<lparr>mg_statement = st\<rparr>) r, c'))"

definition mconn_set_option ::
  "('mc, 'ms, 'k, 'r, 'b, 'sch, 'x, 'oc, 'os) managed_driver \<Rightarrow>
   string \<Rightarrow> option_value \<Rightarrow> ('mc manager_connection, adbc_error, unit) step" where
  "mconn_set_option M key v =
     on_managed (mgc_set_option M (option_connection_from M key) v)"

definition mconn_get_option_string ::
  "('mc, 'ms, 'k, 'r, 'b, 'sch, 'x, 'oc, 'os) managed_driver \<Rightarrow>
   string \<Rightarrow> ('mc manager_connection, adbc_error, string) step" where
  "mconn_get_option_string M key =
     on_managed (mgc_get_option_string M (option_connection_from M key))"

definition mconn_get_option_bytes ::
  "('mc, 'ms, 'k, 'r, 'b, 'sch, 'x, 'oc, 'os) managed_driver \<Rightarrow>
   string \<Rightarrow> ('mc manager_connection, adbc_error, bytes) step" where
  "mconn_get_option_bytes M key =
     on_managed (mgc_get_option_bytes M (option_connection_from M key))"

definition mconn_get_option_int ::
  "('mc, 'ms, 'k, 'r, 'b, 'sch, 'x, 'oc, 'os) managed_driver \<Rightarrow>
   string \<Rightarrow> ('mc manager_connection, adbc_error, int) step" where
  "mconn_get_option_int M key =
     on_managed (mgc_get_option_int M (option_connection_from M key))"

definition mconn_get_option_double ::
  "('mc, 'ms, 'k, 'r, 'b, 'sch, 'x, 'oc, 'os) managed_driver \<Rightarrow>
   string \<Rightarrow> ('mc manager_connection, adbc_error, 64 word) step" where
  "mconn_get_option_double M key =
     on_managed (mgc_get_option_double M (option_connection_from M key))"

definition mconn_get_info ::
  "('mc, 'ms, 'k, 'r, 'b, 'sch, 'x, 'oc, 'os) managed_driver \<Rightarrow>
   nat set option \<Rightarrow> ('mc manager_connection, adbc_error, 'r) step" where
  "mconn_get_info M codes =
     on_managed (mgc_get_info M codes)"

definition mconn_get_objects ::
  "('mc, 'ms, 'k, 'r, 'b, 'sch, 'x, 'oc, 'os) managed_driver \<Rightarrow>
   nat \<Rightarrow> string option \<Rightarrow> string option \<Rightarrow> string option \<Rightarrow> string list option \<Rightarrow> string option \<Rightarrow> ('mc manager_connection, adbc_error, 'r) step" where
  "mconn_get_objects M depth catalog db_schema table_name table_type column_name =
     on_managed (mgc_get_objects M depth catalog db_schema table_name table_type column_name)"

definition mconn_get_table_schema ::
  "('mc, 'ms, 'k, 'r, 'b, 'sch, 'x, 'oc, 'os) managed_driver \<Rightarrow>
   string option \<Rightarrow> string option \<Rightarrow> string \<Rightarrow> ('mc manager_connection, adbc_error, 'sch) step" where
  "mconn_get_table_schema M catalog db_schema table_name =
     on_managed (mgc_get_table_schema M catalog db_schema table_name)"

definition mconn_get_table_types ::
  "('mc, 'ms, 'k, 'r, 'b, 'sch, 'x, 'oc, 'os) managed_driver \<Rightarrow>
   ('mc manager_connection, adbc_error, 'r) step" where
  "mconn_get_table_types M =
     on_managed (mgc_get_table_types M)"

definition mconn_get_statistic_names ::
  "('mc, 'ms, 'k, 'r, 'b, 'sch, 'x, 'oc, 'os) managed_driver \<Rightarrow>
   ('mc manager_connection, adbc_error, 'r) step" where
  "mconn_get_statistic_names M =
     on_managed (mgc_get_statistic_names M)"

definition mconn_get_statistics ::
  "('mc, 'ms, 'k, 'r, 'b, 'sch, 'x, 'oc, 'os) managed_driver \<Rightarrow>
   string option \<Rightarrow> string option \<Rightarrow> string option \<Rightarrow> bool \<Rightarrow> ('mc manager_connection, adbc_error, 'r) step" where
  "mconn_get_statistics M catalog db_schema table_name approximate =
     on_managed (mgc_get_statistics M catalog db_schema table_name approximate)"

definition mconn_commit ::
  "('mc, 'ms, 'k, 'r, 'b, 'sch, 'x, 'oc, 'os) managed_driver \<Rightarrow>
   ('mc manager_connection, adbc_error, unit) step" where
  "mconn_commit M =
     on_managed (mgc_commit M)"

definition mconn_rollback ::
  "('mc, 'ms, 'k, 'r, 'b, 'sch, 'x, 'oc, 'os) managed_driver \<Rightarrow>
   ('mc manager_connection, adbc_error, unit) step" where
  "mconn_rollback M =
     on_managed (mgc_rollback M)"

definition mconn_read_partition ::
  "('mc, 'ms, 'k, 'r, 'b, 'sch, 'x, 'oc, 'os) managed_driver \<Rightarrow>
   bytes \<Rightarrow> ('mc manager_connection, adbc_error, 'r) step" where
  "mconn_read_partition M descriptor =
     on_managed (mgc_read_partition M descriptor)"

subsection \<open>Statements\<close>

definition mstmt_set_option ::
  "('mc, 'ms, 'k, 'r, 'b, 'sch, 'x, 'oc, 'os) managed_driver \<Rightarrow>
   string \<Rightarrow> option_value \<Rightarrow> ('ms manager_statement, adbc_error, unit) step" where
  "mstmt_set_option M key v =
     on_managed_statement (mgs_set_option M (option_statement_from M key) v)"

definition mstmt_get_option_string ::
  "('mc, 'ms, 'k, 'r, 'b, 'sch, 'x, 'oc, 'os) managed_driver \<Rightarrow>
   string \<Rightarrow> ('ms manager_statement, adbc_error, string) step" where
  "mstmt_get_option_string M key =
     on_managed_statement (mgs_get_option_string M (option_statement_from M key))"

definition mstmt_get_option_bytes ::
  "('mc, 'ms, 'k, 'r, 'b, 'sch, 'x, 'oc, 'os) managed_driver \<Rightarrow>
   string \<Rightarrow> ('ms manager_statement, adbc_error, bytes) step" where
  "mstmt_get_option_bytes M key =
     on_managed_statement (mgs_get_option_bytes M (option_statement_from M key))"

definition mstmt_get_option_int ::
  "('mc, 'ms, 'k, 'r, 'b, 'sch, 'x, 'oc, 'os) managed_driver \<Rightarrow>
   string \<Rightarrow> ('ms manager_statement, adbc_error, int) step" where
  "mstmt_get_option_int M key =
     on_managed_statement (mgs_get_option_int M (option_statement_from M key))"

definition mstmt_get_option_double ::
  "('mc, 'ms, 'k, 'r, 'b, 'sch, 'x, 'oc, 'os) managed_driver \<Rightarrow>
   string \<Rightarrow> ('ms manager_statement, adbc_error, 64 word) step" where
  "mstmt_get_option_double M key =
     on_managed_statement (mgs_get_option_double M (option_statement_from M key))"

definition mstmt_bind ::
  "('mc, 'ms, 'k, 'r, 'b, 'sch, 'x, 'oc, 'os) managed_driver \<Rightarrow>
   'b \<Rightarrow> ('ms manager_statement, adbc_error, unit) step" where
  "mstmt_bind M b =
     on_managed_statement (mgs_bind M b)"

definition mstmt_bind_stream ::
  "('mc, 'ms, 'k, 'r, 'b, 'sch, 'x, 'oc, 'os) managed_driver \<Rightarrow>
   'r \<Rightarrow> ('ms manager_statement, adbc_error, unit) step" where
  "mstmt_bind_stream M rd =
     on_managed_statement (mgs_bind_stream M rd)"

definition mstmt_set_sql_query ::
  "('mc, 'ms, 'k, 'r, 'b, 'sch, 'x, 'oc, 'os) managed_driver \<Rightarrow>
   string \<Rightarrow> ('ms manager_statement, adbc_error, unit) step" where
  "mstmt_set_sql_query M query =
     on_managed_statement (mgs_set_sql_query M query)"

definition mstmt_set_substrait_plan ::
  "('mc, 'ms, 'k, 'r, 'b, 'sch, 'x, 'oc, 'os) managed_driver \<Rightarrow>
   bytes \<Rightarrow> ('ms manager_statement, adbc_error, unit) step" where
  "mstmt_set_substrait_plan M plan =
     on_managed_statement (mgs_set_substrait_plan M plan)"

definition mstmt_prepare ::
  "('mc, 'ms, 'k, 'r, 'b, 'sch, 'x, 'oc, 'os) managed_driver \<Rightarrow>
   ('ms manager_statement, adbc_error, unit) step" where
  "mstmt_prepare M =
     on_managed_statement (mgs_prepare M)"

definition mstmt_execute_query ::
  "('mc, 'ms, 'k, 'r, 'b, 'sch, 'x, 'oc, 'os) managed_driver \<Rightarrow>
   ('ms manager_statement, adbc_error, 'r) step" where
  "mstmt_execute_query M =
     on_managed_statement (mgs_execute_query M)"

definition mstmt_execute_update ::
  "('mc, 'ms, 'k, 'r, 'b, 'sch, 'x, 'oc, 'os) managed_driver \<Rightarrow>
   ('ms manager_statement, adbc_error, int option) step" where
  "mstmt_execute_update M =
     on_managed_statement (mgs_execute_update M)"

definition mstmt_execute_schema ::
  "('mc, 'ms, 'k, 'r, 'b, 'sch, 'x, 'oc, 'os) managed_driver \<Rightarrow>
   ('ms manager_statement, adbc_error, 'sch) step" where
  "mstmt_execute_schema M =
     on_managed_statement (mgs_execute_schema M)"

definition mstmt_execute_partitions ::
  "('mc, 'ms, 'k, 'r, 'b, 'sch, 'x, 'oc, 'os) managed_driver \<Rightarrow>
   ('ms manager_statement, adbc_error, 'sch \<times> int \<times> bytes list) step" where
  "mstmt_execute_partitions M =
     on_managed_statement (mgs_execute_partitions M)"

definition mstmt_get_parameter_schema ::
  "('mc, 'ms, 'k, 'r, 'b, 'sch, 'x, 'oc, 'os) managed_driver \<Rightarrow>
   ('ms manager_statement, adbc_error, 'sch) step" where
  "mstmt_get_parameter_schema M =
     on_managed_statement (mgs_get_parameter_schema M)"

definition statement_cancel_handle ::
  "('mc, 'ms, 'k, 'r, 'b, 'sch, 'x, 'oc, 'os) managed_driver \<Rightarrow> 'ms manager_statement \<Rightarrow> 'k" where
  "statement_cancel_handle M s = mgs_get_cancel_handle M (mg_statement s)"

subsection \<open>The backend the sessions use\<close>

definition managed_ops ::
  "('mc, 'ms, 'k, 'r, 'b, 'sch, 'x, 'oc, 'os) managed_driver \<Rightarrow>
   ('mc manager_connection, 'ms manager_statement, 'k, 'r, 'b, 'sch, 'x) driver_ops" where
  "managed_ops M =
     \<lparr>d_new_statement = mconn_new_statement M, d_set_option = mconn_set_option M,
      d_commit = mconn_commit M, d_rollback = mconn_rollback M,
      d_connection_cancel = connection_cancel_handle M, d_cancel_handle = statement_cancel_handle M,
      d_try_cancel = mg_try_cancel M, d_bind = mstmt_bind M, d_bind_stream = mstmt_bind_stream M,
      d_next = mg_next M, d_schema = mg_schema M, d_from_arrow = mg_from_arrow M\<rparr>"

definition managed_calls ::
  "('mc, 'ms, 'k, 'r, 'b, 'sch, 'x, 'oc, 'os) managed_driver \<Rightarrow>
   ('mc manager_connection, 'ms manager_statement, 'r, 'sch) driver_calls" where
  "managed_calls M =
     \<lparr>c_get_option_string = mconn_get_option_string M, c_get_option_bytes = mconn_get_option_bytes M,
      c_get_option_int = mconn_get_option_int M, c_get_option_double = mconn_get_option_double M,
      c_get_info = mconn_get_info M, c_get_objects = mconn_get_objects M,
      c_get_table_schema = mconn_get_table_schema M, c_get_table_types = mconn_get_table_types M,
      c_get_statistic_names = mconn_get_statistic_names M, c_get_statistics = mconn_get_statistics M,
      c_read_partition = mconn_read_partition M,
      s_set_option = mstmt_set_option M, s_get_option_string = mstmt_get_option_string M,
      s_get_option_bytes = mstmt_get_option_bytes M, s_get_option_int = mstmt_get_option_int M,
      s_get_option_double = mstmt_get_option_double M, s_set_sql_query = mstmt_set_sql_query M,
      s_set_substrait_plan = mstmt_set_substrait_plan M, s_prepare = mstmt_prepare M,
      s_execute_query = mstmt_execute_query M, s_execute_update = mstmt_execute_update M,
      s_execute_schema = mstmt_execute_schema M, s_get_parameter_schema = mstmt_get_parameter_schema M,
      s_execute_partitions = mstmt_execute_partitions M,
      info_code_from = mg_info_code_from M, object_depth_try_from = mg_object_depth_try_from M\<rparr>"

text \<open>\<open>DriverManagerBackend::open\<close>: the connection is handed out in its wrapper.\<close>

definition managed_open ::
  "(string \<Rightarrow> bytes option) \<Rightarrow> ('drv, 'db, 'mc) driver_manager \<Rightarrow> target_config \<Rightarrow>
   (string \<times> option_value) list \<Rightarrow> (string \<times> option_value) list \<Rightarrow> (adbc_error, 'mc manager_connection) result" where
  "managed_open dec dm target dbo co =
     try_bind (backend_open dec dm target dbo co) (\<lambda>c. Inr \<lparr>mg_connection = c\<rparr>)"

subsection \<open>The wrappers are transparent\<close>

lemma on_managed_iff [simp]:
  "on_managed f c = (r, c') \<longleftrightarrow> f (mg_connection c) = (r, mg_connection c')"
  by (cases c; cases c') (auto simp: on_managed_def split: prod.splits)

lemma on_managed_statement_iff [simp]:
  "on_managed_statement f s = (r, s') \<longleftrightarrow> f (mg_statement s) = (r, mg_statement s')"
  by (cases s; cases s') (auto simp: on_managed_statement_def split: prod.splits)

lemma managed_open_Inr:
  "managed_open dec dm target dbo co = Inr c \<longleftrightarrow> backend_open dec dm target dbo co = Inr (mg_connection c)"
  by (cases c) (auto simp: managed_open_def result_iffs)

text \<open>A statement the session creates is one the managed connection created.\<close>

lemma mconn_new_statement_Inr:
  "mconn_new_statement M c = (Inr s, c') \<longleftrightarrow>
   mgc_new_statement M (mg_connection c) = (Inr (mg_statement s), mg_connection c')"
  by (cases s; cases "fst (mgc_new_statement M (mg_connection c))")
    (auto simp: mconn_new_statement_def split: prod.splits)

end
