(* ===== verification/Server_Setup.thy ===== *)
theory Server_Setup
  imports Managed End_To_End
begin

text \<open>
  How the server process sets itself up from its configuration
  (\<open>crates/grainlift-server/src/main.rs\<close> and \<open>Config::from_path\<close> of \<open>config.rs\<close>): the session manager
  and the service it runs, the authenticator of the HTTP listener, the identity policy of the Iroh
  listener, the TLS material of the TCP listener. Files, the TOML parser, TLS and the authentication
  of the RPC library are parameters. The last section proves what a validated configuration enforces.
\<close>

subsection \<open>Reading the configuration\<close>

record config_source =
  read_to_string :: "string \<Rightarrow> (string, string) result"
  toml_from_str :: "string \<Rightarrow> (string, config) result"

definition from_toml :: "config_source \<Rightarrow> string \<Rightarrow> (message, config) result" where
  "from_toml F contents =
     try_bind (map_err (\<lambda>e. [Str e]) (toml_from_str F contents)) (\<lambda>c.
     try_bind (config_validate c) (\<lambda>_. Inr c))"

definition from_path :: "config_source \<Rightarrow> string \<Rightarrow> (message, config) result" where
  "from_path F path =
     try_bind (map_err (\<lambda>e. [Str e]) (read_to_string F path)) (\<lambda>contents. from_toml F contents)"

subsection \<open>The service\<close>

record args =
  ar_config :: string
  ar_server_id :: "string option"

definition server_id :: "args \<Rightarrow> nat \<Rightarrow> message" where
  "server_id args pid =
     (case ar_server_id args of Some given \<Rightarrow> [Str given] | None \<Rightarrow> [Lit ''grainlift-'', Num (int pid)])"

text \<open>\<open>Duration::from_secs\<close>, in nanoseconds.\<close>

definition from_secs :: "nat \<Rightarrow> nat" where
  "from_secs s = s * 1000000000"

definition session_manager_of :: "config \<Rightarrow> bytes \<Rightarrow> manager_config \<times> 'S manager" where
  "session_manager_of c random_key =
     manager_new (targets c) (from_secs (session_ttl_seconds (server c))) (require_authentication (server c))
       (session_limits_of (server c)) (target_authorizer_of c)
       (from_secs (driver_operation_timeout_seconds (server c))) random_key"

text \<open>What the service needs besides the configuration: the managed driver and the libraries.\<close>

record ('drv, 'db, 'mc, 'ms, 'k, 'r, 'sch, 'x, 'oc, 'os, 'w, 'f) platform =
  pl_manager :: "('drv, 'db, 'mc) driver_manager"
  pl_managed :: "('mc, 'ms, 'k, 'r, record_batch, 'sch, 'x, 'oc, 'os) managed_driver"
  pl_stream :: "('w, record_batch, 'f, 'r) arrow_stream"
  pl_writer :: "'sch \<Rightarrow> 'f \<Rightarrow> (string, 'w) result"
  pl_library :: "'sch library"
  pl_from_base64 :: "string \<Rightarrow> bytes option"
  pl_random_key :: bytes

definition server_of_config ::
  "('drv, 'db, 'mc, 'ms, 'k, 'r, 'sch, 'x, 'oc, 'os, 'w, 'f) platform \<Rightarrow> config \<Rightarrow>
   ('mc manager_connection, 'ms manager_statement, 'k, 'r, 'sch, 'x, 'w, 'f) service" where
  "server_of_config P c =
     \<lparr>sv_mc = fst (session_manager_of c (pl_random_key P) :: manager_config \<times> unit manager),
      sv_ops = managed_ops (pl_managed P), sv_calls = managed_calls (pl_managed P), sv_stream = pl_stream P,
      sv_writer = pl_writer P, sv_backend = managed_open (pl_from_base64 P) (pl_manager P),
      sv_lib = pl_library P, sv_max_bind_bytes = max_bind_bytes (server c)\<rparr>"

subsection \<open>Authentication\<close>

text \<open>The authentication context of the RPC library, with its claims.\<close>

record identity = auth_context +
  claims :: "(string, string) hash_map"

record jwt_config =
  jc_issuer :: string
  jc_audience :: string
  jc_jwks_url :: string
  jc_principal_claim :: string
  jc_refresh_interval :: nat
  jc_leeway :: nat

record ('ev, 'id, 'h, 'y) auth_library =
  for_principal :: "string \<Rightarrow> string \<Rightarrow> identity"
  unique_verified_subject :: "'ev \<Rightarrow> string \<Rightarrow> ('y, 'id) result"
  subject_key :: "'id \<Rightarrow> string option"
  jwt_authenticate :: "jwt_config \<Rightarrow> 'h \<Rightarrow> ('y, identity) result"
  bearer_authenticate_static :: "(string, identity) hash_map \<Rightarrow> 'h \<Rightarrow> ('y, identity) result"

definition jwt_config_of :: "jwt_auth_config \<Rightarrow> jwt_config" where
  "jwt_config_of j =
     \<lparr>jc_issuer = jwt_issuer j, jc_audience = audience j, jc_jwks_url = jwks_url j,
      jc_principal_claim = principal_claim j, jc_refresh_interval = from_secs (refresh_interval_seconds j),
      jc_leeway = from_secs (leeway_seconds j)\<rparr>"

definition bearer_table :: "('ev, 'id, 'h, 'y) auth_library \<Rightarrow> auth_config \<Rightarrow> (string, identity) hash_map" where
  "bearer_table U a =
     hm_from_list (map (\<lambda>(token, owner). (token, for_principal U ''bearer'' owner)) (static_bearer_tokens a))"

definition build_authenticator ::
  "('ev, 'id, 'h, 'y) auth_library \<Rightarrow> auth_config \<Rightarrow> 'h \<Rightarrow> ('y, identity) result" where
  "build_authenticator U a =
     (case jwt a of
        Some j \<Rightarrow> jwt_authenticate U (jwt_config_of j)
      | None \<Rightarrow> bearer_authenticate_static U (bearer_table U a))"

text \<open>A policy fails with the error of the evidence or with a permission error of its own.\<close>

datatype 'y policy_error = EvidenceError 'y | PermissionError string

definition iroh_policy ::
  "('ev, 'id, 'h, 'y) auth_library \<Rightarrow> (string, string) hash_map \<Rightarrow> bool \<Rightarrow> 'ev \<Rightarrow> identity \<Rightarrow>
   ('y policy_error, identity) result" where
  "iroh_policy U principals require_auth evidence existing =
     try_bind (map_err EvidenceError (unique_verified_subject U evidence ''iroh'')) (\<lambda>subject.
     try_bind (ok_or (PermissionError ''Iroh endpoint identity is missing'') (subject_key U subject)) (\<lambda>endpoint.
     case hm_get principals endpoint of
       Some owner \<Rightarrow>
         (let ctx = for_principal U ''iroh'' owner
          in Inr (ctx\<lparr>claims := hm_insert ''subject'' endpoint (claims ctx)\<rparr>))
     | None \<Rightarrow>
         if require_auth \<or> principals \<noteq> [] then Inl (PermissionError ''Iroh endpoint is not authorized'')
         else Inr existing))"

record ('h, 'y) http_state =
  hs_authenticate :: "'h \<Rightarrow> ('y, identity) result"
  hs_max_body_size :: nat
  hs_max_request_bytes :: nat
  hs_request_timeout :: nat

definition http_state_of :: "('ev, 'id, 'h, 'y) auth_library \<Rightarrow> config \<Rightarrow> ('h, 'y) http_state" where
  "http_state_of U c =
     \<lparr>hs_authenticate = build_authenticator U (config.auth c), hs_max_body_size = max_request_body_bytes (server c),
      hs_max_request_bytes = max_request_body_bytes (server c),
      hs_request_timeout = from_secs (request_timeout_seconds (server c))\<rparr>"

subsection \<open>TLS material\<close>

record 't tls_library =
  tl_pem_file_iter :: "string \<Rightarrow> (string, (string, bytes) result list) result"
  tl_from_pem_file :: "string \<Rightarrow> (string, bytes) result"
  tl_add_root :: "bytes \<Rightarrow> (string, unit) result"
  tl_mutual :: "bytes list \<Rightarrow> bytes \<Rightarrow> bytes list \<Rightarrow> string list \<Rightarrow> (string, 't) result"
  tl_with_handshake_timeout :: "nat \<Rightarrow> 't \<Rightarrow> (string, 't) result"

definition server_certificates :: "'t tls_library \<Rightarrow> string \<Rightarrow> (message, bytes list) result" where
  "server_certificates T path =
     try_bind (map_err (\<lambda>e. [Str e]) (tl_pem_file_iter T path)) (\<lambda>items.
     try_bind (map_err (\<lambda>e. [Str e]) (collect_results (\<lambda>c. c) items)) (\<lambda>certificates.
     if certificates = [] then Inl [Lit ''certificate file '', Dbg path, Lit '' contains no certificates'']
     else Inr certificates))"

definition read_server_key :: "'t tls_library \<Rightarrow> string \<Rightarrow> (message, bytes) result" where
  "read_server_key T path = map_err (\<lambda>e. [Str e]) (tl_from_pem_file T path)"

fun add_roots :: "'t tls_library \<Rightarrow> bytes list \<Rightarrow> bytes list \<Rightarrow> (message, bytes list) result" where
  "add_roots T roots [] = Inr roots"
| "add_roots T roots (c # cs) =
     try_bind (map_err (\<lambda>e. [Str e]) (tl_add_root T c)) (\<lambda>_. add_roots T (roots @ [c]) cs)"

definition build_tcp_tls :: "'t tls_library \<Rightarrow> tcp_tls_config \<Rightarrow> (message, 't) result" where
  "build_tcp_tls T c =
     try_bind (server_certificates T (server_certificate_chain c)) (\<lambda>certificates.
     try_bind (read_server_key T (server_private_key c)) (\<lambda>private_key.
     try_bind (server_certificates T (client_ca c)) (\<lambda>authorities.
     try_bind (add_roots T [] authorities) (\<lambda>client_roots.
     try_bind (map_err (\<lambda>e. [Str e]) (tl_mutual T certificates private_key client_roots (trust_domains c))) (\<lambda>t.
     map_err (\<lambda>e. [Str e]) (tl_with_handshake_timeout T (from_secs (handshake_timeout_seconds c)) t))))))"

subsection \<open>Observability and health\<close>

text \<open>The environment: the variables that are set, and the text of those that are valid Unicode.\<close>

record environment =
  var :: "string \<Rightarrow> string option"
  var_os :: "string \<Rightarrow> bool"

definition ascii_lower :: "char \<Rightarrow> char" where
  "ascii_lower c = (if CHR ''A'' \<le> c \<and> c \<le> CHR ''Z'' then char_of (of_char c + 32 :: nat) else c)"

definition eq_ignore_ascii_case :: "string \<Rightarrow> string \<Rightarrow> bool" where
  "eq_ignore_ascii_case a b \<longleftrightarrow> map ascii_lower a = map ascii_lower b"

definition otlp_enabled :: "environment \<Rightarrow> bool" where
  "otlp_enabled V =
     (let disabled = (case var V ''OTEL_SDK_DISABLED'' of Some value \<Rightarrow> eq_ignore_ascii_case value ''true'' | None \<Rightarrow> False)
      in \<not> disabled \<and> (var_os V ''OTEL_EXPORTER_OTLP_ENDPOINT'' \<or> var_os V ''OTEL_EXPORTER_OTLP_TRACES_ENDPOINT''))"

definition init_observability :: "environment \<Rightarrow> (string, 'v) result \<Rightarrow> (message, 'v option) result" where
  "init_observability V provider =
     (if otlp_enabled V then try_bind (map_err (\<lambda>e. [Str e]) provider) (\<lambda>v. Inr (Some v)) else Inr None)"

text \<open>The routes besides the RPC router, with the status they answer.\<close>

definition liveness :: nat where
  "liveness = 204"

definition readiness :: nat where
  "readiness = 204"

definition health_routes :: "(string \<times> nat) list" where
  "health_routes = [(''/healthz'', liveness), (''/readyz'', readiness)]"

subsection \<open>What the authentication library promises\<close>

text \<open>A context made for a principal is authenticated and names it.\<close>

definition names_principals :: "('ev, 'id, 'h, 'y) auth_library \<Rightarrow> bool" where
  "names_principals U \<longleftrightarrow>
     (\<forall>domain owner. authenticated (for_principal U domain owner)
        \<and> auth_domain (for_principal U domain owner) = domain \<and> auth_principal (for_principal U domain owner) = owner)"

text \<open>The static authenticator authenticates only the holder of a token of its table.\<close>

definition checks_tokens :: "('ev, 'id, 'h, 'y) auth_library \<Rightarrow> ('h \<Rightarrow> string option) \<Rightarrow> bool" where
  "checks_tokens U bearer \<longleftrightarrow>
     (\<forall>table h ctx. bearer_authenticate_static U table h = Inr ctx \<longrightarrow> authenticated ctx \<longrightarrow>
        (\<exists>token. bearer h = Some token \<and> hm_get table token = Some ctx))"

subsection \<open>Lemmas\<close>

lemma from_path_valid: "from_path F path = Inr c \<Longrightarrow> config_validate c = Inr ()"
  by (auto simp: from_path_def from_toml_def result_iffs)

lemma server_of_config_parts:
  "mc_targets (sv_mc (server_of_config P c)) = targets c"
  "mc_require_authentication (sv_mc (server_of_config P c)) = require_authentication (server c)"
  "mc_authorizer (sv_mc (server_of_config P c)) = target_authorizer_of c"
  "sv_backend (server_of_config P c) = managed_open (pl_from_base64 P) (pl_manager P)"
  "sv_ops (server_of_config P c) = managed_ops (pl_managed P)"
  "sv_lib (server_of_config P c) = pl_library P"
  by (simp_all add: server_of_config_def session_manager_of_def manager_new_def)

lemma bearer_table_get:
  assumes "hm_wf (static_bearer_tokens a)"
  shows "hm_get (bearer_table U a) token
    = map_option (for_principal U ''bearer'') (hm_get (static_bearer_tokens a) token)"
  by (simp add: bearer_table_def hm_from_list_map [OF assms])

text \<open>With static tokens, an authenticated caller is the owner of the token it presented.\<close>

lemma static_authenticator:
  assumes "names_principals U" and "checks_tokens U bearer" and "hm_wf (static_bearer_tokens a)" and "jwt a = None"
    and "build_authenticator U a h = Inr ctx" and "authenticated ctx"
  obtains token owner where "bearer h = Some token" "(token, owner) \<in> set (static_bearer_tokens a)"
    "auth_domain ctx = ''bearer''" "auth_principal ctx = owner"
proof -
  obtain token where "bearer h = Some token" and ctx: "hm_get (bearer_table U a) token = Some ctx"
    using assms(2,4-6) by (force simp: build_authenticator_def checks_tokens_def)
  moreover obtain owner where "hm_get (static_bearer_tokens a) token = Some owner" "ctx = for_principal U ''bearer'' owner"
    using ctx by (auto simp: bearer_table_get [OF assms(3)])
  ultimately show ?thesis
    using assms(1,3) by (intro that) (auto simp: names_principals_def hm_wf_entry_iff)
qed


subsection \<open>Connections a configuration permits\<close>

text \<open>The permission table lets the principal reach the target; an empty table lets everyone through.\<close>

definition table_permits :: "config \<Rightarrow> string \<Rightarrow> string \<Rightarrow> string \<Rightarrow> bool" where
  "table_permits c domain owner target \<longleftrightarrow>
     (let perms = target_permissions (config.auth c)
      in perms = []
         \<or> (\<exists>(who, ts) \<in> set perms.
              (who = owner \<or> who = domain @ nul # owner) \<and> (target \<in> set ts \<or> ''*'' \<in> set ts)))"

text \<open>
  The session holds a connection to the configured target \<open>tc\<close> that the driver manager opened with
  the option sets the configuration prescribes for what the client sent.
\<close>

definition opened_as_configured where
  "opened_as_configured P tc args s \<longleftrightarrow>
     (\<exists>dbo co drv dbopts copts db.
        named_options_into_adbc (oc_database_options args) = Inr dbo
        \<and> named_options_into_adbc (oc_connection_options args) = Inr co
        \<and> load_from_name (pl_manager P) (driver tc) (entrypoint tc) = Inr drv
        \<and> Backend.new_database_with_opts (pl_manager P) drv dbopts = Inr db
        \<and> Backend.new_connection_with_opts (pl_manager P) db copts = Inr (mg_connection (inner (connection s)))
        \<and> as_configured (pl_from_base64 P) (database_options tc) (database_option_policy tc) dbo dbopts
        \<and> as_configured (pl_from_base64 P) (connection_options tc) (connection_option_policy tc) co copts)"

lemma opened_as_configuredI:
  assumes "named_options_into_adbc (oc_database_options args) = Inr dbo"
    and "named_options_into_adbc (oc_connection_options args) = Inr co"
    and "backend_open (pl_from_base64 P) (pl_manager P) tc dbo co = Inr (mg_connection (inner (connection s)))"
    and "validate_target name tc = Inr ()"
  shows "opened_as_configured P tc args s"
  unfolding opened_as_configured_def
  by (rule operator_options_win [OF assms(3,4)]) (use assms(1,2) in blast)

lemma authorized_table:
  assumes "authorizer_allows (target_authorizer_of c) (domain @ nul # owner) target"
    and "hm_wf (target_permissions (config.auth c))" and "nul \<notin> set domain"
  shows "table_permits c domain owner target"
  using assms(1) authorizer_follows_table [OF assms(2,3), of owner target]
  by (auto simp: target_authorizer_of_def table_permits_def Let_def)

text \<open>An open by an authenticated principal of the configured server.\<close>

lemma configured_open:
  assumes valid: "config_validate c = Inr ()" and perms: "hm_wf (target_permissions (config.auth c))"
    and ctx: "authenticated ctx" "nul \<notin> set (auth_domain ctx)"
    and opened: "open_connection (server_of_config P c) a req
      \<lparr>call_context.auth = auth_context.truncate ctx, response_limit_bytes = limit\<rparr> m = (Inr reply, m')"
  obtains args tc s where
    "Service.typed_request (pl_library P) (t_open_connection (l_types (pl_library P))) open_request_validate req = Inr args"
    "table_permits c (auth_domain ctx) (auth_principal ctx) (oc_target args)" "(oc_target args, tc) \<in> set (targets c)"
    "hm_get (sessions (inner (registry m'))) (a_uuid a) = Some s"
    "s_principal s = auth_domain ctx @ nul # auth_principal ctx" "s_target s = oc_target args"
    "opened_as_configured P tc args s"
proof -
  let ?E = "server_of_config P c"
  from opened obtain args who dbo co tc conn where
    args: "Service.typed_request (sv_lib ?E) (t_open_connection (l_types (sv_lib ?E))) open_request_validate req = Inr args"
    and who: "caller ?E \<lparr>call_context.auth = auth_context.truncate ctx, response_limit_bytes = limit\<rparr> = Inr who"
    and opts: "named_options_into_adbc (oc_database_options args) = Inr dbo"
      "named_options_into_adbc (oc_connection_options args) = Inr co"
    and allowed: "authorizer_allows (mc_authorizer (sv_mc ?E)) who (oc_target args)"
    and tc: "hm_get (mc_targets (sv_mc ?E)) (oc_target args) = Some tc" and conn: "sv_backend ?E tc dbo co = Inr conn"
    and s: "hm_get (sessions (inner (registry m'))) (a_uuid a)
      = Some (new_session (sv_ops ?E) (sv_mc ?E) (a_now a) who (oc_target args) tc conn)"
    by (rule open_connection_Inr)
  have who_eq: "who = auth_domain ctx @ nul # auth_principal ctx"
    using who ctx(1) by (auto simp: caller_def principal_of_def auth_context.truncate_def)
  have target: "(oc_target args, tc) \<in> set (targets c)"
    using tc by (simp add: server_of_config_parts map_of_SomeD)
  have "opened_as_configured P tc args (new_session (sv_ops ?E) (sv_mc ?E) (a_now a) who (oc_target args) tc conn)"
    using conn opts config_validate_ok(7) [OF valid target]
    by (intro opened_as_configuredI) (auto simp: server_of_config_parts managed_open_Inr new_session_def)
  with args target s authorized_table [OF _ perms ctx(2)] allowed who_eq show ?thesis
    by (intro that) (auto simp: server_of_config_parts new_session_def)
qed

subsection \<open>Properties\<close>

text \<open>
  C7: a configured server opens downstream connections only as its configuration says. Suppose the
  configuration was read from its file, requires authentication and lists static bearer tokens. When
  an HTTP request passes the authenticator and opens a connection, the request carried a token of the
  table; the owner of the token may reach the requested target by the permission table; the target
  is configured; the downstream driver received the operator's value for every option the operator
  configured, and for any other key the client's value, if the policy of the target permits it; and the
  session that holds the connection belongs to the owner of the token.
\<close>

theorem configured_server_enforces_policy:
  assumes read: "from_path F path = Inr c" and required: "require_authentication (server c)"
    and static: "jwt (config.auth c) = None"
    and tables: "hm_wf (static_bearer_tokens (config.auth c))" "hm_wf (target_permissions (config.auth c))"
    and library: "names_principals U" "checks_tokens U bearer"
    and passed: "hs_authenticate (http_state_of U c) h = Inr ctx"
    and opened: "open_connection (server_of_config P c) a req
      \<lparr>call_context.auth = auth_context.truncate ctx, response_limit_bytes = limit\<rparr> m = (Inr reply, m')"
  shows "\<exists>token owner args tc s. bearer h = Some token
    \<and> (token, owner) \<in> set (static_bearer_tokens (config.auth c))
    \<and> Service.typed_request (pl_library P) (t_open_connection (l_types (pl_library P))) open_request_validate req = Inr args
    \<and> table_permits c ''bearer'' owner (oc_target args) \<and> (oc_target args, tc) \<in> set (targets c)
    \<and> hm_get (sessions (inner (registry m'))) (a_uuid a) = Some s
    \<and> s_principal s = ''bearer'' @ nul # owner \<and> s_target s = oc_target args
    \<and> opened_as_configured P tc args s"
proof -
  have ctx: "authenticated ctx"
    using opened required
    by (auto simp: caller_def principal_of_def server_of_config_parts auth_context.truncate_def
        elim!: open_connection_Inr split: if_splits)
  obtain token owner where token: "bearer h = Some token" "(token, owner) \<in> set (static_bearer_tokens (config.auth c))"
      "auth_domain ctx = ''bearer''" "auth_principal ctx = owner"
    using static_authenticator [OF library tables(1) static _ ctx, of h] passed by (auto simp: http_state_of_def)
  then have "nul \<notin> set (auth_domain ctx)" by simp
  from configured_open [OF from_path_valid [OF read] tables(2) ctx this opened] token show ?thesis by metis
qed

text \<open>
  C12: an Iroh peer is the principal its endpoint is mapped to. Suppose a validated configuration
  requires authentication and serves Iroh. When a peer's evidence passes the identity policy, the
  evidence proves an endpoint that the table maps to a principal, the identity carries that endpoint
  as its subject, and a connection the peer opens is held by a session of the mapped principal, on a
  target the permission table grants it. A peer whose endpoint is not in the table gets no identity.
\<close>

theorem iroh_peer_is_mapped_principal:
  assumes valid: "config_validate c = Inr ()" and required: "require_authentication (server c)" and iroh: "iroh c = Some i"
    and perms: "hm_wf (target_permissions (config.auth c))" and library: "names_principals U"
    and passed: "iroh_policy U (iroh_principals i) (require_authentication (server c)) evidence existing = Inr ctx"
  shows "\<exists>subject endpoint owner. unique_verified_subject U evidence ''iroh'' = Inr subject
    \<and> subject_key U subject = Some endpoint \<and> hm_get (iroh_principals i) endpoint = Some owner
    \<and> endpoint_id_ok endpoint \<and> hm_get (claims ctx) ''subject'' = Some endpoint
    \<and> (open_connection (server_of_config P c) a req
          \<lparr>call_context.auth = auth_context.truncate ctx, response_limit_bytes = limit\<rparr> m = (Inr reply, m') \<longrightarrow>
        (\<exists>args tc s. Service.typed_request (pl_library P) (t_open_connection (l_types (pl_library P))) open_request_validate req = Inr args
           \<and> table_permits c ''iroh'' owner (oc_target args) \<and> (oc_target args, tc) \<in> set (targets c)
           \<and> hm_get (sessions (inner (registry m'))) (a_uuid a) = Some s
           \<and> s_principal s = ''iroh'' @ nul # owner \<and> opened_as_configured P tc args s))"
proof -
  from passed required obtain subject endpoint owner where
    found: "unique_verified_subject U evidence ''iroh'' = Inr subject" "subject_key U subject = Some endpoint"
      "hm_get (iroh_principals i) endpoint = Some owner"
    and ctx_eq: "ctx = (for_principal U ''iroh'' owner)\<lparr>claims := hm_insert ''subject'' endpoint (claims (for_principal U ''iroh'' owner))\<rparr>"
    by (auto simp: iroh_policy_def result_iffs ok_or_def Let_def split: option.splits)
  have ctx: "authenticated ctx" "auth_domain ctx = ''iroh''" "auth_principal ctx = owner"
    using library by (simp_all add: ctx_eq names_principals_def)
  have "endpoint_id_ok endpoint"
    using validate_iroh_ok [OF config_validate_ok(4) [OF valid iroh]] found(3) by (auto dest: map_of_SomeD)
  moreover have "hm_get (claims ctx) ''subject'' = Some endpoint" by (simp add: ctx_eq)
  moreover have "\<exists>args tc s. Service.typed_request (pl_library P) (t_open_connection (l_types (pl_library P))) open_request_validate req = Inr args
         \<and> table_permits c ''iroh'' owner (oc_target args) \<and> (oc_target args, tc) \<in> set (targets c)
         \<and> hm_get (sessions (inner (registry m'))) (a_uuid a) = Some s
         \<and> s_principal s = ''iroh'' @ nul # owner \<and> opened_as_configured P tc args s"
    if "open_connection (server_of_config P c) a req
      \<lparr>call_context.auth = auth_context.truncate ctx, response_limit_bytes = limit\<rparr> m = (Inr reply, m')"
    by (rule configured_open [OF valid perms ctx(1) _ that]) (use ctx(2,3) in auto)
  ultimately show ?thesis using found by blast
qed

subsection \<open>A configured server at work\<close>

type_synonym demo_connection = "(string, option_value) hash_map"

definition list_managed ::
  "(demo_connection, record_batch list, nat, record_batch list, record_batch, nat, string, string, string) managed_driver"
  where
  "list_managed =
     \<lparr>option_connection_from = (\<lambda>k. k), option_statement_from = (\<lambda>k. k),
      mgc_get_cancel_handle = length, mgc_new_statement = (\<lambda>c. (Inr [], c)),
      mgc_set_option = (\<lambda>k v c. (Inr (), hm_insert k v c)),
      mgc_get_option_string = (\<lambda>k c. (Inr k, c)), mgc_get_option_bytes = (\<lambda>k c. (Inr [], c)),
      mgc_get_option_int = (\<lambda>k c. (Inr 0, c)), mgc_get_option_double = (\<lambda>k c. (Inr 0, c)),
      mgc_get_info = (\<lambda>codes c. (Inr [], c)), mgc_get_objects = (\<lambda>d a b t ts col c. (Inr [], c)),
      mgc_get_table_schema = (\<lambda>a b t c. (Inr 0, c)), mgc_get_table_types = (\<lambda>c. (Inr [], c)),
      mgc_get_statistic_names = (\<lambda>c. (Inr [], c)), mgc_get_statistics = (\<lambda>a b t e c. (Inr [], c)),
      mgc_commit = (\<lambda>c. (Inr (), c)), mgc_rollback = (\<lambda>c. (Inr (), c)), mgc_read_partition = (\<lambda>d c. (Inr [demo_batch d], c)),
      mgs_get_cancel_handle = length, mgs_set_option = (\<lambda>k v st. (Inr (), st)),
      mgs_get_option_string = (\<lambda>k st. (Inr k, st)), mgs_get_option_bytes = (\<lambda>k st. (Inr [], st)),
      mgs_get_option_int = (\<lambda>k st. (Inr 0, st)), mgs_get_option_double = (\<lambda>k st. (Inr 0, st)),
      mgs_bind = (\<lambda>b st. (Inr (), [b])), mgs_bind_stream = (\<lambda>rd st. (Inr (), rd)),
      mgs_set_sql_query = (\<lambda>q st. (Inr (), st)), mgs_set_substrait_plan = (\<lambda>q st. (Inr (), st)),
      mgs_prepare = (\<lambda>st. (Inr (), st)), mgs_execute_query = (\<lambda>st. (Inr st, st)),
      mgs_execute_update = (\<lambda>st. (Inr None, st)), mgs_execute_schema = (\<lambda>st. (Inr 0, st)),
      mgs_execute_partitions = (\<lambda>st. (Inr (3, 0, [[9]]), st)), mgs_get_parameter_schema = (\<lambda>st. (Inr 0, st)),
      mg_try_cancel = (\<lambda>k. Inr ()),
      mg_next = (\<lambda>rd. case rd of [] \<Rightarrow> (None, []) | b # bs \<Rightarrow> (Some (Inr b), bs)), mg_schema = length,
      mg_from_arrow = (\<lambda>e. internal [Str e]), mg_info_code_from = unat, mg_object_depth_try_from = (\<lambda>n. Inr (nat n))\<rparr>"

definition demo_platform ::
  "(string, string, demo_connection, record_batch list, nat, record_batch list, nat, string, string, string,
    record_batch list counting_file, record_batch list) platform" where
  "demo_platform =
     \<lparr>pl_manager = demo_manager, pl_managed = list_managed, pl_stream = list_stream,
      pl_writer = (\<lambda>sch f. Inr \<lparr>cf_file = f, written = 0\<rparr>), pl_library = list_lib,
      pl_from_base64 = (\<lambda>_. None), pl_random_key = []\<rparr>"

text \<open>Evidence is the verified endpoint, if any; a request carries its bearer token, if any.\<close>

definition demo_auth :: "(string option, string, string option, string) auth_library" where
  "demo_auth =
     \<lparr>for_principal = (\<lambda>domain owner. \<lparr>authenticated = True, auth_domain = domain, auth_principal = owner, claims = []\<rparr>),
      unique_verified_subject = (\<lambda>ev method. ok_or ''unverified'' ev), subject_key = Some,
      jwt_authenticate = (\<lambda>j h. Inl ''no key set''),
      bearer_authenticate_static = (\<lambda>table h. case h of
         None \<Rightarrow> Inl ''no token'' | Some token \<Rightarrow> ok_or ''unknown token'' (hm_get table token))\<rparr>"

definition demo_initial ::
  "(demo_connection manager_connection, record_batch list manager_statement, nat, record_batch list, nat,
    record_batch list counting_file) service_manager" where
  "demo_initial = snd (session_manager_of demo_config [])"

definition demo_source :: config_source where
  "demo_source = \<lparr>read_to_string = (\<lambda>_. Inr ''''), toml_from_str = (\<lambda>_. Inr demo_config)\<rparr>"

lemma demo_auth_laws: "names_principals demo_auth" "checks_tokens demo_auth (\<lambda>h. h)"
  by (auto simp: names_principals_def checks_tokens_def demo_auth_def ok_or_def split: option.splits)

lemma demo_source_reads: "from_path demo_source path = Inr demo_config"
  by (simp add: from_path_def from_toml_def demo_source_def demo_config_valid)

lemma demo_tables:
  "require_authentication (server demo_config)" "jwt (config.auth demo_config) = None"
  "hm_wf (static_bearer_tokens (config.auth demo_config))" "hm_wf (target_permissions (config.auth demo_config))"
  by (simp_all add: demo_config_def default_server_config_def hm_wf_def)

lemma demo_platform_parts:
  "pl_from_base64 demo_platform = (\<lambda>_. None)" "pl_manager demo_platform = demo_manager"
  "pl_library demo_platform = list_lib" "targets demo_config = [(''duck'', demo_target)]"
  "mc_limits (sv_mc (server_of_config demo_platform demo_config)) = session_limits_of default_server_config"
  by (simp_all add: demo_platform_def demo_config_def server_of_config_def session_manager_of_def manager_new_def)

text \<open>Opening the configured target on behalf of a principal called alice.\<close>

lemma demo_configured_open:
  assumes "authenticated ctx" and "auth_principal ctx = ''alice''" and "nul \<notin> set (auth_domain ctx)"
  obtains m' where "open_connection (server_of_config demo_platform demo_config) (calm ''s1'') (open_request ''duck'')
      \<lparr>call_context.auth = auth_context.truncate ctx, response_limit_bytes = None\<rparr>
      demo_initial = (Inr (result_batch (packed (str_bytes ''s1''))), m')"
proof -
  let ?E = "server_of_config demo_platform demo_config" and ?who = "auth_domain ctx @ nul # ''alice''"
  have open_eq: "managed_open (\<lambda>_. None) demo_manager demo_target [] [] = Inr \<lparr>mg_connection = []\<rparr>"
    by (simp add: managed_open_def backend_open_def demo_manager_def demo_target_def merge_options_def
        rejected_keys_def hm_from_list_def)
  have allowed: "authorizer_allows (target_authorizer_of demo_config) ?who ''duck''"
    using assms(3) by (simp add: target_authorizer_of_def authorizer_follows_table demo_tables(4)) (simp add: demo_config_def)
  have "\<exists>m'. manager_open (sv_ops ?E) (sv_mc ?E) (\<lambda>t. sv_backend ?E t [] []) 5 OpenReplied (Inr ()) ''s1'' ?who ''duck'' demo_initial
      = (Inr ''s1'', m')"
    using allowed open_eq
    by (simp add: manager_open_def st_bind_def open_admit_def server_of_config_parts
        reserve_open_def reap_expired_def locked_def admit_def demo_initial_def session_manager_of_def manager_new_def open_result_def
        open_commit_def release_open_reservation_locked_def hm_count_def Let_def demo_platform_parts
        session_limits_of_def default_server_config_def)
  then obtain m' where "manager_open (sv_ops ?E) (sv_mc ?E) (\<lambda>t. sv_backend ?E t [] []) 5 OpenReplied (Inr ()) ''s1'' ?who ''duck'' demo_initial
      = (Inr ''s1'', m')" by blast
  moreover have "caller ?E \<lparr>call_context.auth = auth_context.truncate ctx, response_limit_bytes = None\<rparr> = Inr ?who"
    using assms by (simp add: caller_def principal_of_def auth_context.truncate_def)
  ultimately show ?thesis
    using list_open_request [of "''duck''"] list_session_reply [of "''s1''"]
    by (intro that [of m'])
      (simp add: open_connection_def calm_def proto_def named_options_into_adbc_def server_of_config_parts demo_platform_parts
        adbc_def st_bind_def ret_def handle_response_def response_limit_def list_lib_def)
qed


theorem configured_server_enforces_policy_witness:
  "\<exists>m' s. open_connection (server_of_config demo_platform demo_config) (calm ''s1'') (open_request ''duck'')
       \<lparr>call_context.auth = auth_context.truncate (for_principal demo_auth ''bearer'' ''alice''), response_limit_bytes = None\<rparr>
       demo_initial = (Inr (result_batch (packed (str_bytes ''s1''))), m')
     \<and> hm_get (sessions (inner (registry m'))) ''s1'' = Some s \<and> s_principal s = ''bearer'' @ nul # ''alice''
     \<and> table_permits demo_config ''bearer'' ''alice'' ''duck''"
proof -
  let ?ctx = "for_principal demo_auth ''bearer'' ''alice''"
  have passed: "hs_authenticate (http_state_of demo_auth demo_config) (Some ''s3cret'') = Inr ?ctx"
    by (simp add: http_state_of_def build_authenticator_def demo_tables(2) bearer_table_def demo_config_def hm_from_list_def
        demo_auth_def ok_or_def)
  obtain m' where m': "open_connection (server_of_config demo_platform demo_config) (calm ''s1'') (open_request ''duck'')
      \<lparr>call_context.auth = auth_context.truncate ?ctx, response_limit_bytes = None\<rparr>
      demo_initial = (Inr (result_batch (packed (str_bytes ''s1''))), m')"
    by (rule demo_configured_open [of ?ctx]) (simp_all add: demo_auth_def)
  from configured_server_enforces_policy [OF demo_source_reads demo_tables demo_auth_laws passed m'] list_open_request [of "''duck''"]
  show ?thesis using m' by (auto simp: demo_platform_parts demo_config_def calm_def list_lib_def)
qed

definition demo_endpoint :: string where
  "demo_endpoint = replicate 64 CHR ''a''"

definition demo_anonymous :: identity where
  "demo_anonymous = \<lparr>authenticated = False, auth_domain = [], auth_principal = [], claims = []\<rparr>"

definition iroh_demo_config :: config where
  "iroh_demo_config =
     demo_config\<lparr>iroh := Some \<lparr>iroh_issuer = ''grainlift'', secret_key_file = ''key'', endpoint_info_file = None,
        iroh_principals = [(demo_endpoint, ''alice'')], disable_relays = True, max_active_streams = 8,
        max_active_streams_per_connection = 4\<rparr>\<rparr>"

lemma iroh_demo_config_valid: "config_validate iroh_demo_config = Inr ()"
  using demo_config_valid
  by (simp add: iroh_demo_config_def config_validate_def validate_iroh_def demo_endpoint_def endpoint_id_ok_def is_lower_hex_def
      blank_def is_whitespace_def list_all_iff Let_def result_iffs)

lemma iroh_demo_server: "server_of_config P iroh_demo_config = server_of_config P demo_config"
  by (simp add: server_of_config_def session_manager_of_def target_authorizer_of_def iroh_demo_config_def)

theorem iroh_peer_is_mapped_principal_witness:
  "\<exists>ctx m' s. iroh_policy demo_auth [(demo_endpoint, ''alice'')] True (Some demo_endpoint) demo_anonymous = Inr ctx
     \<and> hm_get (claims ctx) ''subject'' = Some demo_endpoint
     \<and> open_connection (server_of_config demo_platform iroh_demo_config) (calm ''s1'') (open_request ''duck'')
         \<lparr>call_context.auth = auth_context.truncate ctx, response_limit_bytes = None\<rparr> demo_initial
       = (Inr (result_batch (packed (str_bytes ''s1''))), m')
     \<and> hm_get (sessions (inner (registry m'))) ''s1'' = Some s \<and> s_principal s = ''iroh'' @ nul # ''alice''"
proof -
  let ?e = demo_endpoint and ?a = "for_principal demo_auth ''iroh'' ''alice''"
  let ?ctx = "?a\<lparr>claims := hm_insert ''subject'' ?e (claims ?a)\<rparr>"
  let ?i = "the (iroh iroh_demo_config)"
  have parts: "require_authentication (server iroh_demo_config)" "iroh iroh_demo_config = Some ?i"
    "hm_wf (target_permissions (config.auth iroh_demo_config))" "iroh_principals ?i = [(?e, ''alice'')]"
    using demo_tables by (simp_all add: iroh_demo_config_def)
  have passed: "iroh_policy demo_auth (iroh_principals ?i) (require_authentication (server iroh_demo_config)) (Some ?e) demo_anonymous = Inr ?ctx"
    by (simp add: iroh_policy_def parts(1,4) demo_auth_def ok_or_def)
  obtain m' where m': "open_connection (server_of_config demo_platform iroh_demo_config) (calm ''s1'') (open_request ''duck'')
      \<lparr>call_context.auth = auth_context.truncate ?ctx, response_limit_bytes = None\<rparr> demo_initial
      = (Inr (result_batch (packed (str_bytes ''s1''))), m')"
    unfolding iroh_demo_server by (rule demo_configured_open [of ?ctx]) (simp_all add: demo_auth_def)
  obtain s where "hm_get (sessions (inner (registry m'))) ''s1'' = Some s" "s_principal s = ''iroh'' @ nul # ''alice''"
    using iroh_peer_is_mapped_principal [OF iroh_demo_config_valid parts(1-3) demo_auth_laws(1) passed, of demo_platform] m' parts(4)
    by (fastforce simp: calm_def demo_auth_def ok_or_def)
  with m' passed [unfolded parts(4)] parts(1) show ?thesis by (intro exI [of _ ?ctx]) auto
qed

end
