(* ===== verification/Server_Process.thy ===== *)
theory Server_Process
  imports Server_Setup
begin

text \<open>
  The life of the server process (\<open>main\<close> of \<open>crates/grainlift-server/src/main.rs\<close>): the listeners are
  started one after the other, requests are served and expired sessions reaped until a signal arrives
  or a listener ends, and then the process shuts down: new work is refused, all sessions are closed,
  the listeners are awaited for a grace period and given up after it. The tasks run concurrently, so
  the process is a step relation over its state: the steps of \<open>main\<close> itself, and the steps of
  everything else, which are the segments of requests of the theory \<open>Manager\<close>, the ticks of the
  reaper, the end of a listener and the passing of time. Sockets, files and Iroh are parameters.
\<close>

subsection \<open>Tasks\<close>

text \<open>How a spawned task ended: it was joined with an error (a panic), or it returned.\<close>

datatype task_exit = JoinError string | TaskReturned "(message, unit) result"

text \<open>\<open>task.await??\<close>\<close>

fun exit_result :: "task_exit \<Rightarrow> (message, unit) result" where
  "exit_result (JoinError e) = Inl [Str e]"
| "exit_result (TaskReturned r) = r"

datatype listener = Http | Tcp | Iroh

fun listener_name :: "listener \<Rightarrow> string" where
  "listener_name Http = ''HTTP''"
| "listener_name Tcp = ''TCP''"
| "listener_name Iroh = ''Iroh''"

definition exit_error :: "string \<Rightarrow> task_exit \<Rightarrow> message" where
  "exit_error text x = (case exit_result x of Inl e \<Rightarrow> e | Inr _ \<Rightarrow> [Lit text])"

text \<open>
  A listener's task. Aborting cancels an asynchronous task; the TCP listener runs on a thread of its
  own, which cannot be cancelled and is only detached.
\<close>

datatype task = Absent | Running | Ended task_exit | Aborted | Detached

fun abort_task :: "listener \<Rightarrow> task \<Rightarrow> task" where
  "abort_task l Running = (if l = Tcp then Detached else Aborted)"
| "abort_task l t = t"

subsection \<open>Starting the listeners\<close>

text \<open>What becomes of a TCP listener: it reports its address, or its task ends before that.\<close>

datatype serve_start = Bound string | Unbound task_exit

record ('t, 'e, 'fs) host =
  ho_bind :: "socket_addr \<Rightarrow> (string, unit) result"
  ho_tls :: "'t tls_library"
  ho_serve_tcp :: "socket_addr \<Rightarrow> serve_start"
  ho_serve_tcp_with_mtls_identity :: "socket_addr \<Rightarrow> 't \<Rightarrow> string \<Rightarrow> serve_start"
  ho_tcp_stopped :: "task_exit option"
  ho_read_to_string :: "string \<Rightarrow> (string, string) result"
  ho_secret_key :: "string \<Rightarrow> (string, string) result"
  ho_bind_endpoint :: "string \<Rightarrow> bool \<Rightarrow> (string, 'e) result"
  ho_endpoint_id :: "'e \<Rightarrow> string"
  ho_ip_addrs :: "'e \<Rightarrow> string list"
  ho_to_vec_pretty :: "string \<Rightarrow> string list \<Rightarrow> (string, bytes) result"
  ho_write :: "string \<Rightarrow> bytes \<Rightarrow> 'fs \<Rightarrow> (string, unit) result \<times> 'fs"

definition start_tcp_listener :: "('t, 'e, 'fs) host \<Rightarrow> tcp_config \<Rightarrow> (message, unit) result" where
  "start_tcp_listener H t =
     (let startup =
        (case tls t of
           Some c \<Rightarrow>
             (case build_tcp_tls (ho_tls H) c of
                Inl e \<Rightarrow> Unbound (TaskReturned (Inl e))
              | Inr mutual \<Rightarrow> ho_serve_tcp_with_mtls_identity H (tcp_listen t) mutual ''spiffe'')
         | None \<Rightarrow> ho_serve_tcp H (tcp_listen t))
      in case startup of
           Bound _ \<Rightarrow> Inr ()
         | Unbound x \<Rightarrow> Inl (exit_error ''TCP listener exited before binding'' x))"

record ('e, 'ev, 'y) iroh_server =
  is_endpoint :: 'e
  is_issuer :: string
  is_policy :: "'ev \<Rightarrow> identity \<Rightarrow> ('y policy_error, identity) result"
  is_max_active_streams :: nat
  is_max_active_streams_per_connection :: nat

definition write_endpoint_info ::
  "('t, 'e, 'fs) host \<Rightarrow> iroh_config \<Rightarrow> 'e \<Rightarrow> ('fs, message, unit) step" where
  "write_endpoint_info H i endpoint fs =
     (case endpoint_info_file i of
        None \<Rightarrow> (Inr (), fs)
      | Some path \<Rightarrow>
          (case ho_to_vec_pretty H (ho_endpoint_id H endpoint) (ho_ip_addrs H endpoint) of
             Inl e \<Rightarrow> (Inl [Str e], fs)
           | Inr json \<Rightarrow> (case ho_write H path json fs of (r, fs') \<Rightarrow> (map_err (\<lambda>e. [Str e]) r, fs'))))"

definition start_iroh_listener ::
  "('t, 'e, 'fs) host \<Rightarrow> ('ev, 'id, 'h, 'y) auth_library \<Rightarrow> iroh_config \<Rightarrow> bool \<Rightarrow>
   ('fs, message, ('e, 'ev, 'y) iroh_server) step" where
  "start_iroh_listener H U i require_auth =
     st_bind (\<lambda>fs. (map_err (\<lambda>e. [Str e]) (ho_read_to_string H (secret_key_file i)), fs)) (\<lambda>contents.
     st_bind (\<lambda>fs. (map_err (\<lambda>e. [Str e]) (ho_secret_key H (trim contents)), fs)) (\<lambda>secret.
     st_bind (\<lambda>fs. (map_err (\<lambda>e. [Str e]) (ho_bind_endpoint H secret (disable_relays i)), fs)) (\<lambda>endpoint.
     st_bind (write_endpoint_info H i endpoint) (\<lambda>_ fs.
     (Inr \<lparr>is_endpoint = endpoint, is_issuer = iroh_issuer i, is_policy = iroh_policy U (iroh_principals i) require_auth,
        is_max_active_streams = max_active_streams i,
        is_max_active_streams_per_connection = max_active_streams_per_connection i\<rparr>, fs)))))"

subsection \<open>The process\<close>

text \<open>
  Where \<open>main\<close> stands: in its \<open>select!\<close>, before it has closed the sessions, awaiting the listeners that
  are still to be joined, or returned.
\<close>

datatype phase = Serving | Closing | Draining "listener list" | Exited "(message, unit) result"

record 'S process =
  pr_phase :: phase
  pr_world :: "'S world"
  pr_tasks :: "listener \<Rightarrow> task"
  pr_joined :: "listener \<Rightarrow> bool"
  pr_shutdown :: bool
  pr_tcp_shutdown :: bool
  pr_reaper :: bool
  pr_error :: "message option"
  pr_clock :: nat
  pr_deadline :: nat

definition serving :: "'S manager \<Rightarrow> task \<Rightarrow> task \<Rightarrow> nat \<Rightarrow> 'S process" where
  "serving m tcp_task iroh_task now =
     \<lparr>pr_phase = Serving, pr_world = \<lparr>mgr = m, pending = [], drained = False\<rparr>,
      pr_tasks = (\<lambda>l. case l of Http \<Rightarrow> Running | Tcp \<Rightarrow> tcp_task | Iroh \<Rightarrow> iroh_task), pr_joined = (\<lambda>_. False),
      pr_shutdown = False, pr_tcp_shutdown = False, pr_reaper = True, pr_error = None, pr_clock = now, pr_deadline = 0\<rparr>"

text \<open>A failed start names the state of the TCP task and of its shutdown flag.\<close>

datatype 'S start_outcome = Started "'S process" | StartFailed message task bool | StartHangs

text \<open>The Iroh listener could not start: the TCP listener is told to stop and awaited.\<close>

definition abandon_start :: "('t, 'e, 'fs) host \<Rightarrow> task \<Rightarrow> message \<Rightarrow> 'S start_outcome" where
  "abandon_start H tcp_task e =
     (if tcp_task = Absent then StartFailed e Absent True
      else
        (case ho_tcp_stopped H of
           None \<Rightarrow> StartHangs
         | Some x \<Rightarrow> StartFailed (case exit_result x of Inl e' \<Rightarrow> e' | Inr _ \<Rightarrow> e) (Ended x) True))"

definition start_server ::
  "('t, 'e, 'fs) host \<Rightarrow> ('ev, 'id, 'h, 'y) auth_library \<Rightarrow> config \<Rightarrow> 'S manager \<Rightarrow> nat \<Rightarrow> 'fs \<Rightarrow>
   'S start_outcome \<times> 'fs" where
  "start_server H U c m now fs =
     (case ho_bind H (listen (server c)) of
        Inl e \<Rightarrow> (StartFailed [Str e] Absent False, fs)
      | Inr _ \<Rightarrow>
          (case (case tcp c of
                   None \<Rightarrow> Inr Absent
                 | Some t \<Rightarrow> try_bind (start_tcp_listener H t) (\<lambda>_. Inr Running)) of
             Inl e \<Rightarrow> (StartFailed e Absent False, fs)
           | Inr tcp_task \<Rightarrow>
               (case iroh c of
                  None \<Rightarrow> (Started (serving m tcp_task Absent now), fs)
                | Some i \<Rightarrow>
                    (case start_iroh_listener H U i (require_authentication (server c)) fs of
                       (Inr _, fs') \<Rightarrow> (Started (serving m tcp_task Running now), fs')
                     | (Inl e, fs') \<Rightarrow> (abandon_start H tcp_task e, fs')))))"

text \<open>The start of \<open>main\<close>: tracing, the configuration, the session manager, the listeners.\<close>

definition main_start ::
  "environment \<Rightarrow> (string, 'v) result \<Rightarrow> config_source \<Rightarrow> ('t, 'e, 'fs) host \<Rightarrow> ('ev, 'id, 'h, 'y) auth_library \<Rightarrow>
   args \<Rightarrow> bytes \<Rightarrow> nat \<Rightarrow> 'fs \<Rightarrow> (message, config \<times> 'v option \<times> 'S start_outcome) result \<times> 'fs" where
  "main_start V provider F H U args key now fs =
     (case try_bind (init_observability V provider) (\<lambda>tracer.
           try_bind (from_path F (ar_config args)) (\<lambda>c. Inr (c, tracer))) of
        Inl e \<Rightarrow> (Inl e, fs)
      | Inr (c, tracer) \<Rightarrow>
          (case start_server H U c (snd (session_manager_of c key)) now fs of
             (outcome, fs') \<Rightarrow> (Inr (c, tracer, outcome), fs')))"

subsection \<open>Signals\<close>

text \<open>
  The two signal futures: still pending, completed by the signal, or completed because the handler
  could not be installed, which is only logged.
\<close>

datatype signal_future = Waiting | Delivered | NotInstalled string

definition shutdown_signal :: "signal_future \<Rightarrow> signal_future \<Rightarrow> bool" where
  "shutdown_signal ctrl_c terminate \<longleftrightarrow> ctrl_c \<noteq> Waiting \<or> terminate \<noteq> Waiting"

subsection \<open>Shutting down\<close>

text \<open>The branch of the \<open>select!\<close>: the signal, or the listener that ended.\<close>

definition select_stop :: "(listener \<times> task_exit) option \<Rightarrow> 'S process \<Rightarrow> 'S process" where
  "select_stop ended p =
     (case ended of
        None \<Rightarrow> p
      | Some (l, x) \<Rightarrow>
          p\<lparr>pr_joined := (pr_joined p)(l := True),
            pr_error := Some (exit_error (listener_name l @ '' listener exited unexpectedly'') x)\<rparr>)"

definition begin_shutdown :: "'S process \<Rightarrow> 'S process" where
  "begin_shutdown p =
     p\<lparr>pr_phase := Closing, pr_shutdown := True, pr_tcp_shutdown := True,
       pr_world := (pr_world p)\<lparr>mgr := begin_closing (mgr (pr_world p))\<rparr>\<rparr>"

definition to_join :: "'S process \<Rightarrow> listener list" where
  "to_join p = filter (\<lambda>l. pr_tasks p l \<noteq> Absent \<and> \<not> pr_joined p l) [Http, Tcp, Iroh]"

definition close_sessions :: "nat \<Rightarrow> 'S process \<Rightarrow> 'S process" where
  "close_sessions grace p =
     (case take_sessions (mgr (pr_world p)) of
        (Inr _, m') \<Rightarrow>
          p\<lparr>pr_phase := Draining (to_join p), pr_world := (pr_world p)\<lparr>mgr := m', drained := True\<rparr>,
            pr_deadline := pr_clock p + grace\<rparr>
      | (Inl e, m') \<Rightarrow>
          p\<lparr>pr_phase := Exited (Inl (message e)), pr_world := (pr_world p)\<lparr>mgr := m'\<rparr>\<rparr>)"

definition join_listener :: "listener \<Rightarrow> task_exit \<Rightarrow> listener list \<Rightarrow> 'S process \<Rightarrow> 'S process" where
  "join_listener l x ls p =
     (case exit_result x of
        Inl e \<Rightarrow> p\<lparr>pr_phase := Exited (Inl e), pr_joined := (pr_joined p)(l := True)\<rparr>
      | Inr _ \<Rightarrow> p\<lparr>pr_phase := Draining ls, pr_joined := (pr_joined p)(l := True)\<rparr>)"

definition expire_drain :: "'S process \<Rightarrow> 'S process" where
  "expire_drain p = p\<lparr>pr_phase := Draining [], pr_tasks := (\<lambda>l. abort_task l (pr_tasks p l))\<rparr>"

text \<open>The end of \<open>main\<close>; \<open>flush\<close> is what shutting down the tracer provider gives, if there is one.\<close>

definition finish_main :: "(string, unit) result option \<Rightarrow> 'S process \<Rightarrow> 'S process" where
  "finish_main flush p =
     p\<lparr>pr_reaper := False,
       pr_phase := Exited
         (case flush of
            Some (Inl e) \<Rightarrow> Inl [Str e]
          | _ \<Rightarrow> (case pr_error p of None \<Rightarrow> Inr () | Some e \<Rightarrow> Inl e))\<rparr>"

text \<open>One tick of the reaper; an error is only logged.\<close>

definition reaper_tick ::
  "manager_config \<Rightarrow> nat \<Rightarrow> ('c, 's, 'k, 'r, 'b, 'sch, 'w) session process \<Rightarrow> ('c, 's, 'k, 'r, 'b, 'sch, 'w) session process" where
  "reaper_tick mc now p =
     p\<lparr>pr_world := (pr_world p)\<lparr>mgr := snd (reap_expired mc now (mgr (pr_world p)))\<rparr>\<rparr>"

text \<open>The steps of \<open>main\<close>, between its await points.\<close>

inductive main_step :: "nat \<Rightarrow> (string, unit) result option \<Rightarrow> 'S process \<Rightarrow> 'S process \<Rightarrow> bool"
  for grace flush where
  m_signal: "pr_phase p = Serving \<Longrightarrow> shutdown_signal ctrl_c terminate \<Longrightarrow>
     main_step grace flush p (begin_shutdown (select_stop None p))"
| m_listener: "pr_phase p = Serving \<Longrightarrow> pr_tasks p l = Ended x \<Longrightarrow>
     main_step grace flush p (begin_shutdown (select_stop (Some (l, x)) p))"
| m_close: "pr_phase p = Closing \<Longrightarrow> main_step grace flush p (close_sessions grace p)"
| m_join: "pr_phase p = Draining (l # ls) \<Longrightarrow> pr_tasks p l = Ended x \<Longrightarrow>
     main_step grace flush p (join_listener l x ls p)"
| m_deadline: "pr_phase p = Draining (l # ls) \<Longrightarrow> pr_deadline p \<le> pr_clock p \<Longrightarrow>
     main_step grace flush p (expire_drain p)"
| m_finish: "pr_phase p = Draining [] \<Longrightarrow> main_step grace flush p (finish_main flush p)"

text \<open>The steps of the rest of the process, while \<open>main\<close> has not returned.\<close>

definition exited :: "'S process \<Rightarrow> bool" where
  "exited p \<longleftrightarrow> (\<exists>r. pr_phase p = Exited r)"

inductive env_step ::
  "('c, 's, 'k, 'r, 'b, 'sch, 'x) driver_ops \<Rightarrow> ('w, 'b, 'f, 'r) arrow_stream \<Rightarrow> manager_config \<Rightarrow>
   ('c, 's, 'k, 'r, 'b, 'sch, 'w) session process \<Rightarrow> ('c, 's, 'k, 'r, 'b, 'sch, 'w) session process \<Rightarrow> bool"
  for D :: "('c, 's, 'k, 'r, 'b, 'sch, 'x) driver_ops" and A :: "('w, 'b, 'f, 'r) arrow_stream" and mc where
  e_request: "\<not> exited p \<Longrightarrow> world_step D A mc (pr_world p) w \<Longrightarrow> closing (mgr w) = closing (mgr (pr_world p)) \<Longrightarrow>
     world.drained w = world.drained (pr_world p) \<Longrightarrow> env_step D A mc p (p\<lparr>pr_world := w\<rparr>)"
| e_tick: "\<not> exited p \<Longrightarrow> pr_reaper p \<Longrightarrow> env_step D A mc p (reaper_tick mc now p)"
| e_listener_ends: "\<not> exited p \<Longrightarrow> pr_tasks p l \<in> {Running, Detached} \<Longrightarrow>
     env_step D A mc p (p\<lparr>pr_tasks := (pr_tasks p)(l := Ended x)\<rparr>)"
| e_wait: "\<not> exited p \<Longrightarrow> pr_clock p \<le> t \<Longrightarrow> env_step D A mc p (p\<lparr>pr_clock := t\<rparr>)"

definition process_step where
  "process_step D A mc grace flush p p' \<longleftrightarrow> main_step grace flush p p' \<or> env_step D A mc p p'"

lemmas shutdown_defs = select_stop_def begin_shutdown_def close_sessions_def join_listener_def expire_drain_def finish_main_def

inductive_cases main_stepE: "main_step grace flush p p'"

subsection \<open>Signals that cannot be handled\<close>

text \<open>A handler that cannot be installed completes its future, so it counts as a signal.\<close>

lemma uninstalled_handler_shuts_down: "shutdown_signal (NotInstalled e) terminate" "shutdown_signal ctrl_c (NotInstalled e)"
  by (simp_all add: shutdown_signal_def)

subsection \<open>Starting\<close>

lemma serving_fields:
  "pr_phase (serving m t i now) = Serving" "mgr (pr_world (serving m t i now)) = m"
  "pr_tasks (serving m t i now) Http = Running" "pr_tasks (serving m t i now) Tcp = t" "pr_tasks (serving m t i now) Iroh = i"
  by (simp_all add: serving_def)

text \<open>A process the server starts from its configuration.\<close>

definition server_started ::
  "('t, 'e, 'fs) host \<Rightarrow> ('ev, 'id, 'h, 'y) auth_library \<Rightarrow> config \<Rightarrow> bytes \<Rightarrow>
   ('c, 's, 'k, 'r, 'b, 'sch, 'w) session process \<Rightarrow> bool" where
  "server_started H U c key p \<longleftrightarrow>
     (\<exists>now fs fs'. start_server H U c (snd (session_manager_of c key)) now fs = (Started p, fs'))"

text \<open>What \<open>main\<close> starts is a process of the validated configuration it read.\<close>

lemma main_start_Started:
  assumes "main_start V provider F H U args key now fs = (Inr (c, tracer, Started p), fs')"
  shows "server_started H U c key p" and "config_validate c = Inr ()" and "tracer = None \<longleftrightarrow> \<not> otlp_enabled V"
  using assms
  by (auto simp: main_start_def server_started_def init_observability_def result_iffs dest: from_path_valid
      split: sum.splits prod.splits if_splits)

lemma start_server_Started:
  assumes "start_server H U c m now fs = (Started p, fs')"
  obtains t i where "p = serving m t i now" "t \<in> {Absent, Running}" "i \<in> {Absent, Running}"
    "t = Running \<longleftrightarrow> tcp c \<noteq> None" "i = Running \<longleftrightarrow> iroh c \<noteq> None"
  using assms
  by (auto simp: start_server_def abandon_start_def result_iffs split: sum.splits option.splits prod.splits if_splits)

subsection \<open>The invariant of the process\<close>

text \<open>
  A listener that was joined has ended, and without an error as long as nothing was reported.
\<close>

definition joined_ok :: "'S process \<Rightarrow> bool" where
  "joined_ok p \<longleftrightarrow>
     (\<forall>l. pr_joined p l \<longrightarrow>
        (\<exists>x. pr_tasks p l = Ended x
           \<and> (pr_error p = None \<and> (\<forall>e. pr_phase p \<noteq> Exited (Inl e)) \<longrightarrow> exit_result x = Inr ())))"

definition phase_ok :: "'S process \<Rightarrow> bool" where
  "phase_ok p \<longleftrightarrow>
     (case pr_phase p of
        Serving \<Rightarrow> pr_error p = None \<and> (\<forall>l. \<not> pr_joined p l)
      | Closing \<Rightarrow> True
      | Draining ls \<Rightarrow> world.drained (pr_world p) \<and> (\<forall>l. l \<notin> set ls \<longrightarrow> pr_tasks p l \<noteq> Running)
      | Exited r \<Rightarrow> r = Inr () \<longrightarrow>
          pr_error p = None \<and> world.drained (pr_world p) \<and> \<not> pr_reaper p \<and> (\<forall>l. pr_tasks p l \<noteq> Running))"

definition stopped_ok :: "'S process \<Rightarrow> bool" where
  "stopped_ok p \<longleftrightarrow> pr_phase p \<noteq> Serving \<longrightarrow> closing (mgr (pr_world p)) \<and> pr_shutdown p \<and> pr_tcp_shutdown p"

definition process_inv where
  "process_inv D A mc p \<longleftrightarrow>
     reaches world_start (world_step D A mc) (pr_world p) \<and> phase_ok p \<and> joined_ok p \<and> stopped_ok p"

lemma begin_closing_reaches:
  "reaches world_start (world_step D A mc) w \<Longrightarrow>
   reaches world_start (world_step D A mc) (w\<lparr>mgr := begin_closing (mgr w)\<rparr>)"
  by (erule reaches_step) (rule w_begin)

lemma take_sessions_Inl: "take_sessions m = (Inl e, m') \<Longrightarrow> m' = m"
  by (auto simp: take_sessions_def locked_def split: if_splits)

lemma closing_take: "take_sessions m = (r, m') \<Longrightarrow> closing m' = closing m"
  by (auto simp: take_sessions_def locked_def split: if_splits)

lemma begin_shutdown_inv:
  assumes inv: "process_inv D A mc p" and "pr_phase p = Serving"
    and "\<forall>l x. ended = Some (l, x) \<longrightarrow> pr_tasks p l = Ended x"
  shows "process_inv D A mc (begin_shutdown (select_stop ended p))"
proof -
  have "reaches world_start (world_step D A mc) (pr_world p)" "pr_error p = None" "\<forall>l. \<not> pr_joined p l"
    using assms by (simp_all add: process_inv_def phase_ok_def)
  then show ?thesis
    using assms(3) begin_closing_reaches [of D A mc "pr_world p"]
    by (cases ended) (auto simp: process_inv_def phase_ok_def joined_ok_def stopped_ok_def begin_shutdown_def select_stop_def
        begin_closing_def split: if_splits)
qed

lemma set_to_join [simp]: "l \<in> set (to_join p) \<longleftrightarrow> pr_tasks p l \<noteq> Absent \<and> \<not> pr_joined p l"
  unfolding to_join_def set_filter by (cases l) auto

lemma close_sessions_inv:
  assumes inv: "process_inv D A mc p" and "pr_phase p = Closing"
  shows "process_inv D A mc (close_sessions grace p)"
proof (cases "take_sessions (mgr (pr_world p))")
  case (Pair r m')
  have old: "reaches world_start (world_step D A mc) (pr_world p)" "closing (mgr (pr_world p))" "pr_shutdown p"
    "pr_tcp_shutdown p" "joined_ok p"
    using assms by (simp_all add: process_inv_def stopped_ok_def)
  show ?thesis
  proof (cases r)
    case (Inl e)
    with Pair old take_sessions_Inl [of "mgr (pr_world p)" e m'] show ?thesis
      by (auto simp: close_sessions_def process_inv_def phase_ok_def joined_ok_def stopped_ok_def)
  next
    case (Inr n)
    have "reaches world_start (world_step D A mc) ((pr_world p)\<lparr>mgr := m', world.drained := True\<rparr>)"
      using old(1,2) Pair Inr by (auto intro: reaches_step w_take)
    moreover have "pr_tasks p l \<noteq> Running" if "l \<notin> set (to_join p)" for l
      using that old(5) by (auto simp: joined_ok_def)
    ultimately show ?thesis
      using Pair Inr old assms(2) closing_take [OF Pair]
      by (auto simp: close_sessions_def process_inv_def phase_ok_def joined_ok_def stopped_ok_def)
  qed
qed

lemma join_listener_inv:
  assumes "process_inv D A mc p" and "pr_phase p = Draining (l # ls)" and "pr_tasks p l = Ended x"
  shows "process_inv D A mc (join_listener l x ls p)"
  using assms
  by (cases "exit_result x")
    (auto simp: join_listener_def process_inv_def phase_ok_def joined_ok_def stopped_ok_def split: if_splits, force)

lemma abort_task_simps [simp]: "abort_task l t \<noteq> Running" "abort_task l t = Ended x \<longleftrightarrow> t = Ended x"
  by (cases t; simp)+

lemma expire_drain_inv:
  assumes "process_inv D A mc p" and "pr_phase p = Draining ls"
  shows "process_inv D A mc (expire_drain p)"
  using assms by (fastforce simp: expire_drain_def process_inv_def phase_ok_def joined_ok_def stopped_ok_def)

lemma finish_main_inv:
  assumes "process_inv D A mc p" and "pr_phase p = Draining []"
  shows "process_inv D A mc (finish_main flush p)"
  using assms
  by (fastforce simp: finish_main_def process_inv_def phase_ok_def joined_ok_def stopped_ok_def split: option.splits sum.splits)

lemmas main_inv = begin_shutdown_inv close_sessions_inv join_listener_inv expire_drain_inv finish_main_inv

lemma main_step_inv: "main_step grace flush p p' \<Longrightarrow> process_inv D A mc p \<Longrightarrow> process_inv D A mc p'"
  by (erule main_stepE) (auto intro: main_inv)

lemma reaper_tick_inv:
  assumes "process_inv D A mc p"
  shows "process_inv D A mc (reaper_tick mc now p)"
proof (cases "reap_expired mc now (mgr (pr_world p))")
  case (Pair r m')
  then have "closing m' = closing (mgr (pr_world p))"
    by (auto simp: reap_expired_def locked_def split: if_splits sum.splits)
  moreover have "world_step D A mc (pr_world p) ((pr_world p)\<lparr>mgr := m'\<rparr>)"
    using Pair by (rule w_reap)
  ultimately show ?thesis
    using Pair assms
    by (auto simp: reaper_tick_def process_inv_def phase_ok_def joined_ok_def stopped_ok_def intro: reaches_step split: phase.splits)
qed

lemma env_step_inv:
  assumes "env_step D A mc p p'" and inv: "process_inv D A mc p"
  shows "process_inv D A mc p'"
  using assms(1)
proof cases
  case (e_request w)
  with inv show ?thesis
    by (auto simp: process_inv_def phase_ok_def joined_ok_def stopped_ok_def intro: reaches_step split: phase.splits)
next
  case (e_tick now)
  with inv show ?thesis by (simp add: reaper_tick_inv)
next
  case (e_listener_ends l x)
  with inv show ?thesis
    by (fastforce simp: process_inv_def phase_ok_def joined_ok_def stopped_ok_def split: phase.splits if_splits)
next
  case (e_wait t)
  with inv show ?thesis
    by (auto simp: process_inv_def phase_ok_def joined_ok_def stopped_ok_def split: phase.splits)
qed

lemma started_inv: "server_started H U c key p \<Longrightarrow> process_inv D A mc p"
  by (auto simp: server_started_def process_inv_def phase_ok_def joined_ok_def stopped_ok_def serving_def session_manager_of_def
      manager_new_def world_start_def intro!: reaches_init elim!: start_server_Started)

interpretation server_machine: inductive_invariant "server_started H U c key" "process_step D A mc grace flush" "process_inv D A mc"
  by unfold_locales (auto simp: process_step_def intro: started_inv main_step_inv env_step_inv)

subsection \<open>Time\<close>

definition deadline_ok :: "nat \<Rightarrow> 'S process \<Rightarrow> bool" where
  "deadline_ok grace p \<longleftrightarrow> (\<forall>ls. pr_phase p = Draining ls \<longrightarrow> pr_deadline p \<le> pr_clock p + grace)"

lemma main_step_deadline: "main_step grace flush p p' \<Longrightarrow> deadline_ok grace p \<Longrightarrow> deadline_ok grace p'"
  by (erule main_stepE) (auto simp: deadline_ok_def shutdown_defs split: prod.splits sum.splits)

lemma env_step_deadline: "env_step D A mc p p' \<Longrightarrow> deadline_ok grace p \<Longrightarrow> deadline_ok grace p'"
  by (erule env_step.cases) (auto simp: deadline_ok_def reaper_tick_def)

lemma started_deadline: "server_started H U c key p \<Longrightarrow> deadline_ok grace p"
  by (auto simp: server_started_def deadline_ok_def serving_def elim!: start_server_Started)

interpretation timed_machine: inductive_invariant "server_started H U c key" "process_step D A mc grace flush" "deadline_ok grace"
  by unfold_locales (auto simp: process_step_def intro: started_deadline main_step_deadline env_step_deadline)

text \<open>What \<open>main\<close> does when nothing else in the process moves but the clock.\<close>

definition alone :: "nat \<Rightarrow> (string, unit) result option \<Rightarrow> 'S process \<Rightarrow> 'S process \<Rightarrow> bool" where
  "alone grace flush p p' \<longleftrightarrow> main_step grace flush p p' \<or> (\<exists>t \<ge> pr_clock p. \<not> exited p \<and> p' = p\<lparr>pr_clock := t\<rparr>)"

lemma alone_is_process_step: "alone grace flush p p' \<Longrightarrow> process_step D A mc grace flush p p'"
  by (auto simp: alone_def process_step_def intro: e_wait)

lemma finish_main_exits [simp]: "exited (finish_main flush p)" "pr_clock (finish_main flush p) = pr_clock p"
  by (simp_all add: finish_main_def exited_def)

lemma expire_drain_fields [simp]: "pr_phase (expire_drain p) = Draining []" "pr_clock (expire_drain p) = pr_clock p"
  by (simp_all add: expire_drain_def)

lemma drain_ends:
  assumes "pr_phase p = Draining ls"
  shows "\<exists>p'. (alone grace flush)\<^sup>*\<^sup>* p p' \<and> exited p' \<and> pr_clock p' \<le> max (pr_clock p) (pr_deadline p)"
proof (cases ls)
  case Nil
  with assms have "alone grace flush p (finish_main flush p)" by (auto simp: alone_def intro: m_finish)
  then show ?thesis by (intro exI [of _ "finish_main flush p"]) auto
next
  case (Cons l rest)
  let ?t = "max (pr_clock p) (pr_deadline p)"
  let ?q = "p\<lparr>pr_clock := ?t\<rparr>"
  have "alone grace flush p ?q" using assms by (auto simp: alone_def exited_def intro!: disjI2 exI [of _ ?t])
  moreover have "main_step grace flush ?q (expire_drain ?q)"
    by (rule m_deadline [of _ l rest]) (simp_all add: assms Cons)
  moreover have "main_step grace flush (expire_drain ?q) (finish_main flush (expire_drain ?q))"
    by (rule m_finish) simp
  ultimately have "(alone grace flush)\<^sup>*\<^sup>* p (finish_main flush (expire_drain ?q))"
    by (meson alone_def converse_rtranclp_into_rtranclp rtranclp.rtrancl_refl)
  then show ?thesis by (intro exI conjI) (assumption, simp_all)
qed

lemma closing_refuses: "closing m \<Longrightarrow> \<exists>e. fst (open_admit mc now who target m) = Inl e"
  by (simp add: open_admit_def reserve_open_def st_bind_def split: option.splits)

subsection \<open>Properties\<close>




text \<open>
  C18: a server that cannot start leaves no listener behind. When starting fails, no listener is
  running. If the TCP listener had been started, the Iroh listener could not be, the TCP listener was
  told to stop and has ended, and the error is the one of Iroh, or the one the TCP listener ended with.
  Otherwise the error is the one of the listener that could not start.
\<close>

theorem failed_start_leaves_no_listener:
  assumes "start_server H U c m now fs = (StartFailed e t stop, fs')"
  shows "t \<noteq> Running
    \<and> (\<forall>x. t = Ended x \<longrightarrow> stop \<and> tcp c \<noteq> None
        \<and> (\<exists>i e'. iroh c = Some i \<and> fst (start_iroh_listener H U i (require_authentication (server c)) fs) = Inl e'
             \<and> (if exit_result x = Inr () then e = e' else exit_result x = Inl e)))
    \<and> ((\<forall>x. t \<noteq> Ended x) \<longrightarrow>
        (\<exists>e'. ho_bind H (listen (server c)) = Inl e' \<and> e = [Str e'])
        \<or> (\<exists>tc. tcp c = Some tc \<and> start_tcp_listener H tc = Inl e)
        \<or> (\<exists>i. tcp c = None \<and> iroh c = Some i
             \<and> fst (start_iroh_listener H U i (require_authentication (server c)) fs) = Inl e))"
  using assms
  by (cases "tcp c"; cases "iroh c")
    (auto simp: start_server_def abandon_start_def result_iffs split: sum.splits option.splits prod.splits if_splits)

subsection \<open>A server that starts, serves and stops\<close>

definition demo_tls :: "unit tls_library" where
  "demo_tls =
     \<lparr>tl_pem_file_iter = (\<lambda>_. Inr []), tl_from_pem_file = (\<lambda>_. Inr []), tl_add_root = (\<lambda>_. Inr ()),
      tl_mutual = (\<lambda>a b c d. Inr ()), tl_with_handshake_timeout = (\<lambda>n t. Inr t)\<rparr>"

text \<open>A host on which every listener can start but the Iroh one, whose key file is missing.\<close>

definition demo_host :: "(unit, unit, unit) host" where
  "demo_host =
     \<lparr>ho_bind = (\<lambda>_. Inr ()), ho_tls = demo_tls, ho_serve_tcp = (\<lambda>_. Bound ''here''),
      ho_serve_tcp_with_mtls_identity = (\<lambda>a t policy. Bound ''here''), ho_tcp_stopped = Some (TaskReturned (Inr ())),
      ho_read_to_string = (\<lambda>_. Inl ''no such file''), ho_secret_key = Inr, ho_bind_endpoint = (\<lambda>s r. Inr ()),
      ho_endpoint_id = (\<lambda>_. ''id''), ho_ip_addrs = (\<lambda>_. []), ho_to_vec_pretty = (\<lambda>a b. Inr []),
      ho_write = (\<lambda>path bs fs. (Inr (), fs))\<rparr>"

type_synonym demo_process =
  "(demo_connection manager_connection, record_batch list manager_statement, nat, record_batch list, record_batch, nat,
    record_batch list counting_file) session process"

definition demo_serving :: demo_process where
  "demo_serving = serving demo_initial Absent Absent 0"

definition demo_closing :: demo_process where
  "demo_closing = begin_shutdown (select_stop None demo_serving)"

definition demo_stopped :: demo_process where
  "demo_stopped = close_sessions 5 (demo_closing\<lparr>pr_tasks := (pr_tasks demo_closing)(Http := Ended (TaskReturned (Inr ())))\<rparr>)"

abbreviation demo_run :: "demo_process \<Rightarrow> bool" where
  "demo_run \<equiv> reaches (server_started demo_host demo_auth demo_config [])
     (process_step (managed_ops list_managed) list_stream (fst (session_manager_of demo_config [] :: manager_config \<times> unit manager)) 5 None)"

lemma demo_started: "server_started demo_host demo_auth demo_config [] demo_serving"
  unfolding server_started_def
  by (rule exI [of _ 0]) (simp add: start_server_def demo_serving_def demo_initial_def demo_host_def demo_config_def)

lemma demo_closing_run: "demo_run demo_closing"
  unfolding demo_closing_def
  by (rule reaches_step [OF reaches_init [where init = "server_started demo_host demo_auth demo_config []", OF demo_started]])
    (auto simp: process_step_def demo_serving_def serving_fields intro!: m_signal [of _ Delivered Waiting] simp: shutdown_signal_def)

lemma demo_closing_fields:
  "pr_phase demo_closing = Closing" "pr_tasks demo_closing Http = Running" "pr_tasks demo_closing Tcp = Absent"
  "pr_tasks demo_closing Iroh = Absent" "\<not> pr_joined demo_closing l" "pr_error demo_closing = None" "pr_clock demo_closing = 0"
  by (simp_all add: demo_closing_def demo_serving_def begin_shutdown_def select_stop_def serving_def)

lemma demo_exits:
  obtains p where "demo_run p" "pr_phase p = Exited (Inr ())"
proof -
  let ?x = "TaskReturned (Inr ())"
  let ?p1 = "demo_closing\<lparr>pr_tasks := (pr_tasks demo_closing)(Http := Ended ?x)\<rparr>"
  let ?p3 = "join_listener Http ?x [] demo_stopped"
  have "demo_run ?p1"
    by (rule reaches_step [OF demo_closing_run])
      (auto simp: process_step_def exited_def demo_closing_fields intro!: e_listener_ends)
  then have "demo_run demo_stopped"
    unfolding demo_stopped_def
    by (rule reaches_step) (auto simp: process_step_def demo_closing_fields intro!: m_close)
  moreover have stopped: "pr_phase demo_stopped = Draining [Http]" "pr_tasks demo_stopped Http = Ended ?x" "pr_error demo_stopped = None"
    by (simp_all add: demo_stopped_def close_sessions_def to_join_def demo_closing_fields demo_closing_def demo_serving_def
        serving_def begin_shutdown_def select_stop_def begin_closing_def take_sessions_def locked_def demo_initial_def
        session_manager_of_def manager_new_def)
  ultimately have "demo_run ?p3"
    by - (erule reaches_step, auto simp: process_step_def intro!: m_join)
  moreover have "pr_phase ?p3 = Draining []" "pr_error ?p3 = None" by (simp_all add: join_listener_def stopped)
  ultimately have "demo_run (finish_main None ?p3)"
    by - (erule reaches_step, simp add: process_step_def m_finish)
  moreover have "pr_phase (finish_main None ?p3) = Exited (Inr ())"
    by (simp add: finish_main_def join_listener_def stopped)
  ultimately show ?thesis by (rule that)
qed



definition tcp_demo_config :: config where
  "tcp_demo_config =
     iroh_demo_config\<lparr>tcp := Some \<lparr>tcp_listen = SocketAddr (V4 127 0 0 1) 9000, allow_insecure = False, tls = None\<rparr>\<rparr>"

theorem failed_start_leaves_no_listener_witness:
  "\<exists>e t stop. start_server demo_host demo_auth tcp_demo_config demo_initial 0 () = (StartFailed e t stop, ())
     \<and> e = [Str ''no such file''] \<and> t = Ended (TaskReturned (Inr ())) \<and> stop \<and> t \<noteq> Running"
proof -
  have "start_server demo_host demo_auth tcp_demo_config demo_initial 0 ()
      = (StartFailed [Str ''no such file''] (Ended (TaskReturned (Inr ()))) True, ())"
    by (simp add: start_server_def tcp_demo_config_def iroh_demo_config_def demo_config_def start_tcp_listener_def demo_host_def
        start_iroh_listener_def st_bind_def abandon_start_def)
  with failed_start_leaves_no_listener [OF this] show ?thesis by blast
qed

end
