(* ===== verification/Spec2Isabelle.thy ===== *)
theory Spec2Isabelle
  imports Release Lifecycle Server_Process
begin

text \<open>
  Grainlift, an ADBC proxy, as a verification development. An application loads the client driver
  (\<open>crates/adbc-driver-grainlift\<close>); the driver speaks a typed RPC protocol
  (\<open>crates/grainlift-protocol\<close>) with a server (\<open>crates/grainlift-server\<close>), which authenticates the
  caller, keeps sessions and drives a database through an ADBC driver of its own.

  \<^bold>\<open>Parts and theories.\<close> Every definition keeps the name of the Rust item it models where HOL allows.
    \<^item> \<open>Prelude\<close>: results (\<open>error + value\<close>), state-passing steps (\<open>st_bind\<close> is \<open>?\<close> with state),
      mutexes with poisoning, hash maps as association lists, words, \<open>usize\<close> arithmetic, and the
      locale \<open>inductive_invariant\<close> of state machines.
    \<^item> \<open>Adbc\<close> (\<open>grainlift-protocol/src/lib.rs\<close>): errors and configured option values on the wire.
    \<^item> \<open>Arrow\<close>, \<open>Ipc\<close>, \<open>Records\<close> (\<open>lib.rs\<close>, \<open>requests.rs\<close>, \<open>responses.rs\<close> of the protocol): batch
      accessors and request schemas, the bounded IPC payloads with their framing check, the typed
      requests and responses and their validation.
    \<^item> \<open>Config\<close> (\<open>config.rs\<close>), \<open>Backend\<close> (\<open>backend.rs\<close>): the configuration and its validation, the
      client option policy, the merging of options and the opening of a downstream connection.
      \<open>Managed\<close> (\<open>backend.rs\<close>): the methods of the connections and statements of the driver manager,
      assembled to the backend the sessions call.
    \<^item> \<open>Result_Entry\<close>, \<open>Worker\<close>, \<open>Session\<close>, \<open>Manager\<close> (\<open>session.rs\<close>), \<open>Bind_Upload\<close>
      (\<open>bind_upload.rs\<close>), \<open>Partitions\<close> (\<open>partitions.rs\<close>): result cursors, the worker thread of a
      session, the operations of a session, the registry of sessions with its quotas and leases,
      the thread that stages a bound stream, the sealed partition tokens. \<open>Lifecycle\<close> adds to the
      registry the sessions that handlers still hold after they left it and the sessions that were
      dropped (\<open>Drop for Session\<close>).
    \<^item> \<open>Service\<close>, \<open>Handlers\<close>, \<open>Rpc\<close>, \<open>Streams\<close> (\<open>service.rs\<close>): argument checks and replies, one
      definition per registered method, the properties of the method table, the streaming methods.
      \<open>List_Service\<close> is a small concrete service over lists at which properties are evaluated.
    \<^item> \<open>Iroh_Pool\<close> (\<open>iroh_pool.rs\<close>), \<open>Client_Options\<close>, \<open>Client\<close>, \<open>Client_Info\<close>
      (\<open>adbc-driver-grainlift/src/lib.rs\<close>): the pool of shared connections, database options and
      transports, connections, statements and readers, the \<open>GetInfo\<close> reader.
    \<^item> \<open>End_To_End\<close>: the driver with its RPC client replaced by the service's own handlers, so that a
      call of the application runs through both programs; \<open>Reading\<close>: a result read by the driver, turn
      by turn, from the execution to the end of the stream; \<open>Error_Path\<close>: the errors of the database on
      their way to the application; \<open>Release\<close>: what dropping a handle of the driver releases on the server.
      The other properties that span both programs are below.
    \<^item> \<open>Server_Setup\<close>, \<open>Server_Process\<close> (\<open>main.rs\<close>, and \<open>from_path\<close> of \<open>config.rs\<close>): what the server builds
      from its configuration, which are the session manager, the service, the authenticator, the
      identity policy of Iroh peers and the TLS material; and the life of the process, from the start
      of the listeners over serving and reaping to shutdown and exit.

  \<^bold>\<open>State and errors.\<close> A Rust struct is a record, an enum a datatype. A method on shared state is a
  function from the state to a result and the new state; an early return is the \<open>Inl\<close> of a result
  and keeps the state changes made before it. The formatted text of an error is a list of its
  fragments (\<open>message\<close>), so the values it reports are visible without a model of formatting.
  Concurrency is modelled where the code has it: the session worker, the registry of sessions, the
  connection pool and the server process each have a step relation whose steps are the critical sections of the code,
  and their properties hold for every interleaving. A timeout, a full queue or a stopped thread is
  an outcome of the circumstances of a call (\<open>call_outcome\<close>, \<open>ambient\<close>), over which the theorems
  quantify.

  \<^bold>\<open>Parameters.\<close> Code outside the repository is a parameter, with what is relied on as a named
  hypothesis: the downstream ADBC driver (\<open>driver_ops\<close>, \<open>driver_calls\<close>, \<open>driver_manager\<close>), Arrow's IPC
  codec (\<open>arrow_ipc\<close>, law \<open>ipc_round_trips\<close>) and stream format (\<open>arrow_stream\<close>, law
  \<open>stream_round_trips\<close>), the derived record conversions (\<open>vgi_arrow\<close>, law \<open>vgi_round_trips\<close>), HMAC,
  base64 and JSON (law \<open>errors_round_trip\<close>: the driver reads the error record the service wrote),
  URL and PEM parsing, sockets, TLS and Iroh (\<open>dialer\<close>, \<open>iroh_lib\<close>), the RPC
  client (\<open>wire\<close>), and on the side of the server process the driver manager (\<open>managed_driver\<close>), files
  and the TOML decoder (\<open>config_source\<close>), listeners (\<open>host\<close>) and the authentication of the RPC library
  (\<open>auth_library\<close>, laws \<open>names_principals\<close> and \<open>checks_tokens\<close>). Each law is satisfied by a concrete instance used in the witnesses.

  \<^bold>\<open>What is shown.\<close> Locales state the contracts: inductive invariants of the machines, preorders on
  states that every part of a handler keeps (\<open>state_preorder\<close>), and they are interpreted on the
  model. Per component: result cursors answer exactly by sequence number and drain their reader;
  the worker refines sequential calls; uploads deliver what was pushed and report their first
  error; validated configurations are safe and operator options win; framing accepts exactly the
  framed streams and everything sent is decoded to what was sent; partition tokens are bound to
  their owner and expire; sessions keep their quotas and ownership; the registry keeps its quotas,
  isolates principals and shuts down for good; every RPC is a run of the registry machine, spares
  other principals, has no effect when refused and leaves no handle when it fails; a result is
  read completely; a bound stream is what was sent; the pool shares one slot per key and replaces
  dead connections; options and credentials go only where they belong; \<open>GetInfo\<close> terminates and
  filters. Across both programs: what the driver opens, binds and reads is what the server does; a
  statement executed through the driver yields exactly the batches the database returned; an error of
  the database reaches the application with all its parts, and a failed execution leaves no result on
  the server; through a configured server, a connection is opened with the operator's options for the
  owner of the token the driver sent. Statements, readers and connections that the application
  drops are released on the server. Every session is dropped exactly once, never while it is in use,
  and its connection is cancelled then. For the
  process: a configured server opens connections only for the owner of a listed token or for a
  mapped Iroh endpoint, on permitted targets and with the operator's options; a failed start leaves
  no listener running; shutdown leaves no session and no listener, cannot be held up beyond the
  grace period and is reported as clean only after a signal.

  \<^bold>\<open>Bounds and termination.\<close> Loops are structural recursions or functions with a measure (the
  framing check advances through the payload). The loop of the \<open>GetInfo\<close> reader, which may run on
  an endless downstream reader, is a partial function into \<open>option\<close>, and its termination on a
  finite reader is proved. The pool's retry loop has exactly two rounds. No fuel is used. Byte
  counts are checked against \<open>usize\<close> (\<open>usize_max\<close>, 64 bit) where the code checks them; \<open>u32\<close> codes
  are words; \<open>i64\<close> values that the code only compares or forwards are integers.

  \<^bold>\<open>Not modelled.\<close> The exporters of tracing and the routing of the HTTP framework are libraries; of
  \<open>main.rs\<close> only the decision to export and the health routes remain of them. The interval of the
  reaper is any sequence of ticks. Whether a signal or the end of a listener is taken first, when both
  are ready, is left open, as \<open>select!\<close> leaves it. Dropping the runtime at the end of the process, which
  waits for a detached TCP listener, happens after \<open>main\<close> has returned. Tracing spans and log lines have no
  effect on the state. The bindings for other languages, their tests, the benchmarks and the
  conformance suites are not part of the program and only call the driver. The order in which a
  \<open>HashMap\<close> is iterated is the insertion order of the association list; no property depends on it.
\<close>

section \<open>Properties across the driver and the service\<close>

text \<open>
  C1: what an application asks the driver to open is what the service opens. When the driver
  reports a new connection, the service identified the caller and its authorizer allows the
  caller the target of the database; the session the connection names was registered with a
  connection that the target's downstream driver opened from exactly the application's database
  options (less the driver's own) and connection options, and it belongs to the caller.
\<close>

theorem driver_open_end_to_end:
  fixes R :: "('v, 'cl, ('c, 's, 'k, 'r, 'sch, 'w) server_net, stream_handle, 'sch) driver"
    and Z :: "('c, 's, 'k, 'r, 'sch, 'x, 'w, 'f) server"
  assumes wire: "dr_wire R = served_wire Z" and lib: "dr_lib R = sv_lib (se_service Z)"
    and ipc: "ipc_round_trips (l_ipc (dr_lib R))"
    and types: "vgi_round_trips (t_open_connection (l_types (dr_lib R)))" "vgi_round_trips (t_session (l_types (dr_lib R)))"
    and db: "new_database_with_opts db_opts = Inr d"
    and call: "new_connection_with_opts R d opts (p, n) = (Inr rm, (p', n'))"
  shows "\<exists>who target tc dbo c now. caller (se_service Z) (se_context Z) = Inr who
    \<and> string_option d option_target = Inr target
    \<and> authorizer_allows (mc_authorizer (sv_mc (se_service Z))) who target
    \<and> hm_get (mc_targets (sv_mc (se_service Z))) target = Some tc
    \<and> distinct (map fst dbo) \<and> (\<forall>k. map_of dbo k = forwarded d k)
    \<and> sv_backend (se_service Z) tc dbo opts = Inr c
    \<and> hm_get (sessions (inner (registry (sn_manager n')))) (rm_session_id rm)
        = Some (new_session (sv_ops (se_service Z)) (sv_mc (se_service Z)) now who target tc c)"
proof -
  obtain who target tc dbo c now where "caller (se_service Z) (se_context Z) = Inr who" "string_option d option_target = Inr target"
    "authorizer_allows (mc_authorizer (sv_mc (se_service Z))) who target"
    "hm_get (mc_targets (sv_mc (se_service Z))) target = Some tc" "distinct (map fst dbo)" "\<forall>k. map_of dbo k = forwarded d k"
    "sv_backend (se_service Z) tc dbo opts = Inr c"
    "hm_get (sessions (inner (registry (sn_manager n')))) (rm_session_id rm)
       = Some (new_session (sv_ops (se_service Z)) (sv_mc (se_service Z)) now who target tc c)"
    by (rule driver_open_served [OF assms])
  then show ?thesis by blast
qed

theorem driver_open_end_to_end_witness:
  "\<exists>rm n'. new_connection_with_opts opening_driver duck_database [] (empty_pool, list_net_at empty_manager 0)
      = (Inr rm, (empty_pool, n'))
    \<and> (\<exists>s. hm_get (sessions (inner (registry (sn_manager n')))) (rm_session_id rm) = Some s
         \<and> s_principal s = alice_name \<and> s_target s = ''duck'')"
proof -
  obtain rm n' where call: "new_connection_with_opts opening_driver duck_database []
      (empty_pool, list_net_at empty_manager 0) = (Inr rm, (empty_pool, n'))"
    by (rule duck_opens)
  have "\<exists>who target tc dbo c now. caller (se_service opening_server) (se_context opening_server) = Inr who
    \<and> string_option duck_database option_target = Inr target
    \<and> authorizer_allows (mc_authorizer (sv_mc (se_service opening_server))) who target
    \<and> hm_get (mc_targets (sv_mc (se_service opening_server))) target = Some tc
    \<and> distinct (map fst dbo) \<and> (\<forall>k. map_of dbo k = forwarded duck_database k)
    \<and> sv_backend (se_service opening_server) tc dbo [] = Inr c
    \<and> hm_get (sessions (inner (registry (sn_manager n')))) (rm_session_id rm)
        = Some (new_session (sv_ops (se_service opening_server)) (sv_mc (se_service opening_server)) now who target tc c)"
    by (rule driver_open_end_to_end [OF _ _ _ _ _ duck_database_new call])
      (simp_all add: opening_driver_def opening_server_def list_driver_def list_server_def list_service_def list_lib_def
        list_types_def coded_round_trips list_ipc_round_trips)
  then show ?thesis
    using call list_caller
    by (auto simp: opening_server_def list_server_def duck_database_def string_option_def option_names new_session_def)
qed

text \<open>
  C19: what an application binds through the driver is what its statement on the server gets. When
  \<open>bind\<close> or \<open>bind_stream\<close> of the driver reports success, the application's reader had no error and,
  in the session of the connection, the statement's downstream driver was handed exactly the
  batches of the application: in stream mode a reader over them, in batch mode the one batch. No
  upload is left. The laws of Arrow and of the staging file are the only assumptions: the byte
  limits of the two sides may differ.
\<close>

theorem driver_bind_end_to_end:
  fixes R :: "('v, 'cl, ('c, 's, 'k, 'r, 'sch, 'w) server_net, stream_handle, 'sch) driver"
    and Z :: "('c, 's, 'k, 'r, 'sch, 'x, 'w, 'f) server"
  assumes wire: "dr_wire R = served_wire Z" and lib: "dr_lib R = sv_lib (se_service Z)"
    and ipc: "ipc_round_trips (l_ipc (dr_lib R))"
    and stream: "\<And>i. stages (se_service Z) contents (a_tempfile (se_ambient Z i))"
    and reader_law: "reads (sv_ops (se_service Z)) contents"
    and spawned: "\<And>i. a_spawn (se_ambient Z i) = Inr ()"
    and mode: "mode_of name = Some mode"
    and call: "bind_batches R rm name hid from_arrow sch items (p, n) = (Inr (), (p', n'))"
  shows "\<exists>bs s0 s entry st'. items = map Inr bs
    \<and> hm_get (sessions (inner (registry (sn_manager n)))) (rm_session_id rm) = Some s0
    \<and> hm_get (inner (statements s0)) hid = Some entry
    \<and> hm_get (sessions (inner (registry (sn_manager n')))) (rm_session_id rm) = Some s
    \<and> hm_get (inner (bind_uploads s)) (a_uuid (se_ambient Z (sn_count n))) = None
    \<and> hm_get (inner (statements s)) hid = Some (entry\<lparr>statement := store (statement entry) st'\<rparr>)
    \<and> (case mode of
         StreamMode \<Rightarrow> (\<exists>rd. contents rd = bs
           \<and> d_bind_stream (sv_ops (se_service Z)) rd (inner (statement entry)) = (Inr (), st'))
       | BatchMode \<Rightarrow> (\<exists>b. bs = [b]
           \<and> d_bind (sv_ops (se_service Z)) b (inner (statement entry)) = (Inr (), st')))"
proof -
  let ?E = "se_service Z"
  obtain cl :: "'cl any_client" and ipc_bytes cur bs ts n1 where
    init: "bind_init ?E mode (se_ambient Z (sn_count n)) (to_request cl (bind_init_request (rm_session_id rm) hid ipc_bytes))
       (se_context Z) (sn_manager n) = (Inr cur, sn_manager n1)"
    and items: "items = map Inr bs"
    and enc: "list_all2 (\<lambda>b t. encode_bind_turn (l_ipc (dr_lib R)) b (min (rm_max_bind_bytes rm) max_control_bytes) = Inr t)
       (map Some bs @ [None]) ts"
    and run: "run_turns (bind_exchange_turn R (BindHandle cur)) ts (p, n1) = (Inr (), (p', n'))"
    by (rule bind_batches_Inr [OF call wire mode])
  have sid: "bc_session_id cur = rm_session_id rm" and uid: "bc_upload_id cur = a_uuid (se_ambient Z (sn_count n))"
    using init by (auto elim!: bind_init_Inr start_bind_upload_Inr dest: bind_request_args(1))
  define turns where "turns = zip (map (\<lambda>i. se_ambient Z (sn_count n1 + i)) [0..<length ts]) ts"
  have snds: "map snd turns = ts" by (simp add: turns_def)
  obtain out' where answered: "exchanges keeping ?E (se_context Z) cur turns None (sn_manager n1)
      = (Inr (), out', sn_manager n')"
    using run_turns_exchanges [OF run wire, of None] by (auto simp: turns_def)
  let ?dec = "\<lambda>t. decode_bind_turn (l_ipc (sv_lib ?E)) t (turn_limit cur)"
  have dec: "?dec t = Inr b"
    if "encode_bind_turn (l_ipc (dr_lib R)) b (min (rm_max_bind_bytes rm) max_control_bytes) = Inr t"
      "t \<in> set ts" for b t
  proof -
    from that(2) obtain a where "(a, t) \<in> set turns" by (auto simp: snds [symmetric])
    from exchanges_decoded [OF answered this] obtain b' where "?dec t = Inr b'" by blast
    with turn_decoded [OF ipc that(1), of "turn_limit cur" b'] lib show ?thesis by simp
  qed
  have "map (\<lambda>turn. ?dec (snd turn)) turns = map ?dec (map snd turns)" by simp
  also have "\<dots> = map Inr (map Some bs @ [None])"
    unfolding snds by (rule list_all2_map_eq [OF enc]) (rule dec)
  finally have sent: "map (\<lambda>turn. ?dec (snd turn)) turns = map (\<lambda>b. Inr (Some b)) bs @ [Inr None]" by simp
  show ?thesis
    using bind_exchange_delivers [OF stream reader_law spawned init sent answered] items sid uid
    by (auto dest!: bind_request_args(2))
qed

theorem driver_bind_end_to_end_witness:
  "\<exists>n' s entry. bind_batches list_driver list_remote ''bind_stream'' ''st1'' (\<lambda>e. internal [Str e]) 3
      [Inr (demo_batch [1]), Inr (demo_batch [2])] (empty_pool, list_net_at binding_manager 0)
    = (Inr (), (empty_pool, n'))
    \<and> hm_get (sessions (inner (registry (sn_manager n')))) ''s1'' = Some s
    \<and> hm_get (inner (statements s)) ''st1'' = Some entry
    \<and> inner (statement entry) = [demo_batch [1], demo_batch [2]]"
proof -
  let ?items = "[Inr (demo_batch [1]), Inr (demo_batch [2])] :: (string, record_batch) result list"
  obtain n' where call: "bind_batches list_driver list_remote ''bind_stream'' ''st1'' (\<lambda>e. internal [Str e]) 3
      ?items (empty_pool, list_net_at binding_manager 0) = (Inr (), (empty_pool, n'))"
    using list_driver_bind by blast
  have "\<exists>bs s0 s entry st'. ?items = map Inr bs
    \<and> hm_get (sessions (inner (registry (sn_manager (list_net_at binding_manager 0))))) (rm_session_id list_remote) = Some s0
    \<and> hm_get (inner (statements s0)) ''st1'' = Some entry
    \<and> hm_get (sessions (inner (registry (sn_manager n')))) (rm_session_id list_remote) = Some s
    \<and> hm_get (inner (bind_uploads s)) (a_uuid (se_ambient list_server (sn_count (list_net_at binding_manager 0)))) = None
    \<and> hm_get (inner (statements s)) ''st1'' = Some (entry\<lparr>statement := store (statement entry) st'\<rparr>)
    \<and> (case StreamMode of
         StreamMode \<Rightarrow> (\<exists>rd. rd = bs
           \<and> d_bind_stream (sv_ops (se_service list_server)) rd (inner (statement entry)) = (Inr (), st'))
       | BatchMode \<Rightarrow> (\<exists>b. bs = [b]
           \<and> d_bind (sv_ops (se_service list_server)) b (inner (statement entry)) = (Inr (), st')))"
  proof (rule driver_bind_end_to_end [where contents = "\<lambda>rd. rd", OF _ _ _ _ _ _ _ call])
    show "stages (se_service list_server) (\<lambda>rd. rd) (a_tempfile (se_ambient list_server i))" for i
      using list_stream_round_trips
      by (auto simp: stages_def run_open_def calm_def list_service_def list_server_def)
    show "reads (sv_ops (se_service list_server)) (\<lambda>rd. rd)"
      using list_reads by (simp add: list_service_def list_server_def)
    show "ipc_round_trips (l_ipc (dr_lib list_driver))"
      using list_ipc_round_trips by (simp add: list_driver_def list_lib_def)
  qed (simp_all add: list_driver_def list_server_def list_service_def list_remote_def calm_def mode_of_def)
  then obtain s entry st' where "hm_get (sessions (inner (registry (sn_manager n')))) ''s1'' = Some s"
    "hm_get (inner (statements s)) ''st1'' = Some (entry\<lparr>statement := store (statement entry) st'\<rparr>)"
    "st' = [demo_batch [1], demo_batch [2]]"
    by (auto simp: list_remote_def list_server_def list_service_def list_ops_def map_eq_Cons_conv)
  with call show ?thesis by auto
qed

text \<open>
  C20: the options an application reads have the type it asked for. When reading an option of a
  connection or a statement through the driver succeeds, the value is the one that the getter of
  the asked type of the downstream driver returned in the session of the connection, and it has
  that type; so the conversion of the driver's typed getters does not reject it.
\<close>

theorem driver_option_getters_typed:
  fixes R :: "('v, 'cl, ('c, 's, 'k, 'r, 'sch, 'w) server_net, stream_handle, 'sch) driver"
    and Z :: "('c, 's, 'k, 'r, 'sch, 'x, 'w, 'f) server"
  assumes wire: "dr_wire R = served_wire Z" and lib: "dr_lib R = sv_lib (se_service Z)"
    and ipc: "ipc_round_trips (l_ipc (dr_lib R))" and types: "vgi_round_trips (t_value (l_types (dr_lib R)))"
  shows "(get_connection_option R rm key t (p, n) = (Inr v, (p', n')) \<longrightarrow>
       has_value_type t v
       \<and> (\<exists>s c'. hm_get (sessions (inner (registry (sn_manager n)))) (rm_session_id rm) = Some s
          \<and> (let calls = sv_calls (se_service Z) in
             get_option_as (c_get_option_string calls) (c_get_option_bytes calls) (c_get_option_int calls)
               (c_get_option_double calls) t key (inner (connection s)) = (Inr v, c'))))
    \<and> (statement_get_option R rm hid key t (p, n) = (Inr v, (p', n')) \<longrightarrow>
       has_value_type t v
       \<and> (\<exists>s entry st'. hm_get (sessions (inner (registry (sn_manager n)))) (rm_session_id rm) = Some s
          \<and> hm_get (inner (statements s)) hid = Some entry
          \<and> (let calls = sv_calls (se_service Z) in
             get_option_as (s_get_option_string calls) (s_get_option_bytes calls) (s_get_option_int calls)
               (s_get_option_double calls) t key (inner (statement entry)) = (Inr v, st'))))"
  using connection_option_got [OF assms, of rm key t p n v p' n'] statement_option_got [OF assms, of rm hid key t p n v p' n']
  by (auto simp: Let_def dest: get_option_as_typed)

theorem driver_option_getters_typed_witness:
  "(\<exists>n'. get_connection_option list_driver list_remote ''k'' ''string'' (empty_pool, list_net_at live_manager 0)
      = (Inr (StringValue ''k''), (empty_pool, n')))
    \<and> has_value_type ''string'' (StringValue ''k'')
    \<and> (\<exists>s. hm_get (sessions (inner (registry live_manager))) ''s1'' = Some s)"
proof -
  obtain n' where call: "get_connection_option list_driver list_remote ''k'' ''string'' (empty_pool, list_net_at live_manager 0)
      = (Inr (StringValue ''k''), (empty_pool, n'))"
    by (rule list_get_option)
  have "dr_wire list_driver = served_wire list_server" "dr_lib list_driver = sv_lib (se_service list_server)"
    "ipc_round_trips (l_ipc (dr_lib list_driver))" "vgi_round_trips (t_value (l_types (dr_lib list_driver)))"
    by (simp_all add: list_driver_def list_server_def list_service_def list_lib_def list_types_def coded_round_trips
        list_ipc_round_trips)
  from driver_option_getters_typed [OF this, of list_remote "''k''" "''string''" empty_pool "list_net_at live_manager 0"
      "StringValue ''k''" empty_pool n' "''st''"] call
  show ?thesis by (auto simp: list_remote_def)
qed

text \<open>
  C2: what an application reads is what the database returned. When executing a statement through
  the driver succeeds, the statement of the session was executed by the downstream driver, and
  reading the driver's reader to its end yields exactly the batches of the reader that driver
  returned, in order and without an error, over HTTP and over a byte stream alike. The service is
  assumed to answer within the lease of the session and its worker to complete the calls.
\<close>

theorem driver_reads_what_was_executed:
  fixes R :: "('v, 'cl, ('c, 's, 'k, 'r, 'sch, 'w) server_net, stream_handle, 'sch) driver"
    and Z :: "('c, 's, 'k, 'r, 'sch, 'x, 'w, 'f) server"
  assumes wire: "dr_wire R = served_wire Z" and lib: "dr_lib R = sv_lib (se_service Z)"
    and ipc: "ipc_round_trips (l_ipc (dr_lib R))" and types: "vgi_round_trips (t_execute (l_types (dr_lib R)))"
    and law: "reads (sv_ops (se_service Z)) contents" and quiet: "quiet_dialer R rm"
    and soon: "prompt Z (a_now (se_ambient Z (sn_count n))) (Suc (sn_count n))"
    and call: "statement_execute R rm hid (p, n) = (Inr rd, (p', n'))"
  shows "\<exists>s entry src st'.
      hm_get (sessions (inner (registry (sn_manager n)))) (rm_session_id rm) = Some s
    \<and> hm_get (inner (statements s)) hid = Some entry
    \<and> s_execute_query (sv_calls (se_service Z)) (inner (statement entry)) = (Inr src, st')
    \<and> (\<forall>k > length (contents src). drain_reader R rm k rd (p', n') = map Inr (contents src))"
proof -
  let ?E = "se_service Z" and ?a = "se_ambient Z (sn_count n)"
  from call obtain reply p1 n1 r sch where
    sent: "remote_call R rm ''execute'' (statement_request (rm_session_id rm) hid) (p, n) = (Inr reply, (p1, n1))"
    and r: "client_decode_response (dr_lib R) (t_execute (l_types (dr_lib R))) execute_response_validate reply = Inr r"
    and opened: "reader_open R rm (er_result_id r) sch (p1, n1) = (Inr rd, (p', n'))"
    by (auto simp: statement_execute_def statement_call_def reader_from_response_def result_step_def elim!: st_bind_Inr)
  from sent obtain cl :: "'cl any_client" where
    handled: "execute_call ?E ?a (to_request cl (statement_request (rm_session_id rm) hid)) (se_context Z) (sn_manager n)
      = (Inr reply, sn_manager n1)" and count: "sn_count n1 = Suc (sn_count n)"
    by (rule remote_call_Inr [OF _ wire]) (auto simp: unary_execute)
  from handled obtain who s entry src st' where who: "caller ?E (se_context Z) = Inr who"
    and found: "hm_get (sessions (inner (registry (sn_manager n)))) (rm_session_id rm) = Some s"
      "hm_get (inner (statements s)) hid = Some entry"
      "s_execute_query (sv_calls ?E) (inner (statement entry)) = (Inr src, st')"
    and reply: "encode_response (l_ipc (sv_lib ?E)) (t_execute (l_types (sv_lib ?E))) execute_response_validate
       \<lparr>er_result_id = a_uuid ?a, er_rows_affected = None,
        er_schema_ipc = schema_to_bytes (sv_lib ?E) (d_schema (sv_ops ?E) src)\<rparr> (response_limit (se_context Z)) = Inr reply"
    and live: "streaming who (rm_session_id rm) (a_uuid ?a) contents (contents src) 0 (a_now ?a) (sn_manager n1)"
    by (rule execute_call_Inr)
  have "er_result_id r = a_uuid ?a"
    using control_response [OF ipc types reply [folded lib] r] by simp
  then have "drain_reader R rm k rd (p', n') = map Inr (contents src)" if "length (contents src) < k" for k
    using reader_open_drains [OF wire law quiet who live _ _ that] soon count opened by simp
  with found show ?thesis by blast
qed

theorem driver_reads_what_was_executed_witness:
  "\<exists>rd p n. statement_execute list_driver list_http ''st1'' (empty_pool, list_net_at holding_manager 0) = (Inr rd, (p, n))
     \<and> drain_reader list_driver list_http 3 rd (p, n) = [Inr (demo_batch [1]), Inr (demo_batch [2])]"
proof -
  obtain rd p n where call: "statement_execute list_driver list_http ''st1'' (empty_pool, list_net_at holding_manager 0) = (Inr rd, (p, n))"
    by (rule list_statement_execute)
  have "vgi_round_trips (t_execute (l_types (dr_lib list_driver)))"
    by (simp add: list_driver_def list_lib_def list_types_def coded_round_trips)
  moreover have "prompt list_server (a_now (se_ambient list_server 0)) (Suc 0)"
    using list_prompt [of "Suc 0"] by (simp add: list_server_def calm_def)
  ultimately have "\<exists>s entry src st'.
      hm_get (sessions (inner (registry holding_manager))) ''s1'' = Some s
    \<and> hm_get (inner (statements s)) ''st1'' = Some entry
    \<and> s_execute_query list_calls (inner (statement entry)) = (Inr src, st')
    \<and> (\<forall>k > length src. drain_reader list_driver list_http k rd (p, n) = map Inr src)"
    using driver_reads_what_was_executed [OF _ _ _ _ list_server_reads _ _ call]
    by (simp add: list_driver_def list_lib_def list_ipc_round_trips list_http_def list_remote_def quiet_dialer_def
        list_server_def list_service_def)
  then have "drain_reader list_driver list_http 3 rd (p, n) = map Inr held_batches"
    by (auto simp: holding_manager_def holding_parts list_calls_def held_batches_def split: if_splits)
  with call show ?thesis by (auto simp: held_batches_def)
qed


definition configured_server ::
  "(demo_connection manager_connection, record_batch list manager_statement, nat, record_batch list, nat, string,
    record_batch list counting_file, record_batch list) server" where
  "configured_server =
     \<lparr>se_service = server_of_config demo_platform demo_config, se_ambient = (\<lambda>_. calm ''s1''),
      se_context = \<lparr>call_context.auth = auth_context.truncate (for_principal demo_auth ''bearer'' ''alice''),
        response_limit_bytes = None\<rparr>,
      se_to_json = (\<lambda>_. ''{}''), se_display = (\<lambda>_. ''error'')\<rparr>"

definition configured_driver ::
  "(unit, unit, (demo_connection manager_connection, record_batch list manager_statement, nat, record_batch list, nat,
    record_batch list counting_file) server_net, stream_handle, nat) driver" where
  "configured_driver = \<lparr>dr_lib = list_lib, dr_dialer = idle_dialer, dr_wire = served_wire configured_server\<rparr>"


end
